theory Spec2Isabelle
  imports Complex_Main "HOL-Library.Log_Nat" "HOL-Library.Sublist"
begin

section \<open>JavaScript values\<close>

text \<open>
  The services and components pass around untyped JavaScript values: parsed response
  bodies (\<open>res.json()\<close> is \<open>any\<close>), result objects built by object literals, thrown
  \<open>Error\<close> objects. A value is modelled structurally; an object is the list of its own
  properties, read with the first binding of a name. Numbers are the rationals that the
  finite binary64 values denote.
\<close>

datatype jsval =
    JUndefined
  | JNull
  | JBool bool
  | JNum rat
  | JStr string
  | JArr "jsval list"
  | JObj "(string \<times> jsval) list"

text \<open>A thrown \<open>Error\<close> (TypeError, SyntaxError, DOMException, ...): only \<open>.message\<close> is read.\<close>

datatype js_error = JsError string

fun message :: "js_error \<Rightarrow> string" where
  "message (JsError m) = m"

text \<open>\<open>if (v)\<close>, \<open>!v\<close>, \<open>a || b\<close>, \<open>a && b\<close>: JavaScript truthiness.\<close>

fun truthy :: "jsval \<Rightarrow> bool" where
  "truthy JUndefined = False"
| "truthy JNull = False"
| "truthy (JBool b) = b"
| "truthy (JNum q) = (q \<noteq> 0)"
| "truthy (JStr s) = (s \<noteq> [])"
| "truthy (JArr xs) = True"
| "truthy (JObj kvs) = True"

definition js_or :: "jsval \<Rightarrow> jsval \<Rightarrow> jsval" where
  "js_or a b = (if truthy a then a else b)"

definition str_or :: "string \<Rightarrow> string \<Rightarrow> string" where
  "str_or a b = (if a \<noteq> [] then a else b)"

text \<open>
  Property read \<open>v.p\<close> for the property names this code reads (\<open>message\<close>, \<open>nonce\<close>,
  \<open>token\<close>, \<open>walletAddress\<close>, \<open>id\<close>, \<open>campaigns\<close>, \<open>exp\<close>, \<open>success\<close>, ...; none of them is
  a built-in property of strings, arrays or numbers): reading from \<open>null\<close> or \<open>undefined\<close>
  throws a TypeError, a primitive or an array has no such property.
\<close>

fun get_prop :: "jsval \<Rightarrow> string \<Rightarrow> js_error + jsval" where
  "get_prop JUndefined p = Inl (JsError (''Cannot read properties of undefined (reading '' @ p @ '')''))"
| "get_prop JNull p = Inl (JsError (''Cannot read properties of null (reading '' @ p @ '')''))"
| "get_prop (JObj kvs) p = Inr (case map_of kvs p of Some v \<Rightarrow> v | None \<Rightarrow> JUndefined)"
| "get_prop v p = Inr JUndefined"

fun join_comma :: "string list \<Rightarrow> string" where
  "join_comma [] = []"
| "join_comma [s] = s"
| "join_comma (s # t # ss) = s @ '','' @ join_comma (t # ss)"

text \<open>
  \<open>String(v)\<close>, as applied by template literals, by \<open>new Error(v)\<close> and by
  \<open>localStorage.setItem\<close>. The rendering of a number is the host's
  (\<open>Number.prototype.toString\<close>) and is a parameter.
\<close>

fun to_string :: "(rat \<Rightarrow> string) \<Rightarrow> jsval \<Rightarrow> string" where
  "to_string ns JUndefined = ''undefined''"
| "to_string ns JNull = ''null''"
| "to_string ns (JBool b) = (if b then ''true'' else ''false'')"
| "to_string ns (JNum q) = ns q"
| "to_string ns (JStr s) = s"
| "to_string ns (JArr xs) =
     join_comma (map (\<lambda>x. if x = JUndefined \<or> x = JNull then [] else to_string ns x) xs)"
| "to_string ns (JObj kvs) = ''[object Object]''"

definition digit_char :: "nat \<Rightarrow> char" where
  "digit_char n = ''0123456789'' ! (n mod 10)"

text \<open>\<open>${res.status}\<close>: a non-negative integer in decimal.\<close>

fun show_nat :: "nat \<Rightarrow> string" where
  "show_nat n = (if n < 10 then [digit_char n] else show_nat (n div 10) @ [digit_char (n mod 10)])"

section \<open>Numbers\<close>

text \<open>
  A JavaScript number is an IEEE 754 binary64 value: a finite one is the rational it
  denotes. The two zeros are identified (they differ only in the sign of a division by
  zero). \<open>to_double\<close> rounds a rational to the nearest binary64 value, ties to even,
  with gradual underflow below \<open>2^-1022\<close> and overflow to infinity from \<open>2^1024\<close> on;
  every arithmetic operation is the exact operation followed by this rounding.
\<close>

datatype number = Fin rat | PosInf | NegInf | NaN

text \<open>\<open>ilog2 q\<close> is \<open>\<lfloor>log\<^sub>2 q\<rfloor>\<close> for a positive \<open>q\<close>.\<close>

definition ilog2 :: "rat \<Rightarrow> int" where
  "ilog2 q =
     (let (a, b) = quotient_of q; d = bitlen a - bitlen b
      in if 2 powi d \<le> q then d else d - 1)"

definition round_even :: "rat \<Rightarrow> int" where
  "round_even x =
     (let f = \<lfloor>x\<rfloor>; r = x - of_int f
      in if r < 1 / 2 then f else if 1 / 2 < r then f + 1 else if even f then f else f + 1)"

definition to_double :: "rat \<Rightarrow> number" where
  "to_double q =
     (if q = 0 then Fin 0
      else
        let a = \<bar>q\<bar>;
            e = max (ilog2 a) (- 1022);
            ulp = 2 powi (e - 52);
            r = of_int (round_even (a / ulp)) * ulp
        in if 2 powi 1024 \<le> r then (if 0 < q then PosInf else NegInf)
           else Fin (sgn q * r))"

fun sign_of :: "number \<Rightarrow> rat" where
  "sign_of (Fin a) = sgn a"
| "sign_of PosInf = 1"
| "sign_of NegInf = - 1"
| "sign_of NaN = 0"

definition signed_inf :: "rat \<Rightarrow> number" where
  "signed_inf s = (if s = 0 then NaN else if 0 < s then PosInf else NegInf)"

fun num_mul :: "number \<Rightarrow> number \<Rightarrow> number" where
  "num_mul (Fin a) (Fin b) = to_double (a * b)"
| "num_mul NaN y = NaN"
| "num_mul x NaN = NaN"
| "num_mul x y = signed_inf (sign_of x * sign_of y)"

fun num_div :: "number \<Rightarrow> number \<Rightarrow> number" where
  "num_div (Fin a) (Fin b) = (if b = 0 then signed_inf (sgn a) else to_double (a / b))"
| "num_div NaN y = NaN"
| "num_div x NaN = NaN"
| "num_div (Fin a) y = Fin 0"
| "num_div x (Fin b) = (if b = 0 then x else signed_inf (sign_of x * sgn b))"
| "num_div x y = NaN"

text \<open>\<open>x < y\<close> on numbers: false whenever an operand is NaN.\<close>

fun num_less :: "number \<Rightarrow> number \<Rightarrow> bool" where
  "num_less NaN y = False"
| "num_less x NaN = False"
| "num_less (Fin a) (Fin b) = (a < b)"
| "num_less x NegInf = False"
| "num_less PosInf y = False"
| "num_less NegInf y = True"
| "num_less x PosInf = True"

text \<open>\<open>x <= y\<close>\<close>

fun num_le :: "number \<Rightarrow> number \<Rightarrow> bool" where
  "num_le NaN y = False"
| "num_le x NaN = False"
| "num_le (Fin a) (Fin b) = (a \<le> b)"
| "num_le x PosInf = True"
| "num_le NegInf y = True"
| "num_le x y = False"

text \<open>\<open>Math.round\<close>: the nearest integer, a half rounding up.\<close>

fun Math_round :: "number \<Rightarrow> number" where
  "Math_round (Fin q) = Fin (of_int \<lfloor>q + 1 / 2\<rfloor>)"
| "Math_round x = x"

fun Math_min :: "number \<Rightarrow> number \<Rightarrow> number" where
  "Math_min NaN y = NaN"
| "Math_min x NaN = NaN"
| "Math_min x y = (if num_less y x then y else x)"

text \<open>
  \<open>ToNumber\<close>, applied by \<open>*\<close> to a non-number operand. The parse of a string as a
  numeric literal is the host's and is a parameter.
\<close>

fun to_number :: "(string \<Rightarrow> number) \<Rightarrow> (rat \<Rightarrow> string) \<Rightarrow> jsval \<Rightarrow> number" where
  "to_number sn ns JUndefined = NaN"
| "to_number sn ns JNull = Fin 0"
| "to_number sn ns (JBool b) = Fin (if b then 1 else 0)"
| "to_number sn ns (JNum q) = Fin q"
| "to_number sn ns (JStr s) = sn s"
| "to_number sn ns (JArr xs) = sn (to_string ns (JArr xs))"
| "to_number sn ns (JObj kvs) = NaN"

section \<open>The browser: local storage, network, effects\<close>

datatype http_method = GET | POST | PUT | DELETE

record request =
  req_method :: http_method
  url :: string
  headers :: "(string \<times> string) list"
  body :: "jsval option"

text \<open>
  A response: \<open>res.status\<close>, and what \<open>res.json()\<close> settles to (rejected when the body is
  not JSON). \<open>res.ok\<close> is the status range 200-299.
\<close>

record response =
  status :: nat
  json :: "js_error + jsval"

definition ok :: "response \<Rightarrow> bool" where
  "ok res = (200 \<le> status res \<and> status res \<le> 299)"

datatype fetch_outcome = Rejected js_error | Responded response

datatype storage_op = GetItem string | SetItem string string | RemoveItem string

text \<open>
  The state of the AuthContext provider (\<open>AuthState\<close>); the fields \<open>walletAddress\<close>,
  \<open>error\<close> and \<open>nonce\<close> carry the prefix \<open>state\<close> here.
\<close>

record auth_state =
  isAuthenticated :: bool
  stateWalletAddress :: jsval
  sessionToken :: jsval
  isLoading :: bool
  stateError :: jsval
  stateNonce :: jsval

text \<open>
  The MiniKit SDK as \<open>triggerMiniKitWalletAuth\<close> meets it: whether the global exists,
  what \<open>MiniKit.isInstalled && MiniKit.isInstalled()\<close> gives (or throws), whether
  \<open>install\<close> throws, whether \<open>commandsAsync.walletAuth\<close> exists, and what
  \<open>walletAuth({nonce})\<close> settles to for a nonce.
\<close>

record minikit =
  MiniKit_defined :: bool
  isInstalled_result :: "js_error + bool"
  install_throws :: "string \<Rightarrow> js_error option"
  has_walletAuth :: bool
  walletAuth_result :: "jsval \<Rightarrow> js_error + jsval"

datatype event =
    Fetch request
  | StorageSet string string
  | StorageRemove string
  | MiniKitInstall string
  | WalletAuth jsval
  | Navigate string
  | SetState string jsval
  | Alert jsval

text \<open>
  The world a call runs in. \<open>storage\<close> is \<open>localStorage\<close>; \<open>storage_throws\<close> says which
  accesses throw (a SecurityError when storage is denied, a QuotaExceededError on a
  write): the source wraps its storage accesses in \<open>try\<close>/\<open>catch\<close> for this. \<open>net\<close>
  answers the n-th \<open>fetch\<close> of a run; \<open>trace\<close> records the effects in order.
  \<open>authState\<close> is the AuthContext state and \<open>ui\<close> the \<open>useState\<close> variables of the
  components, by name; \<open>window_triggerWalletAuth\<close> is the global
  \<open>window.__triggerWalletAuth\<close>: \<open>None\<close> while no function is installed, and otherwise
  the value that \<open>isAttemptingAuthViaWindow\<close> had in the render of MiniKitProvider whose
  effect installed the function, which is all that distinguishes one installed function
  from another. The remaining fields are host functions.
\<close>

record world =
  storage :: "string \<rightharpoonup> string"
  storage_throws :: "storage_op \<Rightarrow> js_error option"
  net :: "nat \<Rightarrow> request \<Rightarrow> fetch_outcome"
  trace :: "event list"
  authState :: auth_state
  ui :: "string \<Rightarrow> jsval"
  MiniKit :: minikit
  window_triggerWalletAuth :: "jsval option"
  number_to_string :: "rat \<Rightarrow> string"
  string_to_number :: "string \<Rightarrow> number"
  atob :: "string \<Rightarrow> js_error + string"
  JSON_parse :: "string \<Rightarrow> js_error + jsval"
  parseFloat :: "string \<Rightarrow> number"
  Date_now :: rat

text \<open>
  An \<open>async\<close> function is run to completion: it takes the world and gives the value it
  resolves to (\<open>Inr\<close>) or the error it rejects with (\<open>Inl\<close>), and the world after.
\<close>

type_synonym 'a io = "world \<Rightarrow> (js_error + 'a) \<times> world"

definition io_return :: "'a \<Rightarrow> 'a io" where
  "io_return x w = (Inr x, w)"

definition io_throw :: "js_error \<Rightarrow> 'a io" where
  "io_throw e w = (Inl e, w)"

definition io_bind :: "'a io \<Rightarrow> ('a \<Rightarrow> 'b io) \<Rightarrow> 'b io" where
  "io_bind m f w = (case m w of (Inl e, w') \<Rightarrow> (Inl e, w') | (Inr x, w') \<Rightarrow> f x w')"

definition io_lift :: "js_error + 'a \<Rightarrow> 'a io" where
  "io_lift r w = (r, w)"

text \<open>\<open>try { body } catch (error) { handler }\<close>\<close>

definition io_try :: "'a io \<Rightarrow> (js_error \<Rightarrow> 'a io) \<Rightarrow> 'a io" where
  "io_try m h w = (case m w of (Inl e, w') \<Rightarrow> h e w' | (Inr x, w') \<Rightarrow> (Inr x, w'))"

text \<open>\<open>try { body } finally { fin }\<close>\<close>

definition io_finally :: "'a io \<Rightarrow> unit io \<Rightarrow> 'a io" where
  "io_finally m fin w =
     (case m w of (r, w') \<Rightarrow>
        (case fin w' of (Inl e, w'') \<Rightarrow> (Inl e, w'') | (Inr u, w'') \<Rightarrow> (r, w'')))"

text \<open>\<open>p.catch(() => v)\<close>\<close>

definition io_catch_value :: "'a io \<Rightarrow> 'a \<Rightarrow> 'a io" where
  "io_catch_value m v w = (case m w of (Inl e, w') \<Rightarrow> (Inr v, w') | (Inr x, w') \<Rightarrow> (Inr x, w'))"

text \<open>
  A call of an \<open>async\<close> function whose promise is not awaited. The function runs at once
  up to its first \<open>await\<close>, here up to the point where its call \<open>start\<close> has settled;
  the rest of it, \<open>rest\<close> of the outcome of \<open>start\<close>, is left pending and runs when the
  caller has returned. The call gives that pending rest. \<open>nothing_pending\<close> is a step that
  leaves none, and \<open>settled\<close> runs a caller and then what it left pending, whose rejection
  nothing handles.
\<close>

definition start_async :: "'a io \<Rightarrow> (js_error + 'a \<Rightarrow> unit io) \<Rightarrow> (unit io) io" where
  "start_async start rest w = (case start w of (r, w') \<Rightarrow> (Inr (rest r), w'))"

definition nothing_pending :: "unit io \<Rightarrow> (unit io) io" where
  "nothing_pending m = io_bind m (\<lambda>_. io_return (io_return ()))"

definition settled :: "(unit io) io \<Rightarrow> unit io" where
  "settled caller = io_bind caller (\<lambda>rest. io_catch_value rest ())"

fun is_fetch :: "event \<Rightarrow> bool" where
  "is_fetch (Fetch r) = True"
| "is_fetch e = False"

definition fetches :: "event list \<Rightarrow> event list" where
  "fetches t = filter is_fetch t"

definition fetch :: "request \<Rightarrow> response io" where
  "fetch r w =
     (let w' = w\<lparr>trace := trace w @ [Fetch r]\<rparr> in
      case net w (length (fetches (trace w))) r of
        Rejected e \<Rightarrow> (Inl e, w')
      | Responded res \<Rightarrow> (Inr res, w'))"

definition res_json :: "response \<Rightarrow> jsval io" where
  "res_json res = io_lift (json res)"

definition getItem :: "string \<Rightarrow> string option io" where
  "getItem k w =
     (case storage_throws w (GetItem k) of
        Some e \<Rightarrow> (Inl e, w)
      | None \<Rightarrow> (Inr (storage w k), w))"

definition setItem :: "string \<Rightarrow> string \<Rightarrow> unit io" where
  "setItem k v w =
     (case storage_throws w (SetItem k v) of
        Some e \<Rightarrow> (Inl e, w)
      | None \<Rightarrow> (Inr (), w\<lparr>storage := (storage w)(k \<mapsto> v), trace := trace w @ [StorageSet k v]\<rparr>))"

definition removeItem :: "string \<Rightarrow> unit io" where
  "removeItem k w =
     (case storage_throws w (RemoveItem k) of
        Some e \<Rightarrow> (Inl e, w)
      | None \<Rightarrow> (Inr (), w\<lparr>storage := (storage w)(k := None), trace := trace w @ [StorageRemove k]\<rparr>))"

definition js_String :: "jsval \<Rightarrow> string io" where
  "js_String v w = (Inr (to_string (number_to_string w) v), w)"

text \<open>\<open>throw new Error(v)\<close>: the message is \<open>String(v)\<close>.\<close>

definition throw_new_Error :: "jsval \<Rightarrow> 'a io" where
  "throw_new_Error v = io_bind (js_String v) (\<lambda>m. io_throw (JsError m))"

text \<open>A stored string or \<open>null\<close>, as a value.\<close>

fun item_val :: "string option \<Rightarrow> jsval" where
  "item_val None = JNull"
| "item_val (Some s) = JStr s"

definition host_atob :: "string \<Rightarrow> string io" where
  "host_atob s w = (atob w s, w)"

definition host_JSON_parse :: "string \<Rightarrow> jsval io" where
  "host_JSON_parse s w = (JSON_parse w s, w)"

definition host_Date_now :: "rat io" where
  "host_Date_now w = (Inr (Date_now w), w)"

text \<open>\<open>v * 1000 < Date.now()\<close>\<close>

definition times_1000_before_now :: "jsval \<Rightarrow> bool io" where
  "times_1000_before_now v w =
     (Inr (num_less (num_mul (to_number (string_to_number w) (number_to_string w) v) (Fin 1000))
                    (Fin (Date_now w))), w)"

section \<open>Build-time configuration\<close>

text \<open>\<open>import.meta.env\<close>: a variable is a string or absent.\<close>

record env =
  VITE_AMPLIFY_API :: "string option"
  VITE_APP_BACKEND_API_URL :: "string option"
  VITE_WORLD_APP_API :: "string option"
  VITE_APP_BACKEND_API_KEY :: "string option"
  VITE_WORLD_APP_ID :: "string option"
  VITE_WORLD_ID_APP_ID :: "string option"
  window_ENV_WORLD_APP_ID :: "string option"
  DEV :: bool

fun env_truthy :: "string option \<Rightarrow> bool" where
  "env_truthy None = False"
| "env_truthy (Some s) = (s \<noteq> [])"

definition env_or :: "string option \<Rightarrow> string option \<Rightarrow> string option" where
  "env_or a b = (if env_truthy a then a else b)"

text \<open>The fields \<open>API_BASE\<close> and \<open>API_KEY\<close> of AuthService and CampaignService.\<close>

record service =
  API_BASE :: string
  API_KEY :: "string option"

text \<open>The constructors of AuthService and of CampaignService compute the same two fields.\<close>

definition new_service :: "env \<Rightarrow> service" where
  "new_service e =
     \<lparr>API_BASE =
        (case env_or (VITE_AMPLIFY_API e) (VITE_APP_BACKEND_API_URL e) of
           Some u \<Rightarrow> if u \<noteq> [] then u else ''/api''
         | None \<Rightarrow> ''/api''),
      API_KEY = env_or (VITE_WORLD_APP_API e) (VITE_APP_BACKEND_API_KEY e)\<rparr>"

section \<open>AuthService\<close>

definition SESSION_TOKEN_KEY :: string where
  "SESSION_TOKEN_KEY = ''worldfund_session_token''"

definition WALLET_ADDRESS_KEY :: string where
  "WALLET_ADDRESS_KEY = ''worldfund_wallet_address''"

definition with_api_key :: "string option \<Rightarrow> (string \<times> string) list \<Rightarrow> (string \<times> string) list" where
  "with_api_key k hs = (case k of Some s \<Rightarrow> if s \<noteq> [] then hs @ [(''x-api-key'', s)] else hs | None \<Rightarrow> hs)"

definition with_bearer :: "string option \<Rightarrow> (string \<times> string) list \<Rightarrow> (string \<times> string) list" where
  "with_bearer t hs =
     (case t of Some s \<Rightarrow> if s \<noteq> [] then hs @ [(''Authorization'', ''Bearer '' @ s)] else hs | None \<Rightarrow> hs)"

definition AuthService_getHeaders :: "service \<Rightarrow> bool \<Rightarrow> (string \<times> string) list io" where
  "AuthService_getHeaders this includeAuth =
     (let headers = with_api_key (API_KEY this) [(''Content-Type'', ''application/json'')] in
      if includeAuth
      then io_bind (getItem SESSION_TOKEN_KEY) (\<lambda>token. io_return (with_bearer token headers))
      else io_return headers)"

text \<open>\<open>(errorBody as any).message || `<text> (${res.status})`\<close>\<close>

definition message_or_status :: "jsval \<Rightarrow> string \<Rightarrow> response \<Rightarrow> jsval io" where
  "message_or_status errorBody text res =
     io_bind (io_lift (get_prop errorBody ''message'')) (\<lambda>m.
       io_return (js_or m (JStr (text @ '' ('' @ show_nat (status res) @ '')''))))"

definition failure :: "jsval \<Rightarrow> jsval" where
  "failure err = JObj [(''success'', JBool False), (''error'', err)]"

definition caught :: "string \<Rightarrow> js_error \<Rightarrow> jsval io" where
  "caught fallback error = io_return (failure (JStr (str_or (message error) fallback)))"

definition getNonce :: "service \<Rightarrow> jsval io" where
  "getNonce this =
     io_try
       (io_bind (AuthService_getHeaders this False) (\<lambda>hs.
        io_bind (fetch \<lparr>req_method = GET, url = API_BASE this @ ''/auth/nonce'',
                        headers = hs, body = None\<rparr>) (\<lambda>res.
        if \<not> ok res then
          io_bind (io_catch_value (res_json res) (JObj [])) (\<lambda>errorBody.
          io_bind (message_or_status errorBody ''Failed to fetch nonce'' res) (\<lambda>err.
            io_return (failure err)))
        else
          io_bind (res_json res) (\<lambda>data.
          io_bind (io_lift (get_prop data ''nonce'')) (\<lambda>nonce.
            if \<not> truthy nonce then io_return (failure (JStr ''Nonce not found in response''))
            else io_return (JObj [(''success'', JBool True), (''nonce'', nonce)]))))))
       (caught ''Network error while fetching nonce'')"

definition verifyWalletSignature :: "service \<Rightarrow> jsval \<Rightarrow> jsval \<Rightarrow> jsval io" where
  "verifyWalletSignature this payload nonce =
     io_try
       (io_bind (AuthService_getHeaders this False) (\<lambda>hs.
        io_bind (fetch \<lparr>req_method = POST, url = API_BASE this @ ''/auth/verify-signature'',
                        headers = hs,
                        body = Some (JObj [(''payload'', payload), (''nonce'', nonce)])\<rparr>) (\<lambda>res.
        if \<not> ok res then
          io_bind (io_catch_value (res_json res) (JObj [])) (\<lambda>errorBody.
          io_bind (message_or_status errorBody ''Verification failed'' res) (\<lambda>err.
            io_return (failure err)))
        else
          io_bind (res_json res) (\<lambda>data.
          io_bind (io_lift (get_prop data ''token'')) (\<lambda>token.
          io_bind (io_lift (get_prop data ''walletAddress'')) (\<lambda>walletAddress.
            if \<not> truthy token \<or> \<not> truthy walletAddress
            then io_return (failure (JStr ''Token or wallet address missing from response''))
            else
              io_bind (js_String token) (\<lambda>t.
              io_bind (setItem SESSION_TOKEN_KEY t) (\<lambda>_.
              io_bind (js_String walletAddress) (\<lambda>a.
              io_bind (setItem WALLET_ADDRESS_KEY a) (\<lambda>_.
                io_return (JObj [(''success'', JBool True), (''token'', token),
                                 (''walletAddress'', walletAddress)])))))))))))
       (caught ''Network error during verification'')"

definition verifyWorldIdProof :: "service \<Rightarrow> jsval \<Rightarrow> jsval io" where
  "verifyWorldIdProof this proof =
     io_try
       (io_bind (AuthService_getHeaders this True) (\<lambda>hs.
        io_bind (fetch \<lparr>req_method = POST, url = API_BASE this @ ''/verify-worldid'',
                        headers = hs, body = Some proof\<rparr>) (\<lambda>res.
        if \<not> ok res then
          io_bind (io_catch_value (res_json res) (JObj [])) (\<lambda>errorBody.
          io_bind (message_or_status errorBody ''Verification failed'' res) (\<lambda>err.
            io_return (failure err)))
        else io_return (JObj [(''success'', JBool True)]))))
       (caught ''Network error during verification'')"

definition AuthService_logout :: "jsval io" where
  "AuthService_logout =
     io_try
       (io_bind (removeItem SESSION_TOKEN_KEY) (\<lambda>_.
        io_bind (removeItem WALLET_ADDRESS_KEY) (\<lambda>_.
          io_return (JObj [(''success'', JBool True)]))))
       (caught ''Logout failed'')"

definition checkAuthStatus :: "jsval io" where
  "checkAuthStatus =
     io_try
       (io_bind (getItem SESSION_TOKEN_KEY) (\<lambda>token.
        io_bind (getItem WALLET_ADDRESS_KEY) (\<lambda>walletAddress.
          io_return (JObj [(''isAuthenticated'', JBool (env_truthy token \<and> env_truthy walletAddress)),
                           (''token'', js_or (item_val token) JNull),
                           (''walletAddress'', js_or (item_val walletAddress) JNull)]))))
       (\<lambda>error.
        io_bind (removeItem SESSION_TOKEN_KEY) (\<lambda>_.
        io_bind (removeItem WALLET_ADDRESS_KEY) (\<lambda>_.
          io_return (JObj [(''isAuthenticated'', JBool False), (''token'', JNull),
                           (''walletAddress'', JNull)]))))"

text \<open>\<open>token.split('.')\<close>\<close>

fun split_on :: "char \<Rightarrow> string \<Rightarrow> string list" where
  "split_on c [] = [[]]"
| "split_on c (x # xs) =
     (if x = c then [] # split_on c xs
      else (case split_on c xs of p # ps \<Rightarrow> (x # p) # ps | [] \<Rightarrow> [[x]]))"

definition invalid :: "string \<Rightarrow> jsval" where
  "invalid err = JObj [(''isValid'', JBool False), (''error'', JStr err)]"

definition verifyToken :: "string \<Rightarrow> jsval io" where
  "verifyToken token =
     io_try
       (case split_on CHR ''.'' token of
          [p0, payloadPart, p2] \<Rightarrow>
            if payloadPart = [] then io_return (invalid ''Invalid token format'')
            else
              io_bind (host_atob payloadPart) (\<lambda>decoded.
              io_bind (host_JSON_parse decoded) (\<lambda>payload.
              io_bind (io_lift (get_prop payload ''exp'')) (\<lambda>exp.
              io_bind (if truthy exp then times_1000_before_now exp else io_return False) (\<lambda>expired.
                if expired then io_return (invalid ''Token expired'')
                else
                  io_bind (io_lift (get_prop payload ''walletAddress'')) (\<lambda>walletAddress.
                    if \<not> truthy walletAddress
                    then io_return (invalid ''Token missing wallet address'')
                    else io_return (JObj [(''isValid'', JBool True),
                                          (''walletAddress'', walletAddress)]))))))
        | parts \<Rightarrow> io_return (invalid ''Invalid token format''))
       (\<lambda>error. io_return (invalid (str_or (message error) ''Network error during token validation'')))"

section \<open>CampaignService\<close>

text \<open>\<open>if (token) headers['Authorization'] = `Bearer ${token}`\<close>, for the token of
  \<open>checkAuthStatus\<close>.\<close>

definition with_token :: "jsval \<Rightarrow> (string \<times> string) list \<Rightarrow> (string \<times> string) list io" where
  "with_token token hs =
     (if truthy token
      then io_bind (js_String token) (\<lambda>t. io_return (hs @ [(''Authorization'', ''Bearer '' @ t)]))
      else io_return hs)"

definition CampaignService_getHeaders :: "service \<Rightarrow> (string \<times> string) list io" where
  "CampaignService_getHeaders this =
     io_bind checkAuthStatus (\<lambda>r.
     io_bind (io_lift (get_prop r ''token'')) (\<lambda>token.
     io_bind (with_token token [(''Content-Type'', ''application/json'')]) (\<lambda>hs.
       io_return (with_api_key (API_KEY this) hs))))"

text \<open>\<open>throw new Error(`<text> (${res.status})`)\<close>\<close>

definition throw_status :: "string \<Rightarrow> response \<Rightarrow> 'a io" where
  "throw_status text res = throw_new_Error (JStr (text @ '' ('' @ show_nat (status res) @ '')''))"

definition createCampaign :: "service \<Rightarrow> jsval \<Rightarrow> jsval io" where
  "createCampaign this payload =
     io_try
       (io_bind (CampaignService_getHeaders this) (\<lambda>hs.
        io_bind (fetch \<lparr>req_method = POST, url = API_BASE this @ ''/campaigns'',
                        headers = hs, body = Some payload\<rparr>) (\<lambda>res.
        io_bind (io_catch_value (res_json res) (JObj [])) (\<lambda>body.
          if \<not> ok res then
            io_bind (message_or_status body ''Failed to create campaign'' res) throw_new_Error
          else
            io_bind (io_lift (get_prop body ''id'')) (\<lambda>cid.
              io_return (JObj [(''success'', JBool True), (''id'', cid)]))))))
       (caught ''Failed to create campaign'')"

definition fetchAllCampaigns :: "service \<Rightarrow> jsval io" where
  "fetchAllCampaigns this =
     io_try
       (io_bind (CampaignService_getHeaders this) (\<lambda>hs.
        io_bind (fetch \<lparr>req_method = GET, url = API_BASE this @ ''/campaigns'',
                        headers = hs, body = None\<rparr>) (\<lambda>res.
          if \<not> ok res then throw_status ''Failed to fetch campaigns'' res
          else
            io_bind (res_json res) (\<lambda>data.
            io_bind (io_lift (get_prop data ''campaigns'')) (\<lambda>campaigns.
              io_return (JObj [(''success'', JBool True), (''campaigns'', campaigns)]))))))
       (caught ''Failed to fetch campaigns'')"

definition fetchCampaign :: "service \<Rightarrow> string \<Rightarrow> jsval io" where
  "fetchCampaign this cid =
     io_try
       (io_bind (CampaignService_getHeaders this) (\<lambda>hs.
        io_bind (fetch \<lparr>req_method = GET, url = API_BASE this @ ''/campaigns/'' @ cid,
                        headers = hs, body = None\<rparr>) (\<lambda>res.
          if \<not> ok res then throw_status ''Campaign not found'' res
          else
            io_bind (res_json res) (\<lambda>campaign.
              io_return (JObj [(''success'', JBool True), (''campaign'', campaign)])))))
       (caught ''Failed to fetch campaign'')"

text \<open>
  \<open>getHeaders\<close> and \<open>fetchCampaign\<close> from their first \<open>await\<close> on, that of
  \<open>authService.checkAuthStatus()\<close>, whose outcome is \<open>authData\<close>.
\<close>

definition CampaignService_getHeaders_resumed ::
    "service \<Rightarrow> js_error + jsval \<Rightarrow> (string \<times> string) list io" where
  "CampaignService_getHeaders_resumed this authData =
     io_bind (io_lift authData) (\<lambda>r.
     io_bind (io_lift (get_prop r ''token'')) (\<lambda>token.
     io_bind (with_token token [(''Content-Type'', ''application/json'')]) (\<lambda>hs.
       io_return (with_api_key (API_KEY this) hs))))"

definition fetchCampaign_resumed :: "service \<Rightarrow> string \<Rightarrow> js_error + jsval \<Rightarrow> jsval io" where
  "fetchCampaign_resumed this cid authData =
     io_try
       (io_bind (CampaignService_getHeaders_resumed this authData) (\<lambda>hs.
        io_bind (fetch \<lparr>req_method = GET, url = API_BASE this @ ''/campaigns/'' @ cid,
                        headers = hs, body = None\<rparr>) (\<lambda>res.
          if \<not> ok res then throw_status ''Campaign not found'' res
          else
            io_bind (res_json res) (\<lambda>campaign.
              io_return (JObj [(''success'', JBool True), (''campaign'', campaign)])))))
       (caught ''Failed to fetch campaign'')"

definition updateCampaign :: "service \<Rightarrow> string \<Rightarrow> jsval \<Rightarrow> jsval io" where
  "updateCampaign this cid payload =
     io_try
       (io_bind (CampaignService_getHeaders this) (\<lambda>hs.
        io_bind (fetch \<lparr>req_method = PUT, url = API_BASE this @ ''/campaigns/'' @ cid,
                        headers = hs, body = Some payload\<rparr>) (\<lambda>res.
        io_bind (io_catch_value (res_json res) (JObj [])) (\<lambda>body.
          if \<not> ok res then
            io_bind (message_or_status body ''Failed to update campaign'' res) throw_new_Error
          else io_return (JObj [(''success'', JBool True)])))))
       (caught ''Failed to update campaign'')"

definition deleteCampaign :: "service \<Rightarrow> string \<Rightarrow> jsval io" where
  "deleteCampaign this cid =
     io_try
       (io_bind (CampaignService_getHeaders this) (\<lambda>hs.
        io_bind (fetch \<lparr>req_method = DELETE, url = API_BASE this @ ''/campaigns/'' @ cid,
                        headers = hs, body = None\<rparr>) (\<lambda>res.
        io_bind (io_catch_value (res_json res) (JObj [])) (\<lambda>body.
          if \<not> ok res then
            io_bind (message_or_status body ''Failed to delete campaign'' res) throw_new_Error
          else io_return (JObj [(''success'', JBool True)])))))
       (caught ''Failed to delete campaign'')"

definition recordDonation :: "service \<Rightarrow> string \<Rightarrow> jsval \<Rightarrow> jsval \<Rightarrow> jsval io" where
  "recordDonation this campaignId amount txHash =
     io_try
       (io_bind (CampaignService_getHeaders this) (\<lambda>hs.
        io_bind (fetch \<lparr>req_method = POST,
                        url = API_BASE this @ ''/campaigns/'' @ campaignId @ ''/donate'',
                        headers = hs,
                        body = Some (JObj [(''amount'', amount), (''txHash'', txHash)])\<rparr>) (\<lambda>res.
        io_bind (io_catch_value (res_json res) (JObj [])) (\<lambda>body.
          if \<not> ok res then
            io_bind (message_or_status body ''Failed to record donation'' res) throw_new_Error
          else io_return (JObj [(''success'', JBool True)])))))
       (caught ''Failed to record donation'')"

definition fetchUserCampaigns :: "service \<Rightarrow> string \<Rightarrow> jsval io" where
  "fetchUserCampaigns this walletAddress =
     io_try
       (io_bind (CampaignService_getHeaders this) (\<lambda>hs.
        io_bind (fetch \<lparr>req_method = GET,
                        url = API_BASE this @ ''/users/'' @ walletAddress @ ''/campaigns'',
                        headers = hs, body = None\<rparr>) (\<lambda>res.
          if \<not> ok res then throw_status ''Failed to fetch user campaigns'' res
          else
            io_bind (res_json res) (\<lambda>data.
            io_bind (io_lift (get_prop data ''campaigns'')) (\<lambda>campaigns.
              io_return (JObj [(''success'', JBool True), (''campaigns'', campaigns)]))))))
       (caught ''Failed to fetch user campaigns'')"

section \<open>WLDPaymentService\<close>

definition WLD_getHeaders :: "env \<Rightarrow> (string \<times> string) list io" where
  "WLD_getHeaders e =
     io_bind checkAuthStatus (\<lambda>r.
     io_bind (io_lift (get_prop r ''token'')) (\<lambda>token.
     io_bind (with_token token [(''Content-Type'', ''application/json'')]) (\<lambda>hs.
       io_return (with_api_key (VITE_WORLD_APP_API e) hs))))"

definition getApiBase :: "env \<Rightarrow> string io" where
  "getApiBase e =
     (case VITE_AMPLIFY_API e of
        Some apiBase \<Rightarrow>
          if apiBase \<noteq> [] then io_return apiBase
          else io_throw (JsError ''Backend API URL is not configured'')
      | None \<Rightarrow> io_throw (JsError ''Backend API URL is not configured''))"

definition donateWLD :: "env \<Rightarrow> string \<Rightarrow> jsval \<Rightarrow> jsval \<Rightarrow> jsval io" where
  "donateWLD e campaignId amount txHash =
     io_try
       (io_bind (getApiBase e) (\<lambda>apiBase.
        io_bind (WLD_getHeaders e) (\<lambda>hs.
        io_bind (fetch \<lparr>req_method = POST,
                        url = apiBase @ ''/campaigns/'' @ campaignId @ ''/donate'',
                        headers = hs,
                        body = Some (JObj [(''amount'', amount), (''txHash'', txHash)])\<rparr>) (\<lambda>response.
          if \<not> ok response then
            io_bind (io_catch_value (res_json response)
                       (JObj [(''message'', JStr ''Failed to record donation'')])) (\<lambda>errorData.
            io_bind (io_lift (get_prop errorData ''message'')) (\<lambda>m.
              throw_new_Error (js_or m (JStr ''Failed to record donation''))))
          else
            io_bind (res_json response) (\<lambda>data.
              io_return (JObj [(''success'', JBool True)]))))))
       (caught ''Failed to donate WLD'')"

text \<open>The mock data of \<open>getDonationInstructions\<close>; \<open>minAmount\<close> is the literal \<open>0.01\<close>, that
  is the binary64 value nearest to one hundredth.\<close>

definition minAmount_0_01 :: rat where
  "minAmount_0_01 = 5764607523034235 / 576460752303423488"

definition getDonationInstructions :: "string \<Rightarrow> jsval io" where
  "getDonationInstructions campaignId =
     io_return (JObj [(''campaignAddress'', JStr ''0x5816E346C014e4BE06bA48de8c0Bf08A61f9033F''),
       (''instructions'', JArr [
          JStr ''Send WLD tokens to the campaign address using your wallet'',
          JStr ''Copy the transaction hash once the transaction is confirmed'',
          JStr ''Submit the transaction hash and amount to record your donation'']),
       (''minAmount'', JNum minAmount_0_01)])"

text \<open>
  \<open>verifyTransaction\<close> returns mock data after a timer; \<open>rnd_from\<close> and \<open>rnd_amount\<close>
  stand for what the two \<open>Math.random()\<close> expressions evaluate to.
\<close>

definition verifyTransaction :: "string \<Rightarrow> string \<Rightarrow> rat \<Rightarrow> jsval io" where
  "verifyTransaction txHash rnd_from rnd_amount =
     io_try
       (io_bind (io_return ()) (\<lambda>_.
          io_bind host_Date_now (\<lambda>now.
          io_return (JObj [(''success'', JBool True),
            (''transaction'', JObj [(''txHash'', JStr txHash), (''from'', JStr (''0x'' @ rnd_from)),
               (''to'', JStr ''0x5816E346C014e4BE06bA48de8c0Bf08A61f9033F''),
               (''amount'', JNum rnd_amount), (''status'', JStr ''confirmed''),
               (''timestamp'', JNum now)])]))))
       (caught ''Failed to verify transaction'')"

section \<open>React state and navigation\<close>

text \<open>
  A handler that a render attaches to an element is modelled as invoked from the latest
  render: the state it reads is the current one. A state setter updates the variable and
  is recorded in the trace. A function that outlives the render that created it keeps the
  state of that render: it takes that state as a parameter.
\<close>

definition get_state :: "string \<Rightarrow> jsval io" where
  "get_state name w = (Inr (ui w name), w)"

definition set_state :: "string \<Rightarrow> jsval \<Rightarrow> unit io" where
  "set_state name v w =
     (Inr (), w\<lparr>ui := (ui w)(name := v), trace := trace w @ [SetState name v]\<rparr>)"

definition getAuthState :: "auth_state io" where
  "getAuthState w = (Inr (authState w), w)"

definition setAuthState :: "(auth_state \<Rightarrow> auth_state) \<Rightarrow> unit io" where
  "setAuthState f w = (Inr (), w\<lparr>authState := f (authState w)\<rparr>)"

text \<open>\<open>navigate(path, ...)\<close>; where the source defers it with \<open>setTimeout(..., 0)\<close> the
  event stands for the scheduling.\<close>

definition navigate :: "string \<Rightarrow> unit io" where
  "navigate path w = (Inr (), w\<lparr>trace := trace w @ [Navigate path]\<rparr>)"

definition alert :: "jsval \<Rightarrow> unit io" where
  "alert v w = (Inr (), w\<lparr>trace := trace w @ [Alert v]\<rparr>)"

section \<open>MiniKitProvider\<close>

definition mk_defined :: "bool io" where
  "mk_defined w = (Inr (MiniKit_defined (MiniKit w)), w)"

definition mk_isInstalled :: "bool io" where
  "mk_isInstalled w = (isInstalled_result (MiniKit w), w)"

definition mk_install :: "string \<Rightarrow> unit io" where
  "mk_install appId w =
     (let w' = w\<lparr>trace := trace w @ [MiniKitInstall appId]\<rparr> in
      case install_throws (MiniKit w) appId of Some e \<Rightarrow> (Inl e, w') | None \<Rightarrow> (Inr (), w'))"

definition mk_has_walletAuth :: "bool io" where
  "mk_has_walletAuth w = (Inr (has_walletAuth (MiniKit w)), w)"

text \<open>\<open>MiniKit.commandsAsync.walletAuth({ nonce })\<close>\<close>

definition mk_walletAuth :: "jsval \<Rightarrow> jsval io" where
  "mk_walletAuth nonce w =
     (walletAuth_result (MiniKit w) nonce, w\<lparr>trace := trace w @ [WalletAuth nonce]\<rparr>)"

fun is_string :: "jsval \<Rightarrow> bool" where
  "is_string (JStr s) = True"
| "is_string v = False"

text \<open>\<open>serverNonce.length\<close> of a string (a character is a UTF-16 code unit).\<close>

fun str_length :: "jsval \<Rightarrow> nat" where
  "str_length (JStr s) = length s"
| "str_length v = 0"

definition default_app_id :: string where
  "default_app_id = ''app_0de9312869c4818fc1a1ec64306551b69''"

definition trigger_appId :: "env \<Rightarrow> string" where
  "trigger_appId e =
     (case env_or (VITE_WORLD_APP_ID e) (env_or (VITE_WORLD_ID_APP_ID e) (window_ENV_WORLD_APP_ID e)) of
        Some a \<Rightarrow> if a \<noteq> [] then a else default_app_id
      | None \<Rightarrow> default_app_id)"

definition no_payload_message :: string where
  "no_payload_message =
     ''MiniKit wallet authentication did not complete successfully (no payload). User might have cancelled.''"

definition triggerMiniKitWalletAuth :: "env \<Rightarrow> jsval \<Rightarrow> jsval io" where
  "triggerMiniKitWalletAuth e serverNonce =
     (if \<not> truthy serverNonce \<or> \<not> is_string serverNonce \<or> str_length serverNonce < 8
      then io_throw (JsError ''A valid server-issued nonce is required to trigger wallet auth.'')
      else
        io_bind mk_defined (\<lambda>defined.
        if \<not> defined then io_throw (JsError ''MiniKit is not available'')
        else
          io_bind (io_catch_value mk_isInstalled False) (\<lambda>isInstalled.
          io_bind
            (if \<not> isInstalled
             then io_try (mk_install (trigger_appId e))
                    (\<lambda>err. io_throw (JsError (''Failed to initialize MiniKit: '' @ message err)))
             else io_return ()) (\<lambda>_.
          io_try
            (io_bind mk_has_walletAuth (\<lambda>available.
             if \<not> available then io_throw (JsError ''MiniKit wallet auth commands not available'')
             else
               io_bind (mk_walletAuth serverNonce) (\<lambda>result.
               if \<not> truthy result then io_throw (JsError no_payload_message)
               else
                 io_bind (io_lift (get_prop result ''finalPayload'')) (\<lambda>finalPayload.
                 if \<not> truthy finalPayload then io_throw (JsError no_payload_message)
                 else
                   io_bind (io_lift (get_prop finalPayload ''status'')) (\<lambda>status.
                   if status \<noteq> JStr ''success'' then
                     io_bind (io_lift (get_prop finalPayload ''error_code'')) (\<lambda>errorCode.
                     io_bind (js_String (js_or errorCode (js_or status (JStr ''unknown MiniKit error'')))) (\<lambda>txt.
                       io_throw (JsError (''MiniKit auth failed: '' @ txt))))
                   else io_return finalPayload)))))
            (\<lambda>error. io_throw error)))))"

section \<open>AuthContext\<close>

definition storeSessionData :: "jsval \<Rightarrow> jsval \<Rightarrow> unit io" where
  "storeSessionData token address =
     io_try
       (io_bind (js_String token) (\<lambda>t.
        io_bind (setItem SESSION_TOKEN_KEY t) (\<lambda>_.
        io_bind (js_String address) (\<lambda>a.
          setItem WALLET_ADDRESS_KEY a))))
       (\<lambda>error. io_return ())"

definition getStoredSessionData :: "(string option \<times> string option) io" where
  "getStoredSessionData =
     io_try
       (io_bind (getItem SESSION_TOKEN_KEY) (\<lambda>token.
        io_bind (getItem WALLET_ADDRESS_KEY) (\<lambda>address.
          io_return (token, address))))
       (\<lambda>error. io_return (None, None))"

definition clearStoredSessionData :: "unit io" where
  "clearStoredSessionData =
     io_try
       (io_bind (removeItem SESSION_TOKEN_KEY) (\<lambda>_. removeItem WALLET_ADDRESS_KEY))
       (\<lambda>error. io_return ())"

definition logged_out :: auth_state where
  "logged_out =
     \<lparr>isAuthenticated = False, stateWalletAddress = JNull, sessionToken = JNull,
      isLoading = False, stateError = JNull, stateNonce = JNull\<rparr>"

definition login :: "jsval \<Rightarrow> jsval \<Rightarrow> bool \<Rightarrow> unit io" where
  "login token address shouldNavigate =
     io_bind (storeSessionData token address) (\<lambda>_.
     io_bind (setAuthState (\<lambda>prev.
        \<lparr>isAuthenticated = True, stateWalletAddress = address, sessionToken = token,
         isLoading = False, stateError = JNull, stateNonce = JNull\<rparr>)) (\<lambda>_.
       if shouldNavigate then navigate ''/dashboard'' else io_return ()))"

definition getNonceForMiniKit :: "service \<Rightarrow> jsval io" where
  "getNonceForMiniKit this =
     io_bind (setAuthState (\<lambda>prev. prev\<lparr>isLoading := True, stateError := JNull\<rparr>)) (\<lambda>_.
     io_try
       (io_bind (getNonce this) (\<lambda>nonceResult.
        io_bind (io_lift (get_prop nonceResult ''success'')) (\<lambda>success.
        io_bind (io_lift (get_prop nonceResult ''nonce'')) (\<lambda>fetchedNonce.
          if \<not> truthy success \<or> \<not> truthy fetchedNonce then
            io_bind (io_lift (get_prop nonceResult ''error'')) (\<lambda>err.
            io_bind (setAuthState (\<lambda>prev. prev\<lparr>isLoading := False,
                       stateError := js_or err (JStr ''Failed to fetch nonce'')\<rparr>)) (\<lambda>_.
              throw_new_Error (js_or err (JStr ''Failed to fetch nonce''))))
          else
            io_bind (setAuthState (\<lambda>prev. prev\<lparr>isLoading := False,
                       stateNonce := fetchedNonce\<rparr>)) (\<lambda>_.
              io_return fetchedNonce)))))
       (\<lambda>error.
          io_bind (setAuthState (\<lambda>prev. prev\<lparr>isLoading := False,
                     stateError := JStr (message error)\<rparr>)) (\<lambda>_.
            io_throw error)))"

text \<open>
  \<open>typeof m === 'object' ? m : JSON.parse(typeof m === 'string' ? m : '{}')\<close> for a
  truthy \<open>m\<close>; \<open>JSON.parse('{}')\<close> is the empty object.
\<close>

fun message_object :: "jsval \<Rightarrow> jsval io" where
  "message_object (JObj kvs) = io_return (JObj kvs)"
| "message_object (JArr xs) = io_return (JArr xs)"
| "message_object (JStr s) = host_JSON_parse s"
| "message_object v = io_return (JObj [])"

definition loginWithWallet :: "service \<Rightarrow> jsval \<Rightarrow> unit io" where
  "loginWithWallet this authResult =
     io_bind (setAuthState (\<lambda>prev. prev\<lparr>isLoading := True, stateError := JNull\<rparr>)) (\<lambda>_.
     io_try
       (io_bind (io_lift (get_prop authResult ''message'')) (\<lambda>msg.
        if \<not> truthy msg
        then io_throw (JsError ''Invalid authentication payload: message is missing'')
        else
          io_bind (message_object msg) (\<lambda>messageObj.
          io_bind (io_lift (get_prop messageObj ''nonce'')) (\<lambda>n.
          if \<not> truthy (js_or n (JStr []))
          then io_throw (JsError ''Nonce missing in signed message from wallet'')
          else
            io_bind (verifyWalletSignature this authResult (js_or n (JStr []))) (\<lambda>verifyResult.
            io_bind (io_lift (get_prop verifyResult ''success'')) (\<lambda>success.
            io_bind (io_lift (get_prop verifyResult ''walletAddress'')) (\<lambda>address.
            io_bind (io_lift (get_prop verifyResult ''token'')) (\<lambda>token.
              if truthy success \<and> truthy address \<and> truthy token
              then login token address True
              else
                io_bind (io_lift (get_prop verifyResult ''error'')) (\<lambda>err.
                  throw_new_Error (js_or err (JStr ''Wallet signature verification failed'')))))))))))
       (\<lambda>error.
          io_bind (setAuthState (\<lambda>prev. prev\<lparr>isLoading := False,
                     stateError := JStr (str_or (message error) ''Wallet login failed'')\<rparr>)) (\<lambda>_.
            io_throw error)))"

definition AuthContext_logout :: "unit io" where
  "AuthContext_logout =
     io_bind (setAuthState (\<lambda>prev. prev\<lparr>isLoading := True\<rparr>)) (\<lambda>_.
     io_try
       (io_bind clearStoredSessionData (\<lambda>_.
        io_bind (io_try (io_bind AuthService_logout (\<lambda>r. io_return ())) (\<lambda>logoutError. io_return ())) (\<lambda>_.
        io_bind (setAuthState (\<lambda>prev. logged_out)) (\<lambda>_.
          navigate ''/landing''))))
       (\<lambda>error.
          io_bind (setAuthState (\<lambda>prev. prev\<lparr>isLoading := False,
                     stateError := JStr (str_or (message error) ''Logout failed'')\<rparr>)) (\<lambda>_.
            io_throw error)))"

definition checkSession :: "unit io" where
  "checkSession =
     io_bind (setAuthState (\<lambda>prev. prev\<lparr>isLoading := True, stateError := JNull\<rparr>)) (\<lambda>_.
     io_bind getStoredSessionData (\<lambda>(token, address).
       if env_truthy token \<and> env_truthy address then
         io_bind (setAuthState (\<lambda>prev.
            \<lparr>isAuthenticated = True, stateWalletAddress = item_val address,
             sessionToken = item_val token, isLoading = False, stateError = JNull,
             stateNonce = JNull\<rparr>)) (\<lambda>_.
         io_try
           (io_bind (verifyToken (case token of Some t \<Rightarrow> t | None \<Rightarrow> [])) (\<lambda>verifyResult.
            io_bind (io_lift (get_prop verifyResult ''isValid'')) (\<lambda>isValid.
              if \<not> truthy isValid then
                io_bind clearStoredSessionData (\<lambda>_. setAuthState (\<lambda>prev. logged_out))
              else io_return ())))
           (\<lambda>verifyError. io_return ()))
       else setAuthState (\<lambda>prev. logged_out)))"

text \<open>
  \<open>window.__triggerWalletAuth\<close>, as installed by an effect of MiniKitProvider. The
  function tests the constant \<open>isAttemptingAuthViaWindow\<close> of the render whose effect
  installed it, here \<open>attempting\<close>; the effect installs a new function only after a later
  render.
\<close>

definition isAttemptingAuthViaWindow :: string where
  "isAttemptingAuthViaWindow = ''MiniKitProvider.isAttemptingAuthViaWindow''"

definition window_trigger :: "env \<Rightarrow> service \<Rightarrow> jsval \<Rightarrow> bool io" where
  "window_trigger e this attempting =
     (if truthy attempting then io_return False
      else
        io_bind (set_state isAttemptingAuthViaWindow (JBool True)) (\<lambda>_.
        io_finally
          (io_try
             (io_bind (getNonceForMiniKit this) (\<lambda>serverNonce.
              io_bind (triggerMiniKitWalletAuth e serverNonce) (\<lambda>authPayload.
              io_bind (loginWithWallet this authPayload) (\<lambda>_.
                io_return True))))
             (\<lambda>error. io_return False))
          (set_state isAttemptingAuthViaWindow (JBool False))))"

text \<open>The global \<open>window.__triggerWalletAuth\<close>, read.\<close>

definition get_window_trigger :: "jsval option io" where
  "get_window_trigger w = (Inr (window_triggerWalletAuth w), w)"

text \<open>\<open>window.__triggerWalletAuth()\<close>: a call of whatever function is installed.\<close>

definition call_window_trigger :: "env \<Rightarrow> service \<Rightarrow> bool io" where
  "call_window_trigger e this =
     io_bind get_window_trigger (\<lambda>installed.
     case installed of
       None \<Rightarrow> io_throw (JsError ''window.__triggerWalletAuth is not a function'')
     | Some attempting \<Rightarrow> window_trigger e this attempting)"

section \<open>LandingPage\<close>

definition isConnectingWallet :: string where
  "isConnectingWallet = ''LandingPage.isConnectingWallet''"

definition pageError :: string where
  "pageError = ''LandingPage.pageError''"

text \<open>
  \<open>handleConnectWallet\<close>, which every render attaches to its buttons: it is created anew
  whenever \<open>isConnectingWallet\<close> or the loading state of AuthContext has changed. The
  debug path reads \<open>window.__triggerWalletAuth\<close> and calls what it finds there.
\<close>

definition handleConnectWallet :: "env \<Rightarrow> service \<Rightarrow> unit io" where
  "handleConnectWallet e this =
     io_bind (get_state isConnectingWallet) (\<lambda>connecting.
     io_bind getAuthState (\<lambda>auth.
     if truthy connecting \<or> isLoading auth then io_return ()
     else
       io_bind (set_state isConnectingWallet (JBool True)) (\<lambda>_.
       io_bind (set_state pageError JNull) (\<lambda>_.
       io_finally
         (io_try
            (io_bind get_window_trigger (\<lambda>installed.
             if DEV e \<and> installed \<noteq> None then
               io_bind (call_window_trigger e this) (\<lambda>success.
                 if \<not> success
                 then io_throw (JsError ''Wallet authentication via debug trigger failed. Check console.'')
                 else io_return ())
             else
               io_bind (getNonceForMiniKit this) (\<lambda>serverNonce.
               io_bind (triggerMiniKitWalletAuth e serverNonce) (\<lambda>authPayload.
                 loginWithWallet this authPayload))))
            (\<lambda>error. set_state pageError (JStr (message error))))
         (set_state isConnectingWallet (JBool False))))))"

section \<open>Forms\<close>

definition js_Number :: "jsval \<Rightarrow> number io" where
  "js_Number v w = (Inr (to_number (string_to_number w) (number_to_string w) v), w)"

text \<open>\<open>parseFloat(v)\<close>: the host's parse of \<open>String(v)\<close>.\<close>

definition js_parseFloat :: "jsval \<Rightarrow> number io" where
  "js_parseFloat v w = (Inr (parseFloat w (to_string (number_to_string w) v)), w)"

text \<open>A number as a request body carries it: \<open>JSON.stringify\<close> writes \<open>null\<close> for NaN
  and the infinities.\<close>

fun number_val :: "number \<Rightarrow> jsval" where
  "number_val (Fin q) = JNum q"
| "number_val x = JNull"

text \<open>\<open>v?.p\<close>\<close>

fun optional_prop :: "jsval \<Rightarrow> string \<Rightarrow> jsval" where
  "optional_prop (JObj kvs) p = (case map_of kvs p of Some v \<Rightarrow> v | None \<Rightarrow> JUndefined)"
| "optional_prop v p = JUndefined"

text \<open>\<open>disabled={flag}\<close> on a submit button.\<close>

definition submit_disabled :: "string \<Rightarrow> world \<Rightarrow> bool" where
  "submit_disabled flag w = truthy (ui w flag)"

subsection \<open>WLDDonationForm\<close>

definition WLD_amount :: string where "WLD_amount = ''WLDDonationForm.amount''"
definition WLD_txHash :: string where "WLD_txHash = ''WLDDonationForm.txHash''"
definition WLD_loading :: string where "WLD_loading = ''WLDDonationForm.loading''"
definition WLD_success :: string where "WLD_success = ''WLDDonationForm.success''"
definition WLD_error :: string where "WLD_error = ''WLDDonationForm.error''"
definition WLD_instructions :: string where "WLD_instructions = ''WLDDonationForm.instructions''"

text \<open>
  \<open>handleSubmit\<close>. The prop \<open>onDonationSuccess\<close> is optional; it is called and its result
  is not awaited, so the handler gives what the call left pending.
\<close>

definition WLDDonationForm_handleSubmit ::
    "env \<Rightarrow> string \<Rightarrow> (unit io) io option \<Rightarrow> (unit io) io" where
  "WLDDonationForm_handleSubmit e campaignId onDonationSuccess =
     io_bind getAuthState (\<lambda>auth.
     if \<not> isAuthenticated auth
     then nothing_pending (set_state WLD_error (JStr ''Please sign in to donate''))
     else
       io_bind (get_state WLD_amount) (\<lambda>amount.
       io_bind (js_parseFloat amount) (\<lambda>amt.
       if \<not> truthy amount \<or> num_le amt (Fin 0)
       then nothing_pending (set_state WLD_error (JStr ''Please enter a valid amount''))
       else
         io_bind (get_state WLD_txHash) (\<lambda>txHash.
         if \<not> truthy txHash
         then nothing_pending (set_state WLD_error (JStr ''Please enter a transaction hash''))
         else
           io_bind (get_state WLD_instructions) (\<lambda>instructions.
           io_bind (js_Number (optional_prop instructions ''minAmount'')) (\<lambda>minAmount.
           if truthy (optional_prop instructions ''minAmount'') \<and> num_less amt minAmount then
             io_bind (js_String (optional_prop instructions ''minAmount'')) (\<lambda>txt.
               nothing_pending
                 (set_state WLD_error (JStr (''Minimum donation amount is '' @ txt @ '' WLD''))))
           else
             io_bind (set_state WLD_loading (JBool True)) (\<lambda>_.
             io_bind (set_state WLD_error JNull) (\<lambda>_.
             io_finally
               (io_try
                  (io_bind (donateWLD e campaignId (number_val amt) txHash) (\<lambda>result.
                   io_bind (io_lift (get_prop result ''success'')) (\<lambda>success.
                   if \<not> truthy success then
                     io_bind (io_lift (get_prop result ''error'')) (\<lambda>err.
                       throw_new_Error (js_or err (JStr ''Donation failed'')))
                   else
                     io_bind (set_state WLD_success (JBool True)) (\<lambda>_.
                     io_bind (set_state WLD_amount (JStr [])) (\<lambda>_.
                     io_bind (set_state WLD_txHash (JStr [])) (\<lambda>_.
                       case onDonationSuccess of
                         None \<Rightarrow> io_return (io_return ())
                       | Some callback \<Rightarrow> callback))))))
                  (\<lambda>err. nothing_pending
                            (set_state WLD_error
                               (JStr (str_or (message err) ''Failed to process donation'')))))
               (set_state WLD_loading (JBool False))))))))))"

subsection \<open>CreateCampaignForm\<close>

definition Create_form :: string where "Create_form = ''CreateCampaignForm.form''"
definition Create_loading :: string where "Create_loading = ''CreateCampaignForm.loading''"
definition Create_error :: string where "Create_error = ''CreateCampaignForm.error''"

definition CreateCampaignForm_onSubmit :: "service \<Rightarrow> unit io" where
  "CreateCampaignForm_onSubmit this =
     io_bind (set_state Create_error JNull) (\<lambda>_.
     io_bind (set_state Create_loading (JBool True)) (\<lambda>_.
     io_finally
       (io_try
          (io_bind (get_state Create_form) (\<lambda>form.
           io_bind (io_lift (get_prop form ''title'')) (\<lambda>title.
           if \<not> truthy title then io_throw (JsError ''Campaign title is required'')
           else
             io_bind (io_lift (get_prop form ''goal'')) (\<lambda>goal.
             io_bind (js_Number goal) (\<lambda>g.
             if num_le g (Fin 0) then io_throw (JsError ''Funding goal must be greater than 0'')
             else
               io_bind (createCampaign this form) (\<lambda>result.
               io_bind (io_lift (get_prop result ''success'')) (\<lambda>success.
               io_bind (io_lift (get_prop result ''id'')) (\<lambda>cid.
               if truthy success \<and> truthy cid then
                 io_bind (js_String cid) (\<lambda>txt. navigate (''/campaigns/'' @ txt))
               else
                 io_bind (io_lift (get_prop result ''error'')) (\<lambda>err.
                   throw_new_Error (js_or err (JStr ''Failed to create campaign'')))))))))))
          (\<lambda>error. set_state Create_error
                      (JStr (str_or (message error) ''An error occurred while creating the campaign''))))
       (set_state Create_loading (JBool False))))"

subsection \<open>EditCampaignForm\<close>

definition Edit_formData :: string where "Edit_formData = ''EditCampaignForm.formData''"
definition Edit_submitting :: string where "Edit_submitting = ''EditCampaignForm.submitting''"
definition Edit_error :: string where "Edit_error = ''EditCampaignForm.error''"

definition EditCampaignForm_handleSubmit :: "service \<Rightarrow> string \<Rightarrow> unit io" where
  "EditCampaignForm_handleSubmit this cid =
     io_bind (set_state Edit_submitting (JBool True)) (\<lambda>_.
     io_finally
       (io_try
          (io_bind (get_state Edit_formData) (\<lambda>formData.
           io_bind (updateCampaign this cid formData) (\<lambda>result.
           io_bind (io_lift (get_prop result ''success'')) (\<lambda>success.
           if truthy success then navigate (''/campaigns/'' @ cid)
           else
             io_bind (io_lift (get_prop result ''error'')) (\<lambda>err.
               set_state Edit_error (js_or err (JStr ''Failed to update campaign'')))))))
          (\<lambda>err. set_state Edit_error (JStr (str_or (message err) ''An error occurred''))))
       (set_state Edit_submitting (JBool False)))"

subsection \<open>CampaignDetail: the donation form\<close>

definition Detail_donationAmount :: string where "Detail_donationAmount = ''CampaignDetail.donationAmount''"
definition Detail_donationTxHash :: string where "Detail_donationTxHash = ''CampaignDetail.donationTxHash''"
definition Detail_donating :: string where "Detail_donating = ''CampaignDetail.donating''"
definition Detail_donationSuccess :: string where "Detail_donationSuccess = ''CampaignDetail.donationSuccess''"
definition Detail_campaign :: string where "Detail_campaign = ''CampaignDetail.campaign''"

definition CampaignDetail_handleDonate :: "service \<Rightarrow> string \<Rightarrow> unit io" where
  "CampaignDetail_handleDonate this cid =
     io_bind (get_state Detail_donationAmount) (\<lambda>donationAmount.
     io_bind (js_Number donationAmount) (\<lambda>amt.
     if \<not> truthy donationAmount \<or> num_le amt (Fin 0)
     then alert (JStr ''Please enter a valid donation amount'')
     else
       io_bind (get_state Detail_donationTxHash) (\<lambda>donationTxHash.
       if \<not> truthy donationTxHash then alert (JStr ''Transaction hash is required'')
       else
         io_bind (set_state Detail_donating (JBool True)) (\<lambda>_.
         io_finally
           (io_try
              (io_bind (recordDonation this cid donationAmount donationTxHash) (\<lambda>result.
               io_bind (io_lift (get_prop result ''success'')) (\<lambda>success.
               if truthy success then
                 io_bind (set_state Detail_donationSuccess (JBool True)) (\<lambda>_.
                 io_bind (fetchCampaign this cid) (\<lambda>refreshResult.
                 io_bind (io_lift (get_prop refreshResult ''success'')) (\<lambda>rs.
                 io_bind (io_lift (get_prop refreshResult ''campaign'')) (\<lambda>campaign.
                 io_bind (if truthy rs \<and> truthy campaign
                          then set_state Detail_campaign campaign else io_return ()) (\<lambda>_.
                 io_bind (set_state Detail_donationAmount (JNum 0)) (\<lambda>_.
                   set_state Detail_donationTxHash (JStr [])))))))
               else
                 io_bind (io_lift (get_prop result ''error'')) (\<lambda>err.
                   alert (js_or err (JStr ''Failed to process donation''))))))
              (\<lambda>err. alert (JStr (str_or (message err) ''An error occurred''))))
           (set_state Detail_donating (JBool False))))))"

subsection \<open>CampaignDetail: the refresh after a donation\<close>

text \<open>
  \<open>handleDonationSuccess\<close>, which CampaignDetail passes to WLDDonationForm as
  \<open>onDonationSuccess\<close>. Its first \<open>await\<close> is the one of \<open>getHeaders\<close>, reached through
  \<open>fetchCampaign\<close>: a call runs \<open>checkAuthStatus\<close> and leaves the rest pending.
\<close>

definition handleDonationSuccess_resumed :: "service \<Rightarrow> string \<Rightarrow> js_error + jsval \<Rightarrow> unit io" where
  "handleDonationSuccess_resumed this cid authData =
     io_try
       (io_bind (fetchCampaign_resumed this cid authData) (\<lambda>result.
        io_bind (io_lift (get_prop result ''success'')) (\<lambda>success.
        io_bind (io_lift (get_prop result ''campaign'')) (\<lambda>campaign.
          if truthy success \<and> truthy campaign then set_state Detail_campaign campaign
          else io_return ()))))
       (\<lambda>err. io_return ())"

definition handleDonationSuccess :: "service \<Rightarrow> string \<Rightarrow> (unit io) io" where
  "handleDonationSuccess this cid =
     start_async checkAuthStatus (handleDonationSuccess_resumed this cid)"

section \<open>Campaign progress\<close>

text \<open>
  \<open>Math.min(Math.round((campaign.raised / campaign.goal) * 100), 100)\<close>, the expression
  of CampaignCard, CampaignDetail and CampaignTracker, on two numbers.
\<close>

definition progressPercentage :: "number \<Rightarrow> number \<Rightarrow> number" where
  "progressPercentage raised goal =
     Math_min (Math_round (num_mul (num_div raised goal) (Fin 100))) (Fin 100)"

text \<open>The finite binary64 values: the rationals that rounding leaves unchanged.\<close>

definition is_double :: "rat \<Rightarrow> bool" where
  "is_double q = (to_double q = Fin q)"

section \<open>Counting requests\<close>

definition nfetch :: "world \<Rightarrow> nat" where
  "nfetch w = length (fetches (trace w))"

text \<open>\<open>fetch_bound n m\<close>: a run of \<open>m\<close>, from any world, calls \<open>fetch\<close> at most \<open>n\<close> times.\<close>

definition fetch_bound :: "nat \<Rightarrow> 'a io \<Rightarrow> bool" where
  "fetch_bound n m = (\<forall>w. nfetch (snd (m w)) \<le> nfetch w + n)"

section \<open>Sample worlds\<close>

text \<open>A service configured with a base URL and no API key.\<close>

definition sample_service :: service where
  "sample_service = \<lparr>API_BASE = ''https://api.example'', API_KEY = None\<rparr>"

text \<open>A browser with empty storage whose every request fails at the network.\<close>

definition offline_world :: world where
  "offline_world =
     \<lparr>storage = Map.empty,
      storage_throws = (\<lambda>op. None),
      net = (\<lambda>n r. Rejected (JsError ''Failed to fetch'')),
      trace = [],
      authState = \<lparr>isAuthenticated = False, stateWalletAddress = JNull, sessionToken = JNull,
                   isLoading = False, stateError = JNull, stateNonce = JNull\<rparr>,
      ui = (\<lambda>name. JUndefined),
      MiniKit = \<lparr>MiniKit_defined = False, isInstalled_result = Inr False,
                 install_throws = (\<lambda>appId. None), has_walletAuth = False,
                 walletAuth_result = (\<lambda>nonce. Inr JUndefined)\<rparr>,
      window_triggerWalletAuth = None,
      number_to_string = (\<lambda>q. ''0''),
      string_to_number = (\<lambda>s. NaN),
      atob = (\<lambda>s. Inr s),
      JSON_parse = (\<lambda>s. Inl (JsError ''Unexpected token'')),
      parseFloat = (\<lambda>s. NaN),
      Date_now = 1000\<rparr>"

section \<open>Traces by phase\<close>

definition phases :: "(event \<Rightarrow> nat option) \<Rightarrow> event list \<Rightarrow> nat list" where
  "phases ph evs = List.map_filter ph evs"

definition cat :: "nat list list \<Rightarrow> nat list list \<Rightarrow> nat list list" where
  "cat A B = remdups (concat (map (\<lambda>a. map ((@) a) B) A))"

definition alt :: "nat list list \<Rightarrow> nat list list \<Rightarrow> nat list list" where
  "alt A B = remdups (A @ B)"

fun opt :: "nat option \<Rightarrow> nat list" where
  "opt None = []"
| "opt (Some k) = [k]"

definition runs :: "(event \<Rightarrow> nat option) \<Rightarrow> nat list list \<Rightarrow> nat list list \<Rightarrow> 'a io \<Rightarrow> bool" where
  "runs ph N E m =
     (\<forall>w. \<exists>evs. trace (snd (m w)) = trace w @ evs \<and>
        (case fst (m w) of Inr x \<Rightarrow> phases ph evs \<in> set N | Inl e \<Rightarrow> phases ph evs \<in> set E))"

definition handshake_phase :: "service \<Rightarrow> event \<Rightarrow> nat option" where
  "handshake_phase this ev =
     (case ev of
        Fetch r \<Rightarrow> Some (if url r = API_BASE this @ ''/auth/nonce'' then 1
                        else if url r = API_BASE this @ ''/auth/verify-signature'' then 3 else 0)
      | WalletAuth n \<Rightarrow> Some 2
      | StorageSet k v \<Rightarrow> Some (if k = SESSION_TOKEN_KEY \<or> k = WALLET_ADDRESS_KEY then 4 else 0)
      | StorageRemove k \<Rightarrow> Some 0
      | _ \<Rightarrow> None)"

definition handshake :: "nat list" where
  "handshake = [1, 2, 3, 4, 4, 4, 4]"

section \<open>Vocabulary of the statements\<close>

definition succeeded :: "js_error + jsval \<Rightarrow> bool" where
  "succeeded r = (case r of Inr v \<Rightarrow> get_prop v ''success'' = Inr (JBool True) | Inl e \<Rightarrow> False)"

definition failed :: "js_error + jsval \<Rightarrow> bool" where
  "failed r = (case r of Inr v \<Rightarrow> get_prop v ''success'' = Inr (JBool False) | Inl e \<Rightarrow> False)"

definition field :: "jsval \<Rightarrow> string \<Rightarrow> jsval" where
  "field data p = (case get_prop data p of Inr v \<Rightarrow> v | Inl e \<Rightarrow> JUndefined)"

definition body_field :: "response \<Rightarrow> string \<Rightarrow> jsval" where
  "body_field res p = (case json res of Inr data \<Rightarrow> field data p | Inl e \<Rightarrow> JUndefined)"

definition nonce_request :: "service \<Rightarrow> request" where
  "nonce_request this =
     \<lparr>req_method = GET, url = API_BASE this @ ''/auth/nonce'',
      headers = with_api_key (API_KEY this) [(''Content-Type'', ''application/json'')],
      body = None\<rparr>"

definition verify_request :: "service \<Rightarrow> jsval \<Rightarrow> jsval \<Rightarrow> request" where
  "verify_request this payload nonce =
     \<lparr>req_method = POST, url = API_BASE this @ ''/auth/verify-signature'',
      headers = with_api_key (API_KEY this) [(''Content-Type'', ''application/json'')],
      body = Some (JObj [(''payload'', payload), (''nonce'', nonce)])\<rparr>"

definition js_str :: "world \<Rightarrow> jsval \<Rightarrow> string" where
  "js_str w v = to_string (number_to_string w) v"

definition new_events :: "world \<Rightarrow> world \<Rightarrow> event list" where
  "new_events w w' = drop (length (trace w)) (trace w')"

definition no_session_written :: "service \<Rightarrow> jsval \<Rightarrow> jsval \<Rightarrow> world \<Rightarrow> bool" where
  "no_session_written this payload nonce w =
     (let r = fst (verifyWalletSignature this payload nonce w);
          w' = snd (verifyWalletSignature this payload nonce w)
      in failed r \<and> storage w' = storage w
         \<and> trace w' = trace w @ [Fetch (verify_request this payload nonce)])"

definition session_written_after_ok :: "service \<Rightarrow> jsval \<Rightarrow> jsval \<Rightarrow> response \<Rightarrow> world \<Rightarrow> bool" where
  "session_written_after_ok this payload nonce res w =
     (let r = fst (verifyWalletSignature this payload nonce w);
          w' = snd (verifyWalletSignature this payload nonce w);
          both = [StorageSet SESSION_TOKEN_KEY (js_str w (body_field res ''token'')),
                  StorageSet WALLET_ADDRESS_KEY (js_str w (body_field res ''walletAddress''))]
      in prefix (trace w @ [Fetch (verify_request this payload nonce)]) (trace w')
         \<and> prefix (drop (Suc (length (trace w))) (trace w')) both
         \<and> (succeeded r \<or> failed r)
         \<and> (succeeded r \<longleftrightarrow> drop (Suc (length (trace w))) (trace w') = both))"

definition handshake_ordered :: "service \<Rightarrow> world \<Rightarrow> world \<Rightarrow> bool" where
  "handshake_ordered this w w' =
     (prefix (trace w) (trace w')
      \<and> prefix (phases (handshake_phase this) (new_events w w')) handshake)"

definition sample_env :: env where
  "sample_env = \<lparr>VITE_AMPLIFY_API = None, VITE_APP_BACKEND_API_URL = None,
     VITE_WORLD_APP_API = None, VITE_APP_BACKEND_API_KEY = None, VITE_WORLD_APP_ID = None,
     VITE_WORLD_ID_APP_ID = None, window_ENV_WORLD_APP_ID = None, DEV = False\<rparr>"

definition happy_world :: world where
  "happy_world = offline_world
     \<lparr>net := (\<lambda>n r. if url r = ''https://api.example/auth/nonce''
               then Responded \<lparr>status = 200, json = Inr (JObj [(''nonce'', JStr ''nonce-12345'')])\<rparr>
               else Responded \<lparr>status = 200, json = Inr (JObj [(''token'', JStr ''tok''),
                                     (''walletAddress'', JStr ''0xabc'')])\<rparr>),
      MiniKit := \<lparr>MiniKit_defined = True, isInstalled_result = Inr True,
                 install_throws = (\<lambda>appId. None), has_walletAuth = True,
                 walletAuth_result = (\<lambda>nonce. Inr (JObj [(''finalPayload'',
                    JObj [(''status'', JStr ''success''),
                          (''message'', JObj [(''nonce'', nonce)])])]))\<rparr>\<rparr>"

text \<open>A browser that denies access to \<open>localStorage\<close>: every access throws.\<close>

definition denied_world :: world where
  "denied_world =
     offline_world\<lparr>storage_throws := (\<lambda>op. Some (JsError ''The operation is insecure.''))\<rparr>"

text \<open>A browser with empty storage whose every request is answered with the given status
  and body.\<close>

definition responding :: "nat \<Rightarrow> js_error + jsval \<Rightarrow> world" where
  "responding st b = offline_world\<lparr>net := (\<lambda>n r. Responded \<lparr>status = st, json = b\<rparr>)\<rparr>"

text \<open>An object has a property of its own with the given name.\<close>

definition has_field :: "jsval \<Rightarrow> string \<Rightarrow> bool" where
  "has_field v p = (case v of JObj kvs \<Rightarrow> map_of kvs p \<noteq> None | _ \<Rightarrow> False)"

definition error_of :: "js_error + jsval \<Rightarrow> jsval" where
  "error_of r = (case r of Inr v \<Rightarrow> field v ''error'' | Inl e \<Rightarrow> JUndefined)"

text \<open>The two \<open>setItem\<close> calls of \<open>verifyWalletSignature\<close> for a response go through.\<close>

definition session_writable :: "world \<Rightarrow> response \<Rightarrow> bool" where
  "session_writable w res =
     (storage_throws w (SetItem SESSION_TOKEN_KEY (js_str w (body_field res ''token''))) = None
      \<and> storage_throws w (SetItem WALLET_ADDRESS_KEY (js_str w (body_field res ''walletAddress''))) = None)"

text \<open>Both session keys are stored, the token as the empty string.\<close>

definition empty_token_world :: world where
  "empty_token_world =
     offline_world\<lparr>storage := [SESSION_TOKEN_KEY \<mapsto> [], WALLET_ADDRESS_KEY \<mapsto> ''0xabc'']\<rparr>"

text \<open>Storage whose quota is exceeded by the write of the wallet address.\<close>

definition quota_world :: world where
  "quota_world =
     offline_world\<lparr>storage_throws :=
       (\<lambda>op. if op = SetItem WALLET_ADDRESS_KEY ''0xabc''
             then Some (JsError ''The quota has been exceeded.'') else None)\<rparr>"

definition both_keys :: "world \<Rightarrow> string option \<times> string option" where
  "both_keys w = (storage w SESSION_TOKEN_KEY, storage w WALLET_ADDRESS_KEY)"

definition writes_allowed :: "world \<Rightarrow> jsval \<Rightarrow> jsval \<Rightarrow> bool" where
  "writes_allowed w token address =
     (storage_throws w (SetItem SESSION_TOKEN_KEY (js_str w token)) = None
      \<and> storage_throws w (SetItem WALLET_ADDRESS_KEY (js_str w address)) = None)"

definition removals_allowed :: "world \<Rightarrow> bool" where
  "removals_allowed w =
     (storage_throws w (RemoveItem SESSION_TOKEN_KEY) = None
      \<and> storage_throws w (RemoveItem WALLET_ADDRESS_KEY) = None)"

definition reads_allowed :: "world \<Rightarrow> bool" where
  "reads_allowed w =
     (storage_throws w (GetItem SESSION_TOKEN_KEY) = None
      \<and> storage_throws w (GetItem WALLET_ADDRESS_KEY) = None)"

definition reports_authenticated :: "js_error + jsval \<Rightarrow> bool" where
  "reports_authenticated r =
     (case r of Inr v \<Rightarrow> get_prop v ''isAuthenticated'' = Inr (JBool True) | Inl e \<Rightarrow> False)"

text \<open>
  The payload of a token, in the words of the claim: the token splits on \<open>.\<close> into
  exactly three parts and the (non-empty) middle part base64-decodes to parseable JSON.
\<close>

definition token_payload :: "world \<Rightarrow> string \<Rightarrow> jsval option" where
  "token_payload w token =
     (case split_on CHR ''.'' token of
        [p0, payloadPart, p2] \<Rightarrow>
          if payloadPart = [] then None
          else (case atob w payloadPart of
                  Inl e \<Rightarrow> None
                | Inr decoded \<Rightarrow> (case JSON_parse w decoded of Inl e \<Rightarrow> None | Inr p \<Rightarrow> Some p))
      | parts \<Rightarrow> None)"

text \<open>\<open>payload.exp && payload.exp * 1000 < Date.now()\<close>\<close>

definition expired :: "world \<Rightarrow> jsval \<Rightarrow> bool" where
  "expired w payload =
     (truthy (field payload ''exp'')
      \<and> num_less (num_mul (to_number (string_to_number w) (number_to_string w) (field payload ''exp''))
                           (Fin 1000))
                  (Fin (Date_now w)))"

definition is_valid :: "js_error + jsval \<Rightarrow> bool" where
  "is_valid r = (case r of Inr v \<Rightarrow> get_prop v ''isValid'' = Inr (JBool True) | Inl e \<Rightarrow> False)"

definition is_invalid :: "js_error + jsval \<Rightarrow> bool" where
  "is_invalid r =
     (case r of
        Inr v \<Rightarrow> get_prop v ''isValid'' = Inr (JBool False) \<and> is_string (field v ''error'')
      | Inl e \<Rightarrow> False)"

definition accepted :: "world \<Rightarrow> string \<Rightarrow> bool" where
  "accepted w token =
     (case token_payload w token of
        Some payload \<Rightarrow> \<not> expired w payload \<and> truthy (field payload ''walletAddress'')
      | None \<Rightarrow> False)"

text \<open>A browser where every base64 text decodes to itself and parses as the given payload,
  at the given time.\<close>

definition jwt_world :: "jsval \<Rightarrow> rat \<Rightarrow> world" where
  "jwt_world payload now =
     offline_world\<lparr>JSON_parse := (\<lambda>s. Inr payload), Date_now := now\<rparr>"

text \<open>The nonce that \<open>triggerMiniKitWalletAuth\<close> refuses.\<close>

definition invalid_nonce :: "jsval \<Rightarrow> bool" where
  "invalid_nonce n = (\<not> truthy n \<or> \<not> is_string n \<or> str_length n < 8)"

text \<open>MiniKit is there to be called: the global exists, it is installed or installs
  without error, and the \<open>walletAuth\<close> command exists.\<close>

definition minikit_available :: "env \<Rightarrow> world \<Rightarrow> bool" where
  "minikit_available e w =
     (MiniKit_defined (MiniKit w)
      \<and> (isInstalled_result (MiniKit w) = Inr True
          \<or> install_throws (MiniKit w) (trigger_appId e) = None)
      \<and> has_walletAuth (MiniKit w))"

text \<open>
  A browser in which MiniKit is loaded and not installed, and \<open>MiniKit.install\<close> throws.
\<close>

definition install_fails_world :: world where
  "install_fails_world = offline_world
     \<lparr>MiniKit := \<lparr>MiniKit_defined = True, isInstalled_result = Inr False,
                 install_throws = (\<lambda>appId. Some (JsError ''MiniKit is not supported here'')),
                 has_walletAuth = True,
                 walletAuth_result = (\<lambda>nonce. Inr JUndefined)\<rparr>\<rparr>"

text \<open>The \<open>walletAuth\<close> calls of a trace, marked 1 when they carry the given nonce.\<close>

definition wallet_phase :: "jsval \<Rightarrow> event \<Rightarrow> nat option" where
  "wallet_phase n ev = (case ev of WalletAuth m \<Rightarrow> Some (if m = n then 1 else 0) | _ \<Rightarrow> None)"

fun is_walletAuth :: "event \<Rightarrow> bool" where
  "is_walletAuth (WalletAuth m) = True"
| "is_walletAuth ev = False"

text \<open>The nonce that \<open>loginWithWallet\<close> reads from the signed message of a payload.\<close>

definition signed_nonce :: "world \<Rightarrow> jsval \<Rightarrow> jsval" where
  "signed_nonce w authResult =
     (let msg = field authResult ''message'' in
      if \<not> truthy msg then JUndefined
      else (case msg of
              JObj kvs \<Rightarrow> field msg ''nonce''
            | JArr xs \<Rightarrow> field msg ''nonce''
            | JStr s \<Rightarrow> (case JSON_parse w s of Inr obj \<Rightarrow> field obj ''nonce'' | Inl e \<Rightarrow> JUndefined)
            | _ \<Rightarrow> JUndefined))"

text \<open>The requests of a trace, marked 1 when they are the given request.\<close>

definition request_phase :: "request \<Rightarrow> event \<Rightarrow> nat option" where
  "request_phase rq ev = (case ev of Fetch r \<Rightarrow> Some (if r = rq then 1 else 0) | _ \<Rightarrow> None)"

text \<open>The requests that a run of an action issues, in order.\<close>

definition requests_of :: "'a io \<Rightarrow> world \<Rightarrow> event list" where
  "requests_of m w = filter is_fetch (new_events w (snd (m w)))"

definition json_headers :: "(string \<times> string) list" where
  "json_headers = [(''Content-Type'', ''application/json'')]"

text \<open>The headers of AuthService with and without the bearer token, and those of
  CampaignService and WLDPaymentService, for an API key and the stored token.\<close>

definition auth_headers :: "string option \<Rightarrow> string option \<Rightarrow> (string \<times> string) list" where
  "auth_headers key token = with_bearer token (with_api_key key json_headers)"

definition campaign_headers :: "string option \<Rightarrow> string option \<Rightarrow> (string \<times> string) list" where
  "campaign_headers key token = with_api_key key (with_bearer token json_headers)"

definition stored_token :: "world \<Rightarrow> string option" where
  "stored_token w = storage w SESSION_TOKEN_KEY"

text \<open>A browser holding a session.\<close>

definition session_world :: world where
  "session_world =
     offline_world\<lparr>storage := [SESSION_TOKEN_KEY \<mapsto> ''tok'', WALLET_ADDRESS_KEY \<mapsto> ''0xabc'']\<rparr>"

section \<open>Requests under a flag\<close>

text \<open>
  Every request of a trace is issued while the state variable \<open>flag\<close> is truthy: the
  trace is replayed from the value \<open>b\<close> of the flag, following its setter.
\<close>

fun in_flight_guarded :: "string \<Rightarrow> bool \<Rightarrow> event list \<Rightarrow> bool" where
  "in_flight_guarded flag b [] = True"
| "in_flight_guarded flag b (Fetch r # evs) = (b \<and> in_flight_guarded flag b evs)"
| "in_flight_guarded flag b (SetState name v # evs) =
     in_flight_guarded flag (if name = flag then truthy v else b) evs"
| "in_flight_guarded flag b (ev # evs) = in_flight_guarded flag b evs"

text \<open>The same on phases: 1 a request, 2 the flag set to a truthy value, 0 to a falsy one.\<close>

definition guard_phase :: "string \<Rightarrow> event \<Rightarrow> nat option" where
  "guard_phase flag ev =
     (case ev of
        Fetch r \<Rightarrow> Some 1
      | SetState name v \<Rightarrow> if name = flag then Some (if truthy v then 2 else 0) else None
      | _ \<Rightarrow> None)"

fun guarded_phases :: "bool \<Rightarrow> nat list \<Rightarrow> bool" where
  "guarded_phases b [] = True"
| "guarded_phases b (p # ps) =
     (if p = 1 then b \<and> guarded_phases b ps else guarded_phases (p = 2) ps)"

text \<open>A handler keeps its requests under its flag, from whatever state it is called in.\<close>

definition guards_requests :: "string \<Rightarrow> 'a io \<Rightarrow> world \<Rightarrow> bool" where
  "guards_requests flag handler w =
     (prefix (trace w) (trace (snd (handler w)))
      \<and> in_flight_guarded flag (submit_disabled flag w) (new_events w (snd (handler w))))"

text \<open>
  The application mounted in a World App whose wallet and backend answer: MiniKitProvider
  has rendered with \<open>isAttemptingAuthViaWindow\<close> at its initial value \<open>false\<close>, and the
  effect of that render has installed \<open>window.__triggerWalletAuth\<close>.
\<close>

definition mounted_world :: world where
  "mounted_world = happy_world
     \<lparr>ui := (\<lambda>name. JUndefined)(isAttemptingAuthViaWindow := JBool False),
      window_triggerWalletAuth := Some (JBool False)\<rparr>"

text \<open>
  A first call of \<open>window.__triggerWalletAuth\<close> has passed its test and has called
  \<open>setIsAttemptingAuthViaWindow(true)\<close>. React has not rendered since, so the effect has
  not run again and the function installed is still that of the first render.
\<close>

definition attempt_started :: world where
  "attempt_started = snd (set_state isAttemptingAuthViaWindow (JBool True) mounted_world)"

text \<open>The instructions that the effect of WLDDonationForm has loaded.\<close>

definition loaded_instructions :: jsval where
  "loaded_instructions =
     (case fst (getDonationInstructions ''42'' offline_world) of Inr v \<Rightarrow> v | Inl e \<Rightarrow> JNull)"

text \<open>
  A signed-in donor on the page of campaign 42, with the backend answering: the form
  holds an amount and a transaction hash, and the build names the backend.
\<close>

definition donor_env :: env where
  "donor_env = sample_env\<lparr>VITE_AMPLIFY_API := Some ''https://api.example''\<rparr>"

definition donor_world :: world where
  "donor_world = session_world
     \<lparr>net := (\<lambda>n r. Responded \<lparr>status = 200, json = Inr (JObj [(''id'', JStr ''42'')])\<rparr>),
      authState := \<lparr>isAuthenticated = True, stateWalletAddress = JStr ''0xabc'',
                    sessionToken = JStr ''tok'', isLoading = False, stateError = JNull,
                    stateNonce = JNull\<rparr>,
      ui := (\<lambda>name. JUndefined)
              (WLD_amount := JStr ''5'', WLD_txHash := JStr ''0xfeed'',
               WLD_loading := JBool False, WLD_success := JBool False, WLD_error := JNull,
               WLD_instructions := loaded_instructions),
      parseFloat := (\<lambda>s. if s = ''5'' then Fin 5 else NaN)\<rparr>"

section \<open>Rounding and the exact percentage\<close>

text \<open>The binary64 value nearest to a positive rational, before the check for overflow.\<close>

definition nearest :: "rat \<Rightarrow> rat" where
  "nearest a =
     of_int (round_even (a / 2 powi (max (ilog2 a) (- 1022) - 52)))
       * 2 powi (max (ilog2 a) (- 1022) - 52)"

text \<open>The percentage as the specification words it, in exact arithmetic.\<close>

definition spec_percentage :: "rat \<Rightarrow> rat \<Rightarrow> int" where
  "spec_percentage raised goal = min (round (100 * raised / goal)) 100"

section \<open>Requests per invocation\<close>

lemma fb_weaken: "fetch_bound k m \<Longrightarrow> k \<le> n \<Longrightarrow> fetch_bound n m"
  unfolding fetch_bound_def by (meson add_le_cancel_left le_trans)

lemma fb_return: "fetch_bound 0 (io_return x)"
  by (simp add: fetch_bound_def io_return_def)

lemma fb_throw: "fetch_bound 0 (io_throw e)"
  by (simp add: fetch_bound_def io_throw_def)

lemma fb_lift: "fetch_bound 0 (io_lift r)"
  by (simp add: fetch_bound_def io_lift_def)

lemma fb_bind: "fetch_bound a m \<Longrightarrow> (\<And>x. fetch_bound b (f x)) \<Longrightarrow> fetch_bound (a + b) (io_bind m f)"
  unfolding fetch_bound_def io_bind_def
proof (intro allI)
  fix w
  assume m: "\<forall>w. nfetch (snd (m w)) \<le> nfetch w + a" and f: "\<And>x. \<forall>w. nfetch (snd (f x w)) \<le> nfetch w + b"
  obtain r w' where mw: "m w = (r, w')" by (cases "m w")
  have 1: "nfetch w' \<le> nfetch w + a" using m[rule_format, of w] mw by simp
  show "nfetch (snd (case m w of (Inl e, w') \<Rightarrow> (Inl e, w') | (Inr x, w') \<Rightarrow> f x w')) \<le> nfetch w + (a + b)"
  proof (cases r)
    case (Inl e) then show ?thesis using mw 1 by simp
  next
    case (Inr x)
    have "nfetch (snd (f x w')) \<le> nfetch w' + b" using f[of x] by simp
    then show ?thesis using mw Inr 1 by simp
  qed
qed

lemma fb_try: "fetch_bound a m \<Longrightarrow> (\<And>e. fetch_bound b (h e)) \<Longrightarrow> fetch_bound (a + b) (io_try m h)"
  unfolding fetch_bound_def io_try_def
proof (intro allI)
  fix w
  assume m: "\<forall>w. nfetch (snd (m w)) \<le> nfetch w + a" and f: "\<And>x. \<forall>w. nfetch (snd (h x w)) \<le> nfetch w + b"
  obtain r w' where mw: "m w = (r, w')" by (cases "m w")
  have 1: "nfetch w' \<le> nfetch w + a" using m[rule_format, of w] mw by simp
  show "nfetch (snd (case m w of (Inl e, w') \<Rightarrow> h e w' | (Inr x, w') \<Rightarrow> (Inr x, w'))) \<le> nfetch w + (a + b)"
  proof (cases r)
    case (Inr e) then show ?thesis using mw 1 by simp
  next
    case (Inl x)
    have "nfetch (snd (h x w')) \<le> nfetch w' + b" using f[of x] by simp
    then show ?thesis using mw Inl 1 by simp
  qed
qed

lemma fb_catch_value: "fetch_bound a m \<Longrightarrow> fetch_bound a (io_catch_value m v)"
  unfolding fetch_bound_def io_catch_value_def
  by (auto split: prod.splits sum.splits) (metis snd_conv)+

lemma fb_if: "fetch_bound a m \<Longrightarrow> fetch_bound b m' \<Longrightarrow> fetch_bound (max a b) (if c then m else m')"
  by (auto elim: fb_weaken)

lemma fb_fetch: "fetch_bound 1 (fetch r)"
  by (simp add: fetch_bound_def fetch_def nfetch_def fetches_def Let_def split: fetch_outcome.splits)

lemma fb_getItem: "fetch_bound 0 (getItem k)"
  by (simp add: fetch_bound_def getItem_def split: option.splits)

lemma fb_setItem: "fetch_bound 0 (setItem k v)"
  by (simp add: fetch_bound_def setItem_def nfetch_def fetches_def split: option.splits)

lemma fb_removeItem: "fetch_bound 0 (removeItem k)"
  by (simp add: fetch_bound_def removeItem_def nfetch_def fetches_def split: option.splits)

lemma fb_js_String: "fetch_bound 0 (js_String v)"
  by (simp add: fetch_bound_def js_String_def)

lemma fb_res_json: "fetch_bound 0 (res_json r)"
  by (simp add: res_json_def fb_lift)

lemmas fb_rules = fb_return fb_throw fb_lift fb_bind fb_try fb_catch_value fb_if fb_fetch
  fb_getItem fb_setItem fb_removeItem fb_js_String fb_res_json

lemma fb_throw_new_Error: "fetch_bound 0 (throw_new_Error v)"
  unfolding throw_new_Error_def by (rule fb_weaken, (rule fb_rules)+, simp)

lemma fb_caught: "fetch_bound 0 (caught s e)"
  unfolding caught_def by (rule fb_return)

lemma fb_AuthService_getHeaders: "fetch_bound 0 (AuthService_getHeaders this b)"
  unfolding AuthService_getHeaders_def Let_def by (rule fb_weaken, (rule fb_rules)+, simp)

lemma fb_message_or_status: "fetch_bound 0 (message_or_status b t r)"
  unfolding message_or_status_def by (rule fb_weaken, (rule fb_rules)+, simp)

lemma getNonce_fb: "fetch_bound 1 (getNonce this)"
  unfolding getNonce_def 
  by (rule fb_weaken, (rule fb_rules fb_caught fb_AuthService_getHeaders fb_message_or_status)+, simp)


lemma verifyWalletSignature_fb: "fetch_bound 1 (verifyWalletSignature this p n)"
  unfolding verifyWalletSignature_def 
  by (rule fb_weaken, (rule fb_rules fb_caught fb_AuthService_getHeaders fb_message_or_status)+, simp)

lemma verifyWorldIdProof_fb: "fetch_bound 1 (verifyWorldIdProof this p)"
  unfolding verifyWorldIdProof_def 
  by (rule fb_weaken, (rule fb_rules fb_caught fb_AuthService_getHeaders fb_message_or_status)+, simp)

lemma fb_checkAuthStatus: "fetch_bound 0 checkAuthStatus"
  unfolding checkAuthStatus_def by (rule fb_weaken, (rule fb_rules)+, simp)

lemma fb_with_token: "fetch_bound 0 (with_token t hs)"
  unfolding with_token_def by (rule fb_weaken, (rule fb_rules)+, simp)

lemma fb_CampaignService_getHeaders: "fetch_bound 0 (CampaignService_getHeaders this)"
  unfolding CampaignService_getHeaders_def by (rule fb_weaken, (rule fb_rules fb_checkAuthStatus fb_with_token)+, simp)

lemma fb_throw_status: "fetch_bound 0 (throw_status t r)"
  unfolding throw_status_def by (rule fb_throw_new_Error)

lemmas fb_campaign = fb_rules fb_caught fb_CampaignService_getHeaders fb_message_or_status
  fb_throw_status fb_throw_new_Error

lemma createCampaign_fb: "fetch_bound 1 (createCampaign this p)"
  unfolding createCampaign_def by (rule fb_weaken, (rule fb_campaign)+, simp)

lemma fetchAllCampaigns_fb: "fetch_bound 1 (fetchAllCampaigns this)"
  unfolding fetchAllCampaigns_def by (rule fb_weaken, (rule fb_campaign)+, simp)

lemma fetchCampaign_fb: "fetch_bound 1 (fetchCampaign this c)"
  unfolding fetchCampaign_def by (rule fb_weaken, (rule fb_campaign)+, simp)

lemma updateCampaign_fb: "fetch_bound 1 (updateCampaign this c p)"
  unfolding updateCampaign_def by (rule fb_weaken, (rule fb_campaign)+, simp)

lemma deleteCampaign_fb: "fetch_bound 1 (deleteCampaign this c)"
  unfolding deleteCampaign_def by (rule fb_weaken, (rule fb_campaign)+, simp)

lemma recordDonation_fb: "fetch_bound 1 (recordDonation this c a t)"
  unfolding recordDonation_def by (rule fb_weaken, (rule fb_campaign)+, simp)

lemma fetchUserCampaigns_fb: "fetch_bound 1 (fetchUserCampaigns this a)"
  unfolding fetchUserCampaigns_def by (rule fb_weaken, (rule fb_campaign)+, simp)

lemma fb_WLD_getHeaders: "fetch_bound 0 (WLD_getHeaders e)"
  unfolding WLD_getHeaders_def by (rule fb_weaken, (rule fb_rules fb_checkAuthStatus fb_with_token)+, simp)

lemma fb_getApiBase: "fetch_bound 0 (getApiBase e)"
  unfolding getApiBase_def by (auto split: option.splits intro: fb_rules)

lemma donateWLD_fb: "fetch_bound 1 (donateWLD e c a t)"
  unfolding donateWLD_def by (rule fb_weaken, (rule fb_campaign fb_WLD_getHeaders fb_getApiBase)+, simp)

text \<open>
  C6. No retry: a single invocation of any of the eleven service methods that talk to
  the backend calls \<open>fetch\<close> at most once, whatever the network answers; a request
  that failed is therefore not issued again within the invocation.
\<close>

theorem one_fetch_per_invocation:
  "fetch_bound 1 (getNonce this)
   \<and> fetch_bound 1 (verifyWalletSignature this payload nonce)
   \<and> fetch_bound 1 (verifyWorldIdProof this idkit_proof)
   \<and> fetch_bound 1 (createCampaign this payload)
   \<and> fetch_bound 1 (fetchAllCampaigns this)
   \<and> fetch_bound 1 (fetchCampaign this cid)
   \<and> fetch_bound 1 (updateCampaign this cid payload)
   \<and> fetch_bound 1 (deleteCampaign this cid)
   \<and> fetch_bound 1 (recordDonation this cid amount txHash)
   \<and> fetch_bound 1 (fetchUserCampaigns this address)
   \<and> fetch_bound 1 (donateWLD e cid amount txHash)"
  by (intro conjI getNonce_fb verifyWalletSignature_fb verifyWorldIdProof_fb createCampaign_fb
      fetchAllCampaigns_fb fetchCampaign_fb updateCampaign_fb deleteCampaign_fb
      recordDonation_fb fetchUserCampaigns_fb donateWLD_fb)

text \<open>With the network down, \<open>getNonce\<close> issues its one request and gives up.\<close>

theorem one_fetch_per_invocation_witness:
  "nfetch (snd (getNonce sample_service offline_world)) \<le> nfetch offline_world + 1
   \<and> fetches (trace (snd (getNonce sample_service offline_world))) =
       [Fetch \<lparr>req_method = GET, url = ''https://api.example/auth/nonce'',
               headers = [(''Content-Type'', ''application/json'')], body = None\<rparr>]"
proof
  have "fetch_bound 1 (getNonce sample_service)"
    using one_fetch_per_invocation [of sample_service] by simp
  then show "nfetch (snd (getNonce sample_service offline_world)) \<le> nfetch offline_world + 1"
    by (simp add: fetch_bound_def)
  show "fetches (trace (snd (getNonce sample_service offline_world))) =
       [Fetch \<lparr>req_method = GET, url = ''https://api.example/auth/nonce'',
               headers = [(''Content-Type'', ''application/json'')], body = None\<rparr>]"
    by (simp add: getNonce_def AuthService_getHeaders_def with_api_key_def sample_service_def
        offline_world_def io_try_def io_bind_def io_return_def fetch_def fetches_def caught_def)
qed

section \<open>A calculus of traces\<close>

lemma phases_append: "phases ph (a @ b) = phases ph a @ phases ph b"
  by (simp add: phases_def List.map_filter_def)

lemma phases_Nil: "phases ph [] = []"
  by (simp add: phases_def map_filter_simps)

lemma phases_single: "phases ph [e] = opt (ph e)"
  by (cases "ph e") (simp_all add: phases_def map_filter_simps)

lemma in_cat: "a \<in> set A \<Longrightarrow> b \<in> set B \<Longrightarrow> a @ b \<in> set (cat A B)"
  by (auto simp: cat_def)

lemma in_alt: "x \<in> set (alt A B) \<longleftrightarrow> x \<in> set A \<or> x \<in> set B"
  by (auto simp: alt_def)

lemma runsI:
  assumes "\<And>w. \<exists>evs. trace (snd (m w)) = trace w @ evs \<and>
        (case fst (m w) of Inr x \<Rightarrow> phases ph evs \<in> set N | Inl e \<Rightarrow> phases ph evs \<in> set E)"
  shows "runs ph N E m"
  using assms by (simp add: runs_def)

lemma runsD:
  assumes "runs ph N E m"
  obtains evs where "trace (snd (m w)) = trace w @ evs"
    "\<And>x. fst (m w) = Inr x \<Longrightarrow> phases ph evs \<in> set N"
    "\<And>e. fst (m w) = Inl e \<Longrightarrow> phases ph evs \<in> set E"
proof -
  from assms obtain evs where 1: "trace (snd (m w)) = trace w @ evs"
    and 2: "(case fst (m w) of Inr x \<Rightarrow> phases ph evs \<in> set N | Inl e \<Rightarrow> phases ph evs \<in> set E)"
    unfolding runs_def by blast
  show ?thesis
    by (rule that[OF 1]) (use 2 in \<open>auto split: sum.splits\<close>)
qed

lemma runs_return: "runs ph [[]] [] (io_return x)"
  by (rule runsI) (simp add: io_return_def phases_Nil)

lemma runs_throw: "runs ph [] [[]] (io_throw e)"
  by (rule runsI) (simp add: io_throw_def phases_Nil)

lemma runs_lift: "runs ph [[]] [[]] (io_lift r)"
  by (rule runsI) (simp add: io_lift_def phases_Nil split: sum.splits)

lemma runs_bind:
  assumes m: "runs ph N1 E1 m" and f: "\<And>x. runs ph N2 E2 (f x)"
  shows "runs ph (cat N1 N2) (alt E1 (cat N1 E2)) (io_bind m f)"
proof (rule runsI)
  fix w
  obtain r w' where mw: "m w = (r, w')" by (cases "m w")
  from runsD[OF m, where w = w] obtain evs where 1: "trace (snd (m w)) = trace w @ evs"
    and 2: "\<And>x. fst (m w) = Inr x \<Longrightarrow> phases ph evs \<in> set N1"
    and 3: "\<And>e. fst (m w) = Inl e \<Longrightarrow> phases ph evs \<in> set E1"
    by blast
  show "\<exists>evs. trace (snd (io_bind m f w)) = trace w @ evs \<and>
        (case fst (io_bind m f w) of Inr x \<Rightarrow> phases ph evs \<in> set (cat N1 N2)
         | Inl e \<Rightarrow> phases ph evs \<in> set (alt E1 (cat N1 E2)))"
  proof (cases r)
    case (Inl e)
    then show ?thesis using mw 1 3[of e] by (auto simp: io_bind_def in_alt)
  next
    case (Inr x)
    from runsD[OF f[of x], where w = w'] obtain evs' where 4: "trace (snd (f x w')) = trace w' @ evs'"
      and 5: "\<And>y. fst (f x w') = Inr y \<Longrightarrow> phases ph evs' \<in> set N2"
      and 6: "\<And>e. fst (f x w') = Inl e \<Longrightarrow> phases ph evs' \<in> set E2"
      by blast
    have n1: "phases ph evs \<in> set N1" using 2[of x] mw Inr by simp
    have t: "trace (snd (io_bind m f w)) = trace w @ (evs @ evs')"
      using mw Inr 1 4 by (simp add: io_bind_def)
    show ?thesis
    proof (cases "fst (f x w')")
      case (Inl e)
      then have "phases ph (evs @ evs') \<in> set (alt E1 (cat N1 E2))"
        using n1 6[of e] by (simp add: phases_append in_alt in_cat)
      then show ?thesis using t mw Inr Inl by (auto simp: io_bind_def)
    next
      case (Inr y)
      then have "phases ph (evs @ evs') \<in> set (cat N1 N2)"
        using n1 5[of y] by (simp add: phases_append in_cat)
      then show ?thesis using t mw \<open>r = Inr x\<close> Inr by (auto simp: io_bind_def)
    qed
  qed
qed

lemma runs_try:
  assumes m: "runs ph N1 E1 m" and h: "\<And>e. runs ph N2 E2 (h e)"
  shows "runs ph (alt N1 (cat E1 N2)) (cat E1 E2) (io_try m h)"
proof (rule runsI)
  fix w
  obtain r w' where mw: "m w = (r, w')" by (cases "m w")
  from runsD[OF m, where w = w] obtain evs where 1: "trace (snd (m w)) = trace w @ evs"
    and 2: "\<And>x. fst (m w) = Inr x \<Longrightarrow> phases ph evs \<in> set N1"
    and 3: "\<And>e. fst (m w) = Inl e \<Longrightarrow> phases ph evs \<in> set E1"
    by blast
  show "\<exists>evs. trace (snd (io_try m h w)) = trace w @ evs \<and>
        (case fst (io_try m h w) of Inr x \<Rightarrow> phases ph evs \<in> set (alt N1 (cat E1 N2))
         | Inl e \<Rightarrow> phases ph evs \<in> set (cat E1 E2))"
  proof (cases r)
    case (Inr x)
    then show ?thesis using mw 1 2[of x] by (auto simp: io_try_def in_alt)
  next
    case (Inl x)
    from runsD[OF h[of x], where w = w'] obtain evs' where 4: "trace (snd (h x w')) = trace w' @ evs'"
      and 5: "\<And>y. fst (h x w') = Inr y \<Longrightarrow> phases ph evs' \<in> set N2"
      and 6: "\<And>e. fst (h x w') = Inl e \<Longrightarrow> phases ph evs' \<in> set E2"
      by blast
    have n1: "phases ph evs \<in> set E1" using 3[of x] mw Inl by simp
    have t: "trace (snd (io_try m h w)) = trace w @ (evs @ evs')"
      using mw Inl 1 4 by (simp add: io_try_def)
    show ?thesis
    proof (cases "fst (h x w')")
      case (Inl e)
      then have "phases ph (evs @ evs') \<in> set (cat E1 E2)"
        using n1 6[of e] by (simp add: phases_append in_cat)
      then show ?thesis using t mw \<open>r = Inl x\<close> Inl by (auto simp: io_try_def)
    next
      case (Inr y)
      then have "phases ph (evs @ evs') \<in> set (alt N1 (cat E1 N2))"
        using n1 5[of y] by (simp add: phases_append in_cat in_alt)
      then show ?thesis using t mw \<open>r = Inl x\<close> Inr by (auto simp: io_try_def)
    qed
  qed
qed

lemma runs_finally:
  assumes m: "runs ph N1 E1 m" and h: "runs ph N2 E2 fin"
  shows "runs ph (cat N1 N2) (alt (cat E1 N2) (cat (alt N1 E1) E2)) (io_finally m fin)"
proof (rule runsI)
  fix w
  obtain r w' where mw: "m w = (r, w')" by (cases "m w")
  from runsD[OF m, where w = w] obtain evs where 1: "trace (snd (m w)) = trace w @ evs"
    and 2: "\<And>x. fst (m w) = Inr x \<Longrightarrow> phases ph evs \<in> set N1"
    and 3: "\<And>e. fst (m w) = Inl e \<Longrightarrow> phases ph evs \<in> set E1"
    by blast
  from runsD[OF h, where w = w'] obtain evs' where 4: "trace (snd (fin w')) = trace w' @ evs'"
      and 5: "\<And>y. fst (fin w') = Inr y \<Longrightarrow> phases ph evs' \<in> set N2"
      and 6: "\<And>e. fst (fin w') = Inl e \<Longrightarrow> phases ph evs' \<in> set E2"
      by blast
  obtain r2 w2 where fw: "fin w' = (r2, w2)" by (cases "fin w'")
  have t: "trace (snd (io_finally m fin w)) = trace w @ (evs @ evs')"
    using mw fw 1 4 by (simp add: io_finally_def split: sum.splits)
  have p: "(case fst (io_finally m fin w) of
          Inr x \<Rightarrow> phases ph (evs @ evs') \<in> set (cat N1 N2)
        | Inl e \<Rightarrow> phases ph (evs @ evs') \<in> set (alt (cat E1 N2) (cat (alt N1 E1) E2)))"
  proof (cases r2)
    case (Inl e)
    have "phases ph evs \<in> set (alt N1 E1)" using 2 3 mw by (cases r) (auto simp: in_alt)
    then have "phases ph (evs @ evs') \<in> set (cat (alt N1 E1) E2)"
      using 6[of e] fw Inl by (simp add: phases_append in_cat)
    then show ?thesis using mw fw Inl by (simp add: io_finally_def in_alt)
  next
    case (Inr u)
    have n2: "phases ph evs' \<in> set N2" using 5[of u] fw Inr by simp
    show ?thesis
    proof (cases r)
      case (Inl e)
      then show ?thesis using mw fw Inr n2 3[of e] by (simp add: io_finally_def in_alt phases_append in_cat)
    next
      case (Inr x)
      then show ?thesis using mw fw \<open>r2 = Inr u\<close> n2 2[of x] by (simp add: io_finally_def phases_append in_cat)
    qed
  qed
  show "\<exists>evs. trace (snd (io_finally m fin w)) = trace w @ evs \<and>
        (case fst (io_finally m fin w) of Inr x \<Rightarrow> phases ph evs \<in> set (cat N1 N2)
         | Inl e \<Rightarrow> phases ph evs \<in> set (alt (cat E1 N2) (cat (alt N1 E1) E2)))"
    using t p by blast
qed

lemma runs_catch_value:
  assumes m: "runs ph N E m"
  shows "runs ph (alt N E) [] (io_catch_value m v)"
proof (rule runsI)
  fix w
  obtain r w' where mw: "m w = (r, w')" by (cases "m w")
  from runsD[OF m, where w = w] obtain evs where 1: "trace (snd (m w)) = trace w @ evs"
    and 2: "\<And>x. fst (m w) = Inr x \<Longrightarrow> phases ph evs \<in> set N"
    and 3: "\<And>e. fst (m w) = Inl e \<Longrightarrow> phases ph evs \<in> set E"
    by blast
  show "\<exists>evs. trace (snd (io_catch_value m v w)) = trace w @ evs \<and>
        (case fst (io_catch_value m v w) of Inr x \<Rightarrow> phases ph evs \<in> set (alt N E)
         | Inl e \<Rightarrow> phases ph evs \<in> set [])"
    using mw 1 2 3 by (cases r) (auto simp: io_catch_value_def in_alt)
qed

lemma runs_weaken:
  assumes "runs ph N E m" "set N \<subseteq> set N'" "set E \<subseteq> set E'"
  shows "runs ph N' E' m"
proof (rule runsI)
  fix w
  from runsD[OF assms(1), where w = w] obtain evs where 1: "trace (snd (m w)) = trace w @ evs"
    and 2: "\<And>x. fst (m w) = Inr x \<Longrightarrow> phases ph evs \<in> set N"
    and 3: "\<And>e. fst (m w) = Inl e \<Longrightarrow> phases ph evs \<in> set E"
    by blast
  have "(case fst (m w) of Inr x \<Rightarrow> phases ph evs \<in> set N' | Inl e \<Rightarrow> phases ph evs \<in> set E')"
  proof (cases "fst (m w)")
    case (Inl e) then show ?thesis using 3[of e] assms(3) by auto
  next
    case (Inr x) then show ?thesis using 2[of x] assms(2) by auto
  qed
  then show "\<exists>evs. trace (snd (m w)) = trace w @ evs \<and>
     (case fst (m w) of Inr x \<Rightarrow> phases ph evs \<in> set N' | Inl e \<Rightarrow> phases ph evs \<in> set E')"
    using 1 by blast
qed

lemma runs_if:
  "runs ph N1 E1 a \<Longrightarrow> runs ph N2 E2 b \<Longrightarrow> runs ph (alt N1 N2) (alt E1 E2) (if c then a else b)"
  by (cases c) (auto elim!: runs_weaken simp: in_alt)

lemma runs_fetch0: "runs ph [opt (ph (Fetch r))] [opt (ph (Fetch r))] (fetch r)"
  by (rule runsI) (simp add: fetch_def Let_def phases_single split: fetch_outcome.splits)

lemma runs_fetch: "ph (Fetch r) = p \<Longrightarrow> runs ph [opt p] [opt p] (fetch r)"
  using runs_fetch0 [of ph r] by simp

lemma runs_getItem: "runs ph [[]] [[]] (getItem k)"
  by (rule runsI) (auto simp: getItem_def phases_Nil split: option.splits)

lemma runs_setItem0: "runs ph [opt (ph (StorageSet k v))] [[]] (setItem k v)"
  by (rule runsI) (simp add: setItem_def phases_single phases_Nil split: option.splits sum.splits)

lemma runs_setItem: "ph (StorageSet k v) = p \<Longrightarrow> runs ph [opt p] [[]] (setItem k v)"
  using runs_setItem0 [of ph] by auto

lemma runs_removeItem0: "runs ph [opt (ph (StorageRemove k))] [[]] (removeItem k)"
  by (rule runsI) (simp add: removeItem_def phases_single phases_Nil split: option.splits sum.splits)

lemma runs_removeItem: "ph (StorageRemove k) = p \<Longrightarrow> runs ph [opt p] [[]] (removeItem k)"
  using runs_removeItem0 [of ph] by auto

lemma runs_js_String: "runs ph [[]] [] (js_String v)"
  by (rule runsI) (simp add: js_String_def phases_Nil)

lemma runs_res_json: "runs ph [[]] [[]] (res_json r)"
  unfolding res_json_def by (rule runs_lift)

lemma runs_host_atob: "runs ph [[]] [[]] (host_atob s)"
  by (rule runsI) (simp add: host_atob_def phases_Nil split: sum.splits)

lemma runs_host_JSON_parse: "runs ph [[]] [[]] (host_JSON_parse s)"
  by (rule runsI) (simp add: host_JSON_parse_def phases_Nil split: sum.splits)

lemma runs_times: "runs ph [[]] [] (times_1000_before_now v)"
  by (rule runsI) (simp add: times_1000_before_now_def phases_Nil)

lemma runs_get_state: "runs ph [[]] [] (get_state n)"
  by (rule runsI) (simp add: get_state_def phases_Nil)

lemma runs_set_state0: "runs ph [opt (ph (SetState n v))] [] (set_state n v)"
  by (rule runsI) (simp add: set_state_def phases_single phases_Nil split: option.splits sum.splits)

lemma runs_set_state: "ph (SetState n v) = p \<Longrightarrow> runs ph [opt p] [] (set_state n v)"
  using runs_set_state0 [of ph] by auto

lemma runs_getAuthState: "runs ph [[]] [] getAuthState"
  by (rule runsI) (simp add: getAuthState_def phases_Nil)

lemma runs_setAuthState: "runs ph [[]] [] (setAuthState f)"
  by (rule runsI) (simp add: setAuthState_def phases_Nil)

lemma runs_navigate0: "runs ph [opt (ph (Navigate p))] [] (navigate p)"
  by (rule runsI) (simp add: navigate_def phases_single phases_Nil split: option.splits sum.splits)

lemma runs_navigate: "ph (Navigate p) = q \<Longrightarrow> runs ph [opt q] [] (navigate p)"
  using runs_navigate0 [of ph] by auto

lemma runs_alert0: "runs ph [opt (ph (Alert v))] [] (alert v)"
  by (rule runsI) (simp add: alert_def phases_single phases_Nil split: option.splits sum.splits)

lemma runs_alert: "ph (Alert v) = q \<Longrightarrow> runs ph [opt q] [] (alert v)"
  using runs_alert0 [of ph] by auto

lemma runs_js_Number: "runs ph [[]] [] (js_Number v)"
  by (rule runsI) (simp add: js_Number_def phases_Nil)

lemma runs_js_parseFloat: "runs ph [[]] [] (js_parseFloat v)"
  by (rule runsI) (simp add: js_parseFloat_def phases_Nil)

lemma runs_mk_defined: "runs ph [[]] [] mk_defined"
  by (rule runsI) (simp add: mk_defined_def phases_Nil)

lemma runs_mk_isInstalled: "runs ph [[]] [[]] mk_isInstalled"
  by (rule runsI) (simp add: mk_isInstalled_def phases_Nil split: sum.splits)

lemma runs_mk_has_walletAuth: "runs ph [[]] [] mk_has_walletAuth"
  by (rule runsI) (simp add: mk_has_walletAuth_def phases_Nil)

lemma runs_mk_install0: "runs ph [opt (ph (MiniKitInstall a))] [opt (ph (MiniKitInstall a))] (mk_install a)"
  by (rule runsI) (simp add: mk_install_def Let_def phases_single phases_Nil split: option.splits sum.splits)

lemma runs_mk_install: "ph (MiniKitInstall a) = p \<Longrightarrow> runs ph [opt p] [opt p] (mk_install a)"
  using runs_mk_install0 [of ph] by auto

lemma runs_mk_walletAuth0: "runs ph [opt (ph (WalletAuth n))] [opt (ph (WalletAuth n))] (mk_walletAuth n)"
  by (rule runsI) (simp add: mk_walletAuth_def phases_single phases_Nil split: option.splits sum.splits)

lemma runs_mk_walletAuth: "ph (WalletAuth n) = p \<Longrightarrow> runs ph [opt p] [opt p] (mk_walletAuth n)"
  using runs_mk_walletAuth0 [of ph] by auto

lemma runs_get_window_trigger: "runs ph [[]] [] get_window_trigger"
  by (rule runsI) (simp add: get_window_trigger_def phases_Nil)

lemma runs_case_option:
  "runs ph N1 E1 a \<Longrightarrow> (\<And>v. runs ph N2 E2 (f v))
   \<Longrightarrow> runs ph (alt N1 N2) (alt E1 E2) (case x of None \<Rightarrow> a | Some v \<Rightarrow> f v)"
proof (cases x)
  case None
  assume "runs ph N1 E1 a"
  then show ?thesis using None by (auto elim!: runs_weaken simp: in_alt)
next
  case (Some v)
  assume "\<And>v. runs ph N2 E2 (f v)"
  then have "runs ph N2 E2 (f v)" .
  then show ?thesis using Some by (auto elim!: runs_weaken simp: in_alt)
qed

lemma runs_host_Date_now: "runs ph [[]] [] host_Date_now"
  by (rule runsI) (simp add: host_Date_now_def phases_Nil)

lemmas runs_rules = runs_get_window_trigger runs_case_option runs_host_Date_now runs_return runs_throw runs_lift runs_bind runs_try runs_finally
  runs_catch_value runs_if runs_fetch runs_getItem runs_setItem runs_removeItem runs_js_String
  runs_res_json runs_host_atob runs_host_JSON_parse runs_times runs_get_state runs_set_state
  runs_getAuthState runs_setAuthState runs_navigate runs_alert runs_js_Number runs_js_parseFloat
  runs_mk_defined runs_mk_isInstalled runs_mk_has_walletAuth runs_mk_install runs_mk_walletAuth

lemmas sum_eval = cat_def alt_def

lemma runs_throw_new_Error: "runs ph [] [[]] (throw_new_Error v)"
  unfolding throw_new_Error_def
  by (rule runs_weaken, (rule runs_rules | simp add: sum_eval)+)

lemma runs_caught: "runs ph [[]] [] (caught s e)"
  unfolding caught_def by (rule runs_return)

lemma runs_AuthService_getHeaders_False: "runs ph [[]] [] (AuthService_getHeaders this False)"
  unfolding AuthService_getHeaders_def Let_def
  by (simp add: runs_return)

lemma runs_message_or_status: "runs ph [[]] [[]] (message_or_status b t r)"
  unfolding message_or_status_def
  by (rule runs_weaken, (rule runs_rules | simp add: sum_eval)+)

lemma hs_getNonce: "runs (handshake_phase this) [[1]] [] (getNonce this)"
  unfolding getNonce_def
  by (rule runs_weaken,
      (rule runs_rules runs_caught runs_AuthService_getHeaders_False runs_message_or_status
       | simp add: sum_eval handshake_phase_def)+)

lemmas hs_simps = sum_eval handshake_phase_def SESSION_TOKEN_KEY_def WALLET_ADDRESS_KEY_def

lemma hs_verifyWalletSignature:
  "runs (handshake_phase this) [[3], [3, 4], [3, 4, 4]] [] (verifyWalletSignature this p n)"
  unfolding verifyWalletSignature_def
  by (rule runs_weaken,
      (rule runs_rules runs_caught runs_AuthService_getHeaders_False runs_message_or_status
       | simp add: hs_simps)+)

lemma hs_storeSessionData:
  "runs (handshake_phase this) [[], [4], [4, 4]] [] (storeSessionData t a)"
  unfolding storeSessionData_def
  by (rule runs_weaken, (rule runs_rules | simp add: hs_simps)+)

lemma hs_login:
  "runs (handshake_phase this) [[], [4], [4, 4]] [] (login t a b)"
  unfolding login_def
  by (rule runs_weaken, (rule runs_rules hs_storeSessionData | simp add: hs_simps)+)

lemma hs_getNonceForMiniKit:
  "runs (handshake_phase this) [[1]] [[1]] (getNonceForMiniKit this)"
  unfolding getNonceForMiniKit_def
  by (rule runs_weaken, (rule runs_rules hs_getNonce runs_throw_new_Error | simp add: hs_simps)+)

lemma hs_triggerMiniKitWalletAuth:
  "runs (handshake_phase this) [[2]] [[], [2]] (triggerMiniKitWalletAuth e n)"
  unfolding triggerMiniKitWalletAuth_def
  by (rule runs_weaken, (rule runs_rules | simp add: hs_simps)+)

lemma runs_message_object: "runs ph [[]] [[]] (message_object v)"
  by (cases v) (auto intro: runs_weaken[OF runs_return] runs_host_JSON_parse)

lemma hs_loginWithWallet:
  "runs (handshake_phase this) [[3], [3, 4], [3, 4, 4], [3, 4, 4, 4], [3, 4, 4, 4, 4]]
     [[], [3], [3, 4], [3, 4, 4]] (loginWithWallet this a)"
  unfolding loginWithWallet_def
  by (rule runs_weaken,
      (rule runs_rules hs_verifyWalletSignature hs_login runs_throw_new_Error runs_message_object
       | simp add: hs_simps)+)

lemma hs_window_trigger:
  "runs (handshake_phase this) (prefixes handshake) (prefixes handshake)
     (window_trigger e this attempting)"
  unfolding window_trigger_def
  by (rule runs_weaken,
      (rule runs_rules hs_getNonceForMiniKit hs_triggerMiniKitWalletAuth hs_loginWithWallet
       | simp add: hs_simps isAttemptingAuthViaWindow_def handshake_def)+)

lemma hs_call_window_trigger:
  "runs (handshake_phase this) (prefixes handshake) (prefixes handshake)
     (call_window_trigger e this)"
  unfolding call_window_trigger_def
  by (rule runs_weaken,
      (rule runs_rules runs_throw hs_window_trigger | simp add: hs_simps handshake_def)+)

lemma hs_handleConnectWallet:
  "runs (handshake_phase this) (prefixes handshake) (prefixes handshake) (handleConnectWallet e this)"
  unfolding handleConnectWallet_def
  by (rule runs_weaken,
      (rule runs_rules hs_getNonceForMiniKit hs_triggerMiniKitWalletAuth hs_loginWithWallet
       hs_call_window_trigger
       | simp add: hs_simps isConnectingWallet_def pageError_def handshake_def)+)

section \<open>The two authentication requests\<close>

lemmas io_defs = io_return_def io_throw_def io_bind_def io_lift_def io_try_def
  io_catch_value_def res_json_def js_String_def throw_new_Error_def caught_def

lemma get_prop_throws: "get_prop b p = Inl x \<Longrightarrow> get_prop b q = Inr y \<Longrightarrow> False"
  by (cases b) auto

lemma getNonce_ok:
  assumes "net w (nfetch w) (nonce_request this) = Responded res" "ok res"
  shows "getNonce this w =
    (Inr (if truthy (body_field res ''nonce'')
          then JObj [(''success'', JBool True), (''nonce'', body_field res ''nonce'')]
          else failure (JStr (case json res of
                  Inl e \<Rightarrow> str_or (message e) ''Network error while fetching nonce''
                | Inr data \<Rightarrow> (case get_prop data ''nonce'' of
                     Inl e \<Rightarrow> str_or (message e) ''Network error while fetching nonce''
                   | Inr n \<Rightarrow> ''Nonce not found in response'')))),
     w\<lparr>trace := trace w @ [Fetch (nonce_request this)]\<rparr>)"
  using assms
  by (simp add: getNonce_def AuthService_getHeaders_def io_defs fetch_def nfetch_def nonce_request_def
      body_field_def field_def split: sum.splits)

lemma verify_ok:
  assumes "net w (nfetch w) (verify_request this payload nonce) = Responded res" "ok res"
  shows "verifyWalletSignature this payload nonce w =
    (let w1 = w\<lparr>trace := trace w @ [Fetch (verify_request this payload nonce)]\<rparr>;
         token = body_field res ''token''; address = body_field res ''walletAddress'';
         t = js_str w token; a = js_str w address
     in if \<not> (truthy token \<and> truthy address) then
          (Inr (failure (JStr (case json res of
                  Inl e \<Rightarrow> str_or (message e) ''Network error during verification''
                | Inr data \<Rightarrow> (case get_prop data ''token'' of
                     Inl e \<Rightarrow> str_or (message e) ''Network error during verification''
                   | Inr n \<Rightarrow> ''Token or wallet address missing from response'')))), w1)
        else case storage_throws w (SetItem SESSION_TOKEN_KEY t) of
          Some e \<Rightarrow> (Inr (failure (JStr (str_or (message e) ''Network error during verification''))), w1)
        | None \<Rightarrow>
           (let w2 = w1\<lparr>storage := (storage w)(SESSION_TOKEN_KEY \<mapsto> t),
                         trace := trace w1 @ [StorageSet SESSION_TOKEN_KEY t]\<rparr>
            in case storage_throws w (SetItem WALLET_ADDRESS_KEY a) of
              Some e \<Rightarrow> (Inr (failure (JStr (str_or (message e) ''Network error during verification''))), w2)
            | None \<Rightarrow> (Inr (JObj [(''success'', JBool True), (''token'', token), (''walletAddress'', address)]),
                  w2\<lparr>storage := (storage w2)(WALLET_ADDRESS_KEY \<mapsto> a),
                     trace := trace w2 @ [StorageSet WALLET_ADDRESS_KEY a]\<rparr>)))"
  using assms
  apply (simp add: verifyWalletSignature_def AuthService_getHeaders_def io_defs fetch_def nfetch_def verify_request_def
      body_field_def field_def setItem_def Let_def js_str_def split: sum.splits option.splits)
  apply (cases "json res")
   apply (auto simp: io_defs body_field_def field_def setItem_def Let_def split: sum.splits option.splits dest: get_prop_throws)
  done

lemma failed_failure: "failed (Inr (failure e))"
  by (simp add: failed_def failure_def)

lemma verify_rejected:
  assumes "net w (nfetch w) (verify_request this payload nonce) = Rejected e"
  shows "verifyWalletSignature this payload nonce w =
    (Inr (failure (JStr (str_or (message e) ''Network error during verification''))),
     w\<lparr>trace := trace w @ [Fetch (verify_request this payload nonce)]\<rparr>)"
  using assms
  by (simp add: verifyWalletSignature_def AuthService_getHeaders_def io_defs fetch_def nfetch_def
      verify_request_def)

lemma verify_not_ok:
  assumes "net w (nfetch w) (verify_request this payload nonce) = Responded res" "\<not> ok res"
  shows "verifyWalletSignature this payload nonce w =
    (Inr (failure (case json res of
             Inl e \<Rightarrow> JStr (''Verification failed ('' @ show_nat (status res) @ '')'')
           | Inr b \<Rightarrow> (case get_prop b ''message'' of
                Inl e \<Rightarrow> JStr (str_or (message e) ''Network error during verification'')
              | Inr m \<Rightarrow> js_or m (JStr (''Verification failed ('' @ show_nat (status res) @ '')''))))),
     w\<lparr>trace := trace w @ [Fetch (verify_request this payload nonce)]\<rparr>)"
  using assms
  by (simp add: verifyWalletSignature_def AuthService_getHeaders_def io_defs fetch_def nfetch_def
      verify_request_def message_or_status_def js_or_def split: sum.splits)

lemma runs_ordered:
  assumes "runs (handshake_phase this) (prefixes handshake) (prefixes handshake) m"
  shows "handshake_ordered this w (snd (m w))"
proof -
  from runsD[OF assms, where w = w] obtain evs where 1: "trace (snd (m w)) = trace w @ evs"
    and 2: "\<And>x. fst (m w) = Inr x \<Longrightarrow> phases (handshake_phase this) evs \<in> set (prefixes handshake)"
    and 3: "\<And>e. fst (m w) = Inl e \<Longrightarrow> phases (handshake_phase this) evs \<in> set (prefixes handshake)"
    by blast
  have "phases (handshake_phase this) evs \<in> set (prefixes handshake)"
    using 2 3 by (cases "fst (m w)") auto
  then show ?thesis using 1 by (simp add: handshake_ordered_def new_events_def in_set_prefixes)
qed

lemma verify_no_write:
  assumes "case net w (nfetch w) (verify_request this payload nonce) of
             Rejected e \<Rightarrow> True
           | Responded res \<Rightarrow> \<not> (ok res \<and> truthy (body_field res ''token'')
                                  \<and> truthy (body_field res ''walletAddress''))"
  shows "no_session_written this payload nonce w"
proof (cases "net w (nfetch w) (verify_request this payload nonce)")
  case (Rejected e)
  show ?thesis unfolding no_session_written_def verify_rejected[OF Rejected]
    by (simp add: failed_failure)
next
  case (Responded res)
  show ?thesis
  proof (cases "ok res")
    case False
    show ?thesis unfolding no_session_written_def verify_not_ok[OF Responded False]
      by (simp add: failed_failure)
  next
    case True
    then have "\<not> (truthy (body_field res ''token'') \<and> truthy (body_field res ''walletAddress''))"
      using assms Responded by simp
    then show ?thesis unfolding no_session_written_def verify_ok[OF Responded True]
      by (auto simp: failed_failure Let_def)
  qed
qed

lemma verify_write:
  assumes "net w (nfetch w) (verify_request this payload nonce) = Responded res" "ok res"
    "truthy (body_field res ''token'')" "truthy (body_field res ''walletAddress'')"
  shows "session_written_after_ok this payload nonce res w"
  unfolding session_written_after_ok_def verify_ok[OF assms(1,2)]
  using assms(3,4)
  by (auto simp: Let_def failed_failure succeeded_def failed_def failure_def split: option.splits)

lemmas eval_defs = io_defs io_finally_def fetch_def fetches_def nfetch_def getItem_def setItem_def
  removeItem_def get_state_def set_state_def getAuthState_def setAuthState_def navigate_def
  alert_def mk_defined_def mk_isInstalled_def mk_install_def mk_has_walletAuth_def
  mk_walletAuth_def get_window_trigger_def call_window_trigger_def host_JSON_parse_def host_atob_def
  AuthService_getHeaders_def with_api_key_def with_bearer_def message_or_status_def
  failure_def ok_def js_or_def str_or_def Let_def

lemma happy_trace:
  "trace (snd (handleConnectWallet sample_env sample_service happy_world)) =
     [SetState isConnectingWallet (JBool True), SetState pageError JNull,
      Fetch \<lparr>req_method = GET, url = ''https://api.example/auth/nonce'',
             headers = [(''Content-Type'', ''application/json'')], body = None\<rparr>,
      WalletAuth (JStr ''nonce-12345''),
      Fetch \<lparr>req_method = POST, url = ''https://api.example/auth/verify-signature'',
             headers = [(''Content-Type'', ''application/json'')],
             body = Some (JObj [(''payload'', JObj [(''status'', JStr ''success''),
                          (''message'', JObj [(''nonce'', JStr ''nonce-12345'')])]),
                    (''nonce'', JStr ''nonce-12345'')])\<rparr>,
      StorageSet SESSION_TOKEN_KEY ''tok'', StorageSet WALLET_ADDRESS_KEY ''0xabc'',
      StorageSet SESSION_TOKEN_KEY ''tok'', StorageSet WALLET_ADDRESS_KEY ''0xabc'',
      Navigate ''/dashboard'', SetState isConnectingWallet (JBool False)]"
  by (simp add: handleConnectWallet_def getNonceForMiniKit_def getNonce_def
      triggerMiniKitWalletAuth_def loginWithWallet_def verifyWalletSignature_def login_def
      storeSessionData_def eval_defs sample_env_def sample_service_def happy_world_def
      offline_world_def isConnectingWallet_def pageError_def)

section \<open>C1: the wallet-authentication handshake\<close>

text \<open>
  C1. The handshake is sequential: nonce fetch, wallet signs the nonce, signature posted
  to the backend, session stored. First, \<open>verifyWalletSignature\<close>: when the request to
  \<open>/auth/verify-signature\<close> fails at the network, or the response is not OK, or its body
  has no (truthy) \<open>token\<close> or \<open>walletAddress\<close>, the result has \<open>success = false\<close>,
  \<open>localStorage\<close> is unchanged and the only effect is the request; otherwise the two
  \<open>setItem\<close> calls come after the request, in the order token, wallet address, and the
  result has \<open>success = true\<close> exactly when both were made. Second, in every run of
  \<open>handleConnectWallet\<close> and of \<open>window.__triggerWalletAuth\<close>, from any world, the
  requests to \<open>/auth/nonce\<close> (phase 1), the \<open>walletAuth\<close> command (2), the request to
  \<open>/auth/verify-signature\<close> (3) and the writes of the two session keys (4) occur as a
  prefix of the sequence 1, 2, 3, 4, 4, 4, 4 (the session is written by
  \<open>verifyWalletSignature\<close> and again by \<open>login\<close>); no other request, storage write or
  removal occurs.
\<close>

theorem wallet_handshake_sequential:
  "(case net w (nfetch w) (verify_request this payload nonce) of
      Rejected e \<Rightarrow> no_session_written this payload nonce w
    | Responded res \<Rightarrow>
        if ok res \<and> truthy (body_field res ''token'') \<and> truthy (body_field res ''walletAddress'')
        then session_written_after_ok this payload nonce res w
        else no_session_written this payload nonce w)
   \<and> handshake_ordered this w (snd (handleConnectWallet e this w))
   \<and> handshake_ordered this w (snd (window_trigger e this attempting w))"
proof (intro conjI)
  show "case net w (nfetch w) (verify_request this payload nonce) of
      Rejected e \<Rightarrow> no_session_written this payload nonce w
    | Responded res \<Rightarrow>
        if ok res \<and> truthy (body_field res ''token'') \<and> truthy (body_field res ''walletAddress'')
        then session_written_after_ok this payload nonce res w
        else no_session_written this payload nonce w"
  proof (cases "net w (nfetch w) (verify_request this payload nonce)")
    case (Rejected e)
    then show ?thesis using verify_no_write[of w this payload nonce] by simp
  next
    case (Responded res)
    then show ?thesis
      using verify_no_write[of w this payload nonce] verify_write[of w this payload nonce res]
      by auto
  qed
  show "handshake_ordered this w (snd (handleConnectWallet e this w))"
    by (rule runs_ordered[OF hs_handleConnectWallet])
  show "handshake_ordered this w (snd (window_trigger e this attempting w))"
    by (rule runs_ordered[OF hs_window_trigger])
qed

text \<open>
  With the network down nothing is stored; with a backend and a wallet that answer, the
  run of \<open>handleConnectWallet\<close> goes through all four steps in order.
\<close>

theorem wallet_handshake_sequential_witness:
  "no_session_written sample_service JNull (JStr ''nonce-12345'') offline_world
   \<and> handshake_ordered sample_service happy_world
        (snd (handleConnectWallet sample_env sample_service happy_world))
   \<and> phases (handshake_phase sample_service)
        (new_events happy_world (snd (handleConnectWallet sample_env sample_service happy_world)))
      = [1, 2, 3, 4, 4, 4, 4]"
proof (intro conjI)
  show "no_session_written sample_service JNull (JStr ''nonce-12345'') offline_world"
    using wallet_handshake_sequential
      [where w = offline_world and this = sample_service and payload = JNull
         and nonce = "JStr ''nonce-12345''" and e = sample_env]
    by (simp add: offline_world_def)
  show "handshake_ordered sample_service happy_world
        (snd (handleConnectWallet sample_env sample_service happy_world))"
    using wallet_handshake_sequential
      [where w = happy_world and this = sample_service and payload = JNull
         and nonce = JNull and e = sample_env]
    by simp
  show "phases (handshake_phase sample_service)
        (new_events happy_world (snd (handleConnectWallet sample_env sample_service happy_world)))
      = [1, 2, 3, 4, 4, 4, 4]"
    unfolding new_events_def happy_trace
    by (simp add: happy_world_def offline_world_def phases_def
        List.map_filter_def handshake_phase_def sample_service_def SESSION_TOKEN_KEY_def
        WALLET_ADDRESS_KEY_def)
qed

section \<open>C2: what a service method does on failure\<close>

lemma io_try_returns:
  assumes "\<And>e w. \<exists>v. fst (h e w) = Inr v"
  shows "\<exists>v. fst (io_try m h w) = Inr v"
proof (cases "m w")
  case (Pair r w')
  show ?thesis
  proof (cases r)
    case (Inl e)
    then show ?thesis using Pair assms[of e w'] by (simp add: io_try_def)
  next
    case (Inr x)
    then show ?thesis using Pair by (simp add: io_try_def)
  qed
qed

lemma caught_returns: "\<exists>v. fst (caught s e w) = Inr v"
  by (simp add: caught_def io_return_def)

text \<open>
  Every public method of the three services but one is a \<open>try\<close> whose handler returns
  a record, so it returns whatever its body does.
\<close>

lemma service_methods_return:
  "\<exists>v. fst (getNonce this w) = Inr v"
  "\<exists>v. fst (verifyWalletSignature this payload nonce w) = Inr v"
  "\<exists>v. fst (verifyWorldIdProof this idkit_proof w) = Inr v"
  "\<exists>v. fst (AuthService_logout w) = Inr v"
  "\<exists>v. fst (verifyToken token w) = Inr v"
  "\<exists>v. fst (createCampaign this payload w) = Inr v"
  "\<exists>v. fst (fetchAllCampaigns this w) = Inr v"
  "\<exists>v. fst (fetchCampaign this cid w) = Inr v"
  "\<exists>v. fst (updateCampaign this cid payload w) = Inr v"
  "\<exists>v. fst (deleteCampaign this cid w) = Inr v"
  "\<exists>v. fst (recordDonation this cid amount txHash w) = Inr v"
  "\<exists>v. fst (fetchUserCampaigns this address w) = Inr v"
  "\<exists>v. fst (donateWLD e cid amount txHash w) = Inr v"
  "\<exists>v. fst (getDonationInstructions cid w) = Inr v"
  "\<exists>v. fst (verifyTransaction tx rnd_from rnd_amount w) = Inr v"
  unfolding getNonce_def verifyWalletSignature_def verifyWorldIdProof_def AuthService_logout_def
    verifyToken_def createCampaign_def fetchAllCampaigns_def fetchCampaign_def updateCampaign_def
    deleteCampaign_def recordDonation_def fetchUserCampaigns_def donateWLD_def
    getDonationInstructions_def verifyTransaction_def
  by (rule io_try_returns caught_returns | simp add: io_return_def)+

text \<open>
  C2. No public service method throws to its caller. \<open>checkAuthStatus\<close> does: its
  \<open>catch\<close> handler calls \<open>localStorage.removeItem\<close> outside any \<open>try\<close>, so in a browser
  that denies storage access the error of \<open>getItem\<close> is caught and the same error is
  thrown again by the handler. The sibling \<open>logout\<close> guards its \<open>removeItem\<close> calls and
  returns \<open>{ success: false, error }\<close> in the same browser.
\<close>

theorem checkAuthStatus_throws_when_storage_denied:
  "fst (checkAuthStatus denied_world) = Inl (JsError ''The operation is insecure.'')"
  by (simp add: checkAuthStatus_def getItem_def removeItem_def io_defs denied_world_def
      offline_world_def)

lemma logout_returns_when_storage_denied:
  "fst (AuthService_logout denied_world) = Inr (failure (JStr ''The operation is insecure.''))"
  by (simp add: AuthService_logout_def removeItem_def io_defs denied_world_def
      offline_world_def str_or_def)

section \<open>C7: checks on response bodies\<close>

lemma getNonce_presence:
  assumes "net w (nfetch w) (nonce_request this) = Responded res" "ok res"
  shows "failed (fst (getNonce this w)) \<longleftrightarrow> \<not> truthy (body_field res ''nonce'')"
    and "succeeded (fst (getNonce this w)) \<longleftrightarrow> truthy (body_field res ''nonce'')"
    and "failed (fst (getNonce this w)) \<longrightarrow> is_string (error_of (fst (getNonce this w)))"
    and "succeeded (fst (getNonce this w)) \<longrightarrow>
           fst (getNonce this w) =
             Inr (JObj [(''success'', JBool True), (''nonce'', body_field res ''nonce'')])"
  unfolding getNonce_ok[OF assms]
  by (simp_all add: failed_def succeeded_def failure_def error_of_def field_def)

lemma verify_presence:
  assumes "net w (nfetch w) (verify_request this payload nonce) = Responded res" "ok res"
  shows "failed (fst (verifyWalletSignature this payload nonce w)) \<longleftrightarrow>
           \<not> (truthy (body_field res ''token'') \<and> truthy (body_field res ''walletAddress'')
              \<and> session_writable w res)"
    and "succeeded (fst (verifyWalletSignature this payload nonce w)) \<longleftrightarrow>
           truthy (body_field res ''token'') \<and> truthy (body_field res ''walletAddress'')
           \<and> session_writable w res"
    and "failed (fst (verifyWalletSignature this payload nonce w)) \<longrightarrow>
           is_string (error_of (fst (verifyWalletSignature this payload nonce w)))"
    and "succeeded (fst (verifyWalletSignature this payload nonce w)) \<longrightarrow>
           fst (verifyWalletSignature this payload nonce w) =
             Inr (JObj [(''success'', JBool True), (''token'', body_field res ''token''),
                        (''walletAddress'', body_field res ''walletAddress'')])"
  unfolding verify_ok[OF assms]
  by (auto simp add: Let_def failed_def succeeded_def failure_def error_of_def field_def
      session_writable_def split: option.splits)

text \<open>
  C7, as amended. On an HTTP-OK response, \<open>getNonce\<close> returns \<open>success = false\<close> (with a
  string \<open>error\<close>) exactly when the body's \<open>nonce\<close> is not truthy: the body is not JSON, is
  \<open>null\<close>, has no \<open>nonce\<close>, or its \<open>nonce\<close> is \<open>null\<close>, \<open>false\<close>, \<open>0\<close> or the empty
  string; otherwise it returns that \<open>nonce\<close> as received. \<open>verifyWalletSignature\<close> returns
  \<open>success = false\<close> exactly when the body's \<open>token\<close> or \<open>walletAddress\<close> is not truthy
  or one of its two \<open>localStorage.setItem\<close> calls throws; otherwise it returns both
  values as received. No other validation is applied.
\<close>

theorem presence_checks_on_ok_responses:
  "(net w (nfetch w) (nonce_request this) = Responded res \<and> ok res \<longrightarrow>
      (failed (fst (getNonce this w)) \<longleftrightarrow> \<not> truthy (body_field res ''nonce''))
      \<and> (succeeded (fst (getNonce this w)) \<longleftrightarrow> truthy (body_field res ''nonce''))
      \<and> (failed (fst (getNonce this w)) \<longrightarrow> is_string (error_of (fst (getNonce this w))))
      \<and> (succeeded (fst (getNonce this w)) \<longrightarrow>
           fst (getNonce this w) =
             Inr (JObj [(''success'', JBool True), (''nonce'', body_field res ''nonce'')])))
   \<and> (net w (nfetch w) (verify_request this payload nonce) = Responded res \<and> ok res \<longrightarrow>
      (failed (fst (verifyWalletSignature this payload nonce w)) \<longleftrightarrow>
           \<not> (truthy (body_field res ''token'') \<and> truthy (body_field res ''walletAddress'')
              \<and> session_writable w res))
      \<and> (succeeded (fst (verifyWalletSignature this payload nonce w)) \<longleftrightarrow>
           truthy (body_field res ''token'') \<and> truthy (body_field res ''walletAddress'')
           \<and> session_writable w res)
      \<and> (failed (fst (verifyWalletSignature this payload nonce w)) \<longrightarrow>
           is_string (error_of (fst (verifyWalletSignature this payload nonce w))))
      \<and> (succeeded (fst (verifyWalletSignature this payload nonce w)) \<longrightarrow>
           fst (verifyWalletSignature this payload nonce w) =
             Inr (JObj [(''success'', JBool True), (''token'', body_field res ''token''),
                        (''walletAddress'', body_field res ''walletAddress'')])))"
  using getNonce_presence[of w this res] verify_presence[of w this payload nonce res]
  by blast

text \<open>
  A numeric nonce is accepted and returned as it is; a body with a token and no wallet
  address is refused.
\<close>

theorem presence_checks_on_ok_responses_witness:
  "succeeded (fst (getNonce sample_service
      (responding 200 (Inr (JObj [(''nonce'', JNum 7)])))))
   \<and> fst (getNonce sample_service (responding 200 (Inr (JObj [(''nonce'', JNum 7)]))))
       = Inr (JObj [(''success'', JBool True), (''nonce'', JNum 7)])
   \<and> failed (fst (verifyWalletSignature sample_service JNull JNull
      (responding 200 (Inr (JObj [(''token'', JStr ''tok'')])))))"
proof -
  let ?b = "Inr (JObj [(''nonce'', JNum 7)]) :: js_error + jsval"
  let ?c = "Inr (JObj [(''token'', JStr ''tok'')]) :: js_error + jsval"
  have n: "net (responding 200 ?b) (nfetch (responding 200 ?b)) (nonce_request sample_service)
        = Responded \<lparr>status = 200, json = ?b\<rparr>"
    by (simp add: responding_def offline_world_def)
  have v: "net (responding 200 ?c) (nfetch (responding 200 ?c))
         (verify_request sample_service JNull JNull)
        = Responded \<lparr>status = 200, json = ?c\<rparr>"
    by (simp add: responding_def offline_world_def)
  have k: "ok \<lparr>status = 200, json = ?b\<rparr>" "ok \<lparr>status = 200, json = ?c\<rparr>"
    by (simp_all add: ok_def)
  have t: "truthy (body_field \<lparr>status = 200, json = ?b\<rparr> ''nonce'')"
    "body_field \<lparr>status = 200, json = ?b\<rparr> ''nonce'' = JNum 7"
    "\<not> truthy (body_field \<lparr>status = 200, json = ?c\<rparr> ''walletAddress'')"
    by (simp_all add: body_field_def field_def)
  show ?thesis
    using presence_checks_on_ok_responses
      [where w = "responding 200 ?b" and this = sample_service
         and res = "\<lparr>status = 200, json = ?b\<rparr>" and payload = JNull and nonce = JNull]
      presence_checks_on_ok_responses
      [where w = "responding 200 ?c" and this = sample_service
         and res = "\<lparr>status = 200, json = ?c\<rparr>" and payload = JNull and nonce = JNull]
      n v k t
    by simp
qed

text \<open>
  The claim as stated fails: the body \<open>{"nonce": ""}\<close> of an OK response has a \<open>nonce\<close>
  field, and \<open>getNonce\<close> returns \<open>success = false\<close>.
\<close>

theorem empty_nonce_counterexample:
  "has_field (JObj [(''nonce'', JStr [])]) ''nonce''
   \<and> ok \<lparr>status = 200, json = Inr (JObj [(''nonce'', JStr [])])\<rparr>
   \<and> fst (getNonce sample_service (responding 200 (Inr (JObj [(''nonce'', JStr [])]))))
       = Inr (failure (JStr ''Nonce not found in response''))"
  by (simp add: has_field_def ok_def getNonce_def AuthService_getHeaders_def eval_defs
      responding_def offline_world_def sample_service_def)

section \<open>C9: the two session keys\<close>

lemma keys_distinct: "SESSION_TOKEN_KEY \<noteq> WALLET_ADDRESS_KEY"
  by (simp add: SESSION_TOKEN_KEY_def WALLET_ADDRESS_KEY_def)

lemma storeSessionData_pair:
  assumes "writes_allowed w token address"
  shows "both_keys (snd (storeSessionData token address w)) = (Some (js_str w token), Some (js_str w address))"
  using assms keys_distinct
  by (simp add: writes_allowed_def both_keys_def storeSessionData_def io_defs setItem_def js_str_def)

lemma login_pair:
  assumes "writes_allowed w token address"
  shows "both_keys (snd (login token address nav w)) = (Some (js_str w token), Some (js_str w address))"
proof -
  have "storage (snd (login token address nav w)) = storage (snd (storeSessionData token address w))"
    by (cases "storeSessionData token address w")
       (auto simp: login_def io_defs setAuthState_def navigate_def storeSessionData_def
          split: sum.splits prod.splits)
  then show ?thesis using storeSessionData_pair[OF assms] by (simp add: both_keys_def)
qed

lemma verify_pair:
  assumes "succeeded (fst (verifyWalletSignature this payload nonce w))"
  shows "case net w (nfetch w) (verify_request this payload nonce) of
           Rejected e \<Rightarrow> False
         | Responded res \<Rightarrow>
             both_keys (snd (verifyWalletSignature this payload nonce w))
               = (Some (js_str w (body_field res ''token'')),
                  Some (js_str w (body_field res ''walletAddress'')))"
proof (cases "net w (nfetch w) (verify_request this payload nonce)")
  case (Rejected e)
  then show ?thesis using assms unfolding verify_rejected[OF Rejected]
    by (simp add: succeeded_def failure_def)
next
  case (Responded res)
  show ?thesis
  proof (cases "ok res")
    case False
    then show ?thesis using assms unfolding verify_not_ok[OF Responded False]
      by (simp add: succeeded_def failure_def)
  next
    case True
    show ?thesis using assms keys_distinct unfolding verify_ok[OF Responded True] Responded
      by (auto simp: Let_def succeeded_def failure_def both_keys_def split: if_splits option.splits)
  qed
qed

lemma clear_pair:
  assumes "removals_allowed w"
  shows "both_keys (snd (clearStoredSessionData w)) = (None, None)"
    and "both_keys (snd (AuthService_logout w)) = (None, None)"
    and "succeeded (fst (AuthService_logout w))"
  using assms
  by (simp_all add: removals_allowed_def both_keys_def clearStoredSessionData_def
      AuthService_logout_def io_defs removeItem_def succeeded_def)

lemma checkAuthStatus_iff:
  assumes "reads_allowed w"
  shows "reports_authenticated (fst (checkAuthStatus w)) \<longleftrightarrow>
           env_truthy (storage w SESSION_TOKEN_KEY) \<and> env_truthy (storage w WALLET_ADDRESS_KEY)"
  using assms
  by (simp add: reads_allowed_def checkAuthStatus_def io_defs getItem_def reports_authenticated_def)

text \<open>
  C9, as amended. Where the \<open>localStorage\<close> accesses involved do not throw:
  \<open>storeSessionData\<close> (and \<open>login\<close>, which calls it) sets both session keys, a
  successful \<open>verifyWalletSignature\<close> has set both to the response's \<open>token\<close> and
  \<open>walletAddress\<close>, \<open>clearStoredSessionData\<close> and \<open>AuthService.logout\<close> remove both, and
  \<open>checkAuthStatus\<close> reports \<open>isAuthenticated = true\<close> exactly when both keys hold
  non-empty strings.
\<close>

theorem session_keys_paired:
  "(writes_allowed w token address \<longrightarrow>
      both_keys (snd (storeSessionData token address w))
        = (Some (js_str w token), Some (js_str w address))
      \<and> both_keys (snd (login token address nav w))
        = (Some (js_str w token), Some (js_str w address)))
   \<and> (succeeded (fst (verifyWalletSignature this payload nonce w)) \<longrightarrow>
        (case net w (nfetch w) (verify_request this payload nonce) of
           Rejected e \<Rightarrow> False
         | Responded res \<Rightarrow>
             both_keys (snd (verifyWalletSignature this payload nonce w))
               = (Some (js_str w (body_field res ''token'')),
                  Some (js_str w (body_field res ''walletAddress'')))))
   \<and> (removals_allowed w \<longrightarrow>
        both_keys (snd (clearStoredSessionData w)) = (None, None)
        \<and> both_keys (snd (AuthService_logout w)) = (None, None))
   \<and> (reads_allowed w \<longrightarrow>
        (reports_authenticated (fst (checkAuthStatus w)) \<longleftrightarrow>
           env_truthy (storage w SESSION_TOKEN_KEY) \<and> env_truthy (storage w WALLET_ADDRESS_KEY)))"
  using storeSessionData_pair[of w token address] login_pair[of w token address nav]
    verify_pair[of this payload nonce w] clear_pair(1,2)[of w] checkAuthStatus_iff[of w]
  by blast

text \<open>
  \<open>login\<close> stores the pair; the pair is cleared together; a stored empty token is not a
  session.
\<close>

theorem session_keys_paired_witness:
  "both_keys (snd (login (JStr ''tok'') (JStr ''0xabc'') True offline_world))
     = (Some ''tok'', Some ''0xabc'')
   \<and> both_keys (snd (clearStoredSessionData empty_token_world)) = (None, None)
   \<and> \<not> reports_authenticated (fst (checkAuthStatus empty_token_world))"
proof -
  have a: "writes_allowed offline_world (JStr ''tok'') (JStr ''0xabc'')"
    by (simp add: writes_allowed_def offline_world_def)
  have b: "removals_allowed empty_token_world" "reads_allowed empty_token_world"
    by (simp_all add: removals_allowed_def reads_allowed_def empty_token_world_def
        offline_world_def)
  have c: "js_str offline_world (JStr ''tok'') = ''tok''"
    "js_str offline_world (JStr ''0xabc'') = ''0xabc''"
    by (simp_all add: js_str_def)
  have d: "\<not> env_truthy (storage empty_token_world SESSION_TOKEN_KEY)"
    using keys_distinct by (simp add: empty_token_world_def offline_world_def)
  show ?thesis
    using session_keys_paired
      [where w = offline_world and token = "JStr ''tok''" and address = "JStr ''0xabc''"
         and nav = True and this = sample_service and payload = JNull and nonce = JNull]
      session_keys_paired
      [where w = empty_token_world and token = JNull and address = JNull
         and nav = True and this = sample_service and payload = JNull and nonce = JNull]
      a b c d
    by simp
qed

text \<open>
  The claim as stated fails twice: with both keys present, the token being the empty
  string, \<open>checkAuthStatus\<close> reports \<open>isAuthenticated = false\<close>; and when the second
  \<open>setItem\<close> of \<open>storeSessionData\<close> throws, the token is stored without the wallet
  address.
\<close>

theorem session_keys_counterexample:
  "both_keys empty_token_world = (Some [], Some ''0xabc'')
   \<and> fst (checkAuthStatus empty_token_world)
       = Inr (JObj [(''isAuthenticated'', JBool False), (''token'', JNull),
                    (''walletAddress'', JStr ''0xabc'')])
   \<and> both_keys (snd (storeSessionData (JStr ''tok'') (JStr ''0xabc'') quota_world))
       = (Some ''tok'', None)"
  using keys_distinct
  by (simp add: both_keys_def checkAuthStatus_def storeSessionData_def eval_defs
      empty_token_world_def quota_world_def offline_world_def)

section \<open>C10: token validity\<close>

lemma is_invalid_invalid: "is_invalid (Inr (invalid m))" "\<not> is_valid (Inr (invalid m))"
  by (simp_all add: is_invalid_def is_valid_def invalid_def field_def)

lemma verifyToken_payload:
  assumes "token_payload w token = Some payload"
  shows "verifyToken token w =
     (Inr (case get_prop payload ''exp'' of
             Inl e \<Rightarrow> invalid (str_or (message e) ''Network error during token validation'')
           | Inr ex \<Rightarrow>
               if expired w payload then invalid ''Token expired''
               else if \<not> truthy (field payload ''walletAddress'')
               then invalid ''Token missing wallet address''
               else JObj [(''isValid'', JBool True),
                          (''walletAddress'', field payload ''walletAddress'')]), w)"
  using assms
  apply (simp add: token_payload_def verifyToken_def split: list.splits if_splits sum.splits)
   apply (auto simp: io_defs host_atob_def host_JSON_parse_def times_1000_before_now_def
      expired_def field_def split: sum.splits dest: get_prop_throws)
  done

lemma verifyToken_no_payload:
  assumes "token_payload w token = None"
  shows "\<exists>m. verifyToken token w = (Inr (invalid m), w)"
  using assms
  by (auto simp: token_payload_def verifyToken_def io_defs host_atob_def host_JSON_parse_def
      split: list.splits if_splits sum.splits)

lemma verifyToken_cases:
  "verifyToken token w =
     (Inr (JObj [(''isValid'', JBool True),
                 (''walletAddress'',
                    field (case token_payload w token of Some p \<Rightarrow> p | None \<Rightarrow> JUndefined)
                      ''walletAddress'')]), w) \<and> accepted w token
   \<or> (\<exists>m. verifyToken token w = (Inr (invalid m), w)) \<and> \<not> accepted w token"
proof (cases "token_payload w token")
  case None
  then show ?thesis using verifyToken_no_payload[OF None] by (simp add: accepted_def)
next
  case (Some payload)
  show ?thesis unfolding verifyToken_payload[OF Some] accepted_def Some
    by (cases "get_prop payload ''exp''")
       (auto simp: field_def expired_def split: sum.splits dest: get_prop_throws)
qed

text \<open>
  C10, as amended. \<open>verifyToken\<close> never throws and changes nothing. It returns
  \<open>isValid = true\<close> exactly when the token splits on \<open>.\<close> into three parts, the middle
  part is not empty and base64-decodes to parseable JSON, the payload's \<open>exp\<close> is falsy
  (absent, \<open>0\<close>, \<open>null\<close>, ...) or \<open>exp * 1000 < Date.now()\<close> is false, and the payload's
  \<open>walletAddress\<close> is truthy; it then returns that \<open>walletAddress\<close>. In every other case
  it returns \<open>isValid = false\<close> with a string \<open>error\<close>.
\<close>

theorem verifyToken_valid_iff:
  "(is_valid (fst (verifyToken token w)) \<longleftrightarrow> accepted w token)
   \<and> (is_valid (fst (verifyToken token w)) \<or> is_invalid (fst (verifyToken token w)))
   \<and> (accepted w token \<longrightarrow>
        fst (verifyToken token w) =
          Inr (JObj [(''isValid'', JBool True),
                     (''walletAddress'',
                        field (case token_payload w token of Some p \<Rightarrow> p | None \<Rightarrow> JUndefined)
                          ''walletAddress'')]))
   \<and> snd (verifyToken token w) = w"
  using verifyToken_cases[of token w]
  by (auto simp: is_invalid_def is_valid_def invalid_def field_def)

lemma split_hps: "split_on CHR ''.'' ''h.p.s'' = [''h'', ''p'', ''s'']"
  by simp

lemma split_hp: "split_on CHR ''.'' ''h.p'' = [''h'', ''p'']"
  by simp

lemma to_double_500: "to_double 500 = Fin 500"
  by code_simp

lemma to_double_2000: "to_double 2000 = Fin 2000"
  by code_simp

text \<open>
  At time 1000 ms a token expiring at second 2 is valid, one expiring at half a second
  is not, and a token of two parts is not.
\<close>

theorem verifyToken_valid_iff_witness:
  "is_valid (fst (verifyToken ''h.p.s''
      (jwt_world (JObj [(''exp'', JNum 2), (''walletAddress'', JStr ''0xabc'')]) 1000)))
   \<and> is_invalid (fst (verifyToken ''h.p.s''
      (jwt_world (JObj [(''exp'', JNum (1 / 2)), (''walletAddress'', JStr ''0xabc'')]) 1000)))
   \<and> is_invalid (fst (verifyToken ''h.p''
      (jwt_world (JObj [(''walletAddress'', JStr ''0xabc'')]) 1000)))"
proof -
  let ?w1 = "jwt_world (JObj [(''exp'', JNum 2), (''walletAddress'', JStr ''0xabc'')]) 1000"
  let ?w2 = "jwt_world (JObj [(''exp'', JNum (1 / 2)), (''walletAddress'', JStr ''0xabc'')]) 1000"
  let ?w3 = "jwt_world (JObj [(''walletAddress'', JStr ''0xabc'')]) 1000"
  have a: "accepted ?w1 ''h.p.s''"
    unfolding accepted_def token_payload_def split_hps
    by (simp add: jwt_world_def offline_world_def expired_def field_def to_double_2000)
  have b: "\<not> accepted ?w2 ''h.p.s''"
    unfolding accepted_def token_payload_def split_hps
    by (simp add: jwt_world_def offline_world_def expired_def field_def to_double_500)
  have c: "\<not> accepted ?w3 ''h.p''"
    unfolding accepted_def token_payload_def split_hp by simp
  show ?thesis
    using verifyToken_valid_iff[of "''h.p.s''" ?w1] verifyToken_valid_iff[of "''h.p.s''" ?w2]
      verifyToken_valid_iff[of "''h.p''" ?w3] a b c
    by blast
qed

text \<open>
  The claim as stated fails: a payload with \<open>exp = 0\<close> has an \<open>exp\<close> field with
  \<open>exp * 1000 >= Date.now()\<close> false, and the token is reported valid.
\<close>

theorem verifyToken_zero_exp_counterexample:
  "fst (verifyToken ''h.p.s''
      (jwt_world (JObj [(''exp'', JNum 0), (''walletAddress'', JStr ''0xabc'')]) 1000))
     = Inr (JObj [(''isValid'', JBool True), (''walletAddress'', JStr ''0xabc'')])
   \<and> has_field (JObj [(''exp'', JNum 0), (''walletAddress'', JStr ''0xabc'')]) ''exp''
   \<and> \<not> num_le (Fin 1000) (num_mul (Fin 0) (Fin 1000))"
  unfolding verifyToken_def split_hps
  by (simp add: eval_defs times_1000_before_now_def jwt_world_def offline_world_def
      has_field_def to_double_def)

section \<open>C4: the nonce of the wallet authentication\<close>

lemma trigger_invalid:
  assumes "invalid_nonce n"
  shows "triggerMiniKitWalletAuth e n w =
     (Inl (JsError ''A valid server-issued nonce is required to trigger wallet auth.''), w)"
  using assms by (auto simp: invalid_nonce_def triggerMiniKitWalletAuth_def io_throw_def)

lemma wp_trigger:
  "runs (wallet_phase n) [[1]] [[], [1]] (triggerMiniKitWalletAuth e n)"
  unfolding triggerMiniKitWalletAuth_def
  by (rule runs_weaken, (rule runs_rules | simp add: sum_eval wallet_phase_def)+)

lemma trigger_calls:
  "prefix (trace w) (trace (snd (triggerMiniKitWalletAuth e n w)))
   \<and> phases (wallet_phase n) (new_events w (snd (triggerMiniKitWalletAuth e n w))) \<in> {[], [1]}
   \<and> (\<forall>v. fst (triggerMiniKitWalletAuth e n w) = Inr v \<longrightarrow>
         phases (wallet_phase n) (new_events w (snd (triggerMiniKitWalletAuth e n w))) = [1])"
proof -
  from runsD[OF wp_trigger, where w = w and e1 = e and n1 = n] obtain evs where
    1: "trace (snd (triggerMiniKitWalletAuth e n w)) = trace w @ evs"
    and 2: "\<And>x. fst (triggerMiniKitWalletAuth e n w) = Inr x \<Longrightarrow> phases (wallet_phase n) evs \<in> set [[1]]"
    and 3: "\<And>x. fst (triggerMiniKitWalletAuth e n w) = Inl x \<Longrightarrow> phases (wallet_phase n) evs \<in> set [[], [1]]"
    by blast
  have 4: "new_events w (snd (triggerMiniKitWalletAuth e n w)) = evs"
    using 1 by (simp add: new_events_def)
  show ?thesis unfolding 4 using 1 2 3
    by (cases "fst (triggerMiniKitWalletAuth e n w)") auto
qed

lemma trigger_trace:
  assumes "\<not> invalid_nonce n" "MiniKit_defined (MiniKit w)" "has_walletAuth (MiniKit w)"
  shows "trace (snd (triggerMiniKitWalletAuth e n w)) =
     (if isInstalled_result (MiniKit w) = Inr True then trace w @ [WalletAuth n]
      else if install_throws (MiniKit w) (trigger_appId e) = None
      then trace w @ [MiniKitInstall (trigger_appId e), WalletAuth n]
      else trace w @ [MiniKitInstall (trigger_appId e)])"
proof -
  have v: "\<not> (\<not> truthy n \<or> \<not> is_string n \<or> str_length n < 8)"
    using assms(1) by (simp add: invalid_nonce_def)
  show ?thesis
  proof (cases "isInstalled_result (MiniKit w)")
    case (Inl err)
    show ?thesis
    proof (cases "install_throws (MiniKit w) (trigger_appId e)")
      case None
      show ?thesis using v assms(2,3) Inl None
        by (simp add: triggerMiniKitWalletAuth_def eval_defs split: sum.splits)
    next
      case (Some x)
      show ?thesis using v assms(2,3) Inl Some
        by (simp add: triggerMiniKitWalletAuth_def eval_defs split: sum.splits)
    qed
  next
    case (Inr b)
    show ?thesis
    proof (cases b)
      case True
      show ?thesis using v assms(2,3) Inr True
        by (simp add: triggerMiniKitWalletAuth_def eval_defs split: sum.splits)
    next
      case False
      show ?thesis
      proof (cases "install_throws (MiniKit w) (trigger_appId e)")
        case None
        show ?thesis using v assms(2,3) Inr False None
          by (simp add: triggerMiniKitWalletAuth_def eval_defs split: sum.splits)
      next
        case (Some x)
        show ?thesis using v assms(2,3) Inr False Some
          by (simp add: triggerMiniKitWalletAuth_def eval_defs split: sum.splits)
      qed
    qed
  qed
qed

lemma trigger_available:
  assumes "\<not> invalid_nonce n" "minikit_available e w"
  shows "filter is_walletAuth (new_events w (snd (triggerMiniKitWalletAuth e n w))) = [WalletAuth n]"
proof -
  have "MiniKit_defined (MiniKit w)" "has_walletAuth (MiniKit w)"
    using assms(2) by (simp_all add: minikit_available_def)
  from trigger_trace[OF assms(1) this] assms(2)
  show ?thesis by (auto simp: new_events_def minikit_available_def)
qed

lemma login_no_nonce:
  assumes "\<not> truthy (signed_nonce w authResult)"
  shows "isl (fst (loginWithWallet this authResult w))
     \<and> trace (snd (loginWithWallet this authResult w)) = trace w
     \<and> storage (snd (loginWithWallet this authResult w)) = storage w"
proof (cases "get_prop authResult ''message''")
  case (Inl err)
  then show ?thesis
    by (simp add: loginWithWallet_def eval_defs)
next
  case (Inr msg)
  then have f: "field authResult ''message'' = msg" by (simp add: field_def)
  show ?thesis
  proof (cases "truthy msg")
    case False
    then show ?thesis using Inr by (simp add: loginWithWallet_def eval_defs)
  next
    case True
    have n: "\<not> truthy (case msg of
              JObj kvs \<Rightarrow> field msg ''nonce''
            | JArr xs \<Rightarrow> field msg ''nonce''
            | JStr s \<Rightarrow> (case JSON_parse w s of Inr obj \<Rightarrow> field obj ''nonce'' | Inl e \<Rightarrow> JUndefined)
            | _ \<Rightarrow> JUndefined)"
      using assms True f by (simp add: signed_nonce_def Let_def)
    show ?thesis
    proof (cases msg)
      case (JStr s)
      show ?thesis
      proof (cases "JSON_parse w s")
        case (Inl err)
        then show ?thesis using Inr True JStr by (simp add: loginWithWallet_def eval_defs)
      next
        case (Inr obj)
        then show ?thesis using \<open>get_prop authResult ''message'' = Inr msg\<close> True JStr n
          by (cases "get_prop obj ''nonce''")
             (simp_all add: loginWithWallet_def eval_defs field_def)
      qed
    qed (use Inr True n in \<open>simp_all add: loginWithWallet_def eval_defs field_def\<close>)
  qed
qed

lemma phases_Cons: "phases ph (ev # evs) = opt (ph ev) @ phases ph evs"
  by (cases "ph ev") (simp_all add: phases_def List.map_filter_def)

lemma request_phase_None: "request_phase rq ev = None \<Longrightarrow> \<not> is_fetch ev"
  by (cases ev) (simp_all add: request_phase_def)

lemma request_phase_Some:
  "request_phase rq ev = Some k \<Longrightarrow> (k = Suc 0 \<and> ev = Fetch rq) \<or> (k = 0 \<and> is_fetch ev)"
  by (cases ev) (auto simp: request_phase_def split: if_splits)

lemma request_phase_none: "phases (request_phase rq) evs = [] \<Longrightarrow> filter is_fetch evs = []"
proof (induction evs)
  case Nil
  then show ?case by simp
next
  case (Cons ev evs)
  show ?case
  proof (cases "request_phase rq ev")
    case None
    then show ?thesis using Cons request_phase_None[OF None] by (simp add: phases_Cons)
  next
    case (Some k)
    then show ?thesis using Cons.prems by (simp add: phases_Cons)
  qed
qed

lemma request_phase_one:
  "phases (request_phase rq) evs = [Suc 0] \<Longrightarrow> filter is_fetch evs = [Fetch rq]"
proof (induction evs)
  case Nil
  then show ?case by (simp add: phases_def List.map_filter_def)
next
  case (Cons ev evs)
  show ?case
  proof (cases "request_phase rq ev")
    case None
    then show ?thesis using Cons request_phase_None[OF None] by (simp add: phases_Cons)
  next
    case (Some k)
    then have k: "k = Suc 0" and e: "phases (request_phase rq) evs = []"
      using Cons.prems by (simp_all add: phases_Cons)
    have "ev = Fetch rq" using request_phase_Some[OF Some] k by simp
    then show ?thesis using request_phase_none[OF e] by simp
  qed
qed

lemma io_bind_return: "io_bind (io_return x) f = f x"
  by (rule ext) (simp add: io_bind_def io_return_def)

lemma rp_verify:
  "runs (request_phase (verify_request this p n)) [[Suc 0]] [] (verifyWalletSignature this p n)"
  unfolding verifyWalletSignature_def AuthService_getHeaders_def
  apply (simp only: if_False Let_def io_bind_return)
  apply (rule runs_weaken,
      (rule runs_rules runs_caught runs_message_or_status
       | simp add: sum_eval request_phase_def verify_request_def)+)
  done

lemma rp_login: "runs (request_phase rq) [[]] [] (login t a b)"
  unfolding login_def storeSessionData_def
  by (rule runs_weaken, (rule runs_rules | simp add: sum_eval request_phase_def)+)

lemma login_with_nonce:
  assumes "truthy (signed_nonce w a)"
  shows "loginWithWallet this a w =
     io_try
       (io_bind (verifyWalletSignature this a (signed_nonce w a)) (\<lambda>verifyResult.
        io_bind (io_lift (get_prop verifyResult ''success'')) (\<lambda>success.
        io_bind (io_lift (get_prop verifyResult ''walletAddress'')) (\<lambda>address.
        io_bind (io_lift (get_prop verifyResult ''token'')) (\<lambda>token.
          if truthy success \<and> truthy address \<and> truthy token
          then login token address True
          else
            io_bind (io_lift (get_prop verifyResult ''error'')) (\<lambda>err.
              throw_new_Error (js_or err (JStr ''Wallet signature verification failed''))))))))
       (\<lambda>error.
          io_bind (setAuthState (\<lambda>prev. prev\<lparr>isLoading := False,
                     stateError := JStr (str_or (message error) ''Wallet login failed'')\<rparr>)) (\<lambda>_.
            io_throw error))
       (w\<lparr>authState := (authState w)\<lparr>isLoading := True, stateError := JNull\<rparr>\<rparr>)"
proof -
  obtain msg where m: "get_prop a ''message'' = Inr msg" and t: "truthy msg"
    and f: "field a ''message'' = msg"
    using assms
    by (cases "get_prop a ''message''") (auto simp: signed_nonce_def field_def Let_def split: if_splits)
  have n: "truthy (case msg of
              JObj kvs \<Rightarrow> field msg ''nonce''
            | JArr xs \<Rightarrow> field msg ''nonce''
            | JStr s \<Rightarrow> (case JSON_parse w s of Inr obj \<Rightarrow> field obj ''nonce'' | Inl e \<Rightarrow> JUndefined)
            | _ \<Rightarrow> JUndefined)"
    and v: "signed_nonce w a = (case msg of
              JObj kvs \<Rightarrow> field msg ''nonce''
            | JArr xs \<Rightarrow> field msg ''nonce''
            | JStr s \<Rightarrow> (case JSON_parse w s of Inr obj \<Rightarrow> field obj ''nonce'' | Inl e \<Rightarrow> JUndefined)
            | _ \<Rightarrow> JUndefined)"
    using assms t f by (simp_all add: signed_nonce_def Let_def)
  show ?thesis
  proof (cases msg)
    case (JStr s)
    show ?thesis
    proof (cases "JSON_parse w s")
      case (Inl err)
      then show ?thesis using n JStr by simp
    next
      case (Inr obj)
      then show ?thesis using m t JStr n v
        by (cases "get_prop obj ''nonce''")
           (simp_all add: loginWithWallet_def io_bind_def io_try_def io_lift_def io_throw_def
              io_return_def setAuthState_def host_JSON_parse_def js_or_def field_def)
    qed
  next
    case (JObj kvs)
    then show ?thesis using m t n v
      by (simp add: loginWithWallet_def io_bind_def io_try_def io_lift_def io_throw_def
              io_return_def setAuthState_def host_JSON_parse_def js_or_def field_def)
  next
    case (JArr xs)
    then show ?thesis using m t n v
      by (simp add: loginWithWallet_def io_bind_def io_try_def io_lift_def io_throw_def
              io_return_def setAuthState_def host_JSON_parse_def js_or_def field_def)
  qed (use n in simp_all)
qed

lemma login_posts_signed_nonce:
  assumes "truthy (signed_nonce w a)"
  shows "filter is_fetch (new_events w (snd (loginWithWallet this a w)))
          = [Fetch (verify_request this a (signed_nonce w a))]"
proof -
  let ?rq = "verify_request this a (signed_nonce w a)"
  let ?w1 = "w\<lparr>authState := (authState w)\<lparr>isLoading := True, stateError := JNull\<rparr>\<rparr>"
  let ?G = "io_try
       (io_bind (verifyWalletSignature this a (signed_nonce w a)) (\<lambda>verifyResult.
        io_bind (io_lift (get_prop verifyResult ''success'')) (\<lambda>success.
        io_bind (io_lift (get_prop verifyResult ''walletAddress'')) (\<lambda>address.
        io_bind (io_lift (get_prop verifyResult ''token'')) (\<lambda>token.
          if truthy success \<and> truthy address \<and> truthy token
          then login token address True
          else
            io_bind (io_lift (get_prop verifyResult ''error'')) (\<lambda>err.
              throw_new_Error (js_or err (JStr ''Wallet signature verification failed''))))))))
       (\<lambda>error.
          io_bind (setAuthState (\<lambda>prev. prev\<lparr>isLoading := False,
                     stateError := JStr (str_or (message error) ''Wallet login failed'')\<rparr>)) (\<lambda>_.
            io_throw error))"
  have r: "runs (request_phase ?rq) [[Suc 0]] [[Suc 0]] ?G"
    by (rule runs_weaken,
        (rule runs_rules rp_verify rp_login runs_throw_new_Error | simp add: sum_eval)+)
  from runsD[OF r, where w = ?w1] obtain evs where
    1: "trace (snd (?G ?w1)) = trace ?w1 @ evs"
    and 2: "\<And>x. fst (?G ?w1) = Inr x \<Longrightarrow> phases (request_phase ?rq) evs \<in> set [[Suc 0]]"
    and 3: "\<And>x. fst (?G ?w1) = Inl x \<Longrightarrow> phases (request_phase ?rq) evs \<in> set [[Suc 0]]"
    by blast
  have "phases (request_phase ?rq) evs = [Suc 0]"
    using 2 3 by (cases "fst (?G ?w1)") auto
  then have "filter is_fetch evs = [Fetch ?rq]" by (rule request_phase_one)
  moreover have "new_events w (snd (loginWithWallet this a w)) = evs"
    unfolding login_with_nonce[OF assms] using 1 by (simp add: new_events_def)
  ultimately show ?thesis by simp
qed

text \<open>
  C4, as amended. \<open>triggerMiniKitWalletAuth\<close> throws, before touching MiniKit, when the
  nonce is missing, not a string or shorter than 8 characters. For any nonce it calls
  \<open>walletAuth\<close> at most once and with no other nonce than the one it was given; when the
  nonce is valid and MiniKit is available (the global exists, it is installed or installs
  without error, and the \<open>walletAuth\<close> command exists) it calls \<open>walletAuth\<close> with exactly
  that nonce. \<open>loginWithWallet\<close> reads the nonce from the signed message: when it is
  absent (or falsy, or the message does not parse) the call fails and no request is made;
  otherwise its one request is the verification request carrying that nonce.
\<close>

theorem wallet_auth_nonce:
  "(invalid_nonce n \<longrightarrow>
      triggerMiniKitWalletAuth e n w =
        (Inl (JsError ''A valid server-issued nonce is required to trigger wallet auth.''), w))
   \<and> phases (wallet_phase n) (new_events w (snd (triggerMiniKitWalletAuth e n w))) \<in> {[], [1]}
   \<and> (\<not> invalid_nonce n \<and> minikit_available e w \<longrightarrow>
        filter is_walletAuth (new_events w (snd (triggerMiniKitWalletAuth e n w)))
          = [WalletAuth n])
   \<and> (\<not> truthy (signed_nonce w a) \<longrightarrow>
        isl (fst (loginWithWallet this a w))
        \<and> trace (snd (loginWithWallet this a w)) = trace w)
   \<and> (truthy (signed_nonce w a) \<longrightarrow>
        filter is_fetch (new_events w (snd (loginWithWallet this a w)))
          = [Fetch (verify_request this a (signed_nonce w a))])"
  using trigger_invalid[of n e w] trigger_calls[of w e n] trigger_available[of n e w]
    login_no_nonce[of w a this] login_posts_signed_nonce[of w a this]
  by blast

text \<open>
  A five-character nonce is refused; with MiniKit installed a valid nonce reaches
  \<open>walletAuth\<close> unchanged; a signed message without a nonce fails without a request.
\<close>

theorem wallet_auth_nonce_witness:
  "triggerMiniKitWalletAuth sample_env (JStr ''short'') happy_world =
      (Inl (JsError ''A valid server-issued nonce is required to trigger wallet auth.''),
       happy_world)
   \<and> filter is_walletAuth
        (new_events happy_world
          (snd (triggerMiniKitWalletAuth sample_env (JStr ''nonce-12345'') happy_world)))
      = [WalletAuth (JStr ''nonce-12345'')]
   \<and> trace (snd (loginWithWallet sample_service
        (JObj [(''message'', JObj [(''address'', JStr ''0xabc'')])]) happy_world))
      = trace happy_world"
proof -
  have a: "invalid_nonce (JStr ''short'')" "\<not> invalid_nonce (JStr ''nonce-12345'')"
    by (simp_all add: invalid_nonce_def)
  have b: "minikit_available sample_env happy_world"
    by (simp add: minikit_available_def happy_world_def offline_world_def)
  have c: "\<not> truthy (signed_nonce happy_world
        (JObj [(''message'', JObj [(''address'', JStr ''0xabc'')])]))"
    by (simp add: signed_nonce_def field_def)
  show ?thesis
    using wallet_auth_nonce
      [where n = "JStr ''short''" and e = sample_env and w = happy_world
         and a = "JObj [(''message'', JObj [(''address'', JStr ''0xabc'')])]"
         and this = sample_service]
      wallet_auth_nonce
      [where n = "JStr ''nonce-12345''" and e = sample_env and w = happy_world
         and a = "JObj [(''message'', JObj [(''address'', JStr ''0xabc'')])]"
         and this = sample_service]
      a b c
    by blast
qed

text \<open>
  The claim as stated fails: with a valid nonce, when MiniKit is not installed and its
  installation throws, the function throws and \<open>walletAuth\<close> is not called.
\<close>

theorem install_failure_counterexample:
  "\<not> invalid_nonce (JStr ''12345678'')
   \<and> fst (triggerMiniKitWalletAuth sample_env (JStr ''12345678'') install_fails_world) =
       Inl (JsError ''Failed to initialize MiniKit: MiniKit is not supported here'')
   \<and> trace (snd (triggerMiniKitWalletAuth sample_env (JStr ''12345678'') install_fails_world)) =
       [MiniKitInstall default_app_id]"
  by (simp add: invalid_nonce_def triggerMiniKitWalletAuth_def eval_defs install_fails_world_def
      offline_world_def trigger_appId_def sample_env_def env_or_def)

section \<open>C3: the requests of the service layer\<close>

lemma bind_known: "m w = (Inr x, w) \<Longrightarrow> io_bind m f w = f x w"
  by (simp add: io_bind_def)

lemma try_bind_known: "m w = (Inr x, w) \<Longrightarrow> io_try (io_bind m f) h w = io_try (f x) h w"
  by (simp add: io_bind_def io_try_def)

lemma one_request:
  assumes "runs (request_phase rq) [[Suc 0]] [] m"
  shows "requests_of m w = [Fetch rq]"
proof -
  from runsD[OF assms, where w = w] obtain evs where
    1: "trace (snd (m w)) = trace w @ evs"
    and 2: "\<And>x. fst (m w) = Inr x \<Longrightarrow> phases (request_phase rq) evs \<in> set [[Suc 0]]"
    and 3: "\<And>x. fst (m w) = Inl x \<Longrightarrow> phases (request_phase rq) evs \<in> set []"
    by blast
  have "phases (request_phase rq) evs = [Suc 0]"
    using 2 3 by (cases "fst (m w)") auto
  then have "filter is_fetch evs = [Fetch rq]" by (rule request_phase_one)
  then show ?thesis using 1 by (simp add: requests_of_def new_events_def)
qed

lemma requests_cong: "m w = m' w \<Longrightarrow> requests_of m w = requests_of m' w"
  by (simp add: requests_of_def)

lemma AuthService_getHeaders_True:
  assumes "storage_throws w (GetItem SESSION_TOKEN_KEY) = None"
  shows "AuthService_getHeaders this True w = (Inr (auth_headers (API_KEY this) (stored_token w)), w)"
  using assms
  by (simp add: AuthService_getHeaders_def io_bind_def io_return_def getItem_def auth_headers_def
      json_headers_def stored_token_def)

lemma AuthService_getHeaders_False:
  "AuthService_getHeaders this False w = (Inr (with_api_key (API_KEY this) json_headers), w)"
  by (simp add: AuthService_getHeaders_def io_return_def json_headers_def)

lemma checkAuthStatus_token:
  assumes "reads_allowed w"
  shows "io_bind checkAuthStatus (\<lambda>r. io_bind (io_lift (get_prop r ''token'')) (\<lambda>token.
           with_token token hs)) w = (Inr (with_bearer (stored_token w) hs), w)"
  using assms
  by (cases "storage w SESSION_TOKEN_KEY")
     (simp_all add: reads_allowed_def checkAuthStatus_def io_defs getItem_def with_token_def
        with_bearer_def stored_token_def js_or_def)

lemma io_bind_assoc: "io_bind (io_bind m f) g = io_bind m (\<lambda>x. io_bind (f x) g)"
  by (rule ext) (simp add: io_bind_def split: prod.splits sum.splits)

lemma CampaignService_getHeaders_eval:
  assumes "reads_allowed w"
  shows "CampaignService_getHeaders this w =
           (Inr (campaign_headers (API_KEY this) (stored_token w)), w)"
proof -
  have "CampaignService_getHeaders this w =
      io_bind (io_bind checkAuthStatus (\<lambda>r. io_bind (io_lift (get_prop r ''token'')) (\<lambda>token.
           with_token token [(''Content-Type'', ''application/json'')])))
        (\<lambda>hs. io_return (with_api_key (API_KEY this) hs)) w"
    by (simp add: CampaignService_getHeaders_def io_bind_assoc)
  also have "\<dots> = (Inr (campaign_headers (API_KEY this) (stored_token w)), w)"
    using checkAuthStatus_token[OF assms, of "[(''Content-Type'', ''application/json'')]"]
    by (simp add: io_bind_def io_return_def campaign_headers_def json_headers_def)
  finally show ?thesis .
qed

lemma WLD_getHeaders_eval:
  assumes "reads_allowed w"
  shows "WLD_getHeaders e w = (Inr (campaign_headers (VITE_WORLD_APP_API e) (stored_token w)), w)"
proof -
  have "WLD_getHeaders e w =
      io_bind (io_bind checkAuthStatus (\<lambda>r. io_bind (io_lift (get_prop r ''token'')) (\<lambda>token.
           with_token token [(''Content-Type'', ''application/json'')])))
        (\<lambda>hs. io_return (with_api_key (VITE_WORLD_APP_API e) hs)) w"
    by (simp add: WLD_getHeaders_def io_bind_assoc)
  also have "\<dots> = (Inr (campaign_headers (VITE_WORLD_APP_API e) (stored_token w)), w)"
    using checkAuthStatus_token[OF assms, of "[(''Content-Type'', ''application/json'')]"]
    by (simp add: io_bind_def io_return_def campaign_headers_def json_headers_def)
  finally show ?thesis .
qed

lemmas rq_rules = runs_rules runs_caught runs_message_or_status runs_throw_new_Error

lemma runs_throw_status: "runs ph [] [[]] (throw_status t r)"
  unfolding throw_status_def by (rule runs_throw_new_Error)

lemma method_one_request:
  assumes "M = io_try (io_bind pre F) H"
    and "pre w = (Inr hs0, w)"
    and "runs (request_phase rq) [[Suc 0]] [] (io_try (F hs0) H)"
  shows "requests_of M w = [Fetch rq]"
proof -
  have "requests_of M w = requests_of (io_try (F hs0) H) w"
    unfolding assms(1)
    by (rule requests_cong) (rule try_bind_known[where m = pre and w = w, OF assms(2)])
  then show ?thesis using one_request[OF assms(3)] by simp
qed

lemma getNonce_request:
  "requests_of (getNonce this) w =
     [Fetch \<lparr>req_method = GET, url = API_BASE this @ ''/auth/nonce'',
             headers = with_api_key (API_KEY this) json_headers, body = None\<rparr>]"
  by (rule method_one_request[OF getNonce_def AuthService_getHeaders_False],
      rule runs_weaken, (rule rq_rules | simp add: sum_eval request_phase_def)+)

lemma verifyWalletSignature_request:
  "requests_of (verifyWalletSignature this payload nonce) w =
     [Fetch \<lparr>req_method = POST, url = API_BASE this @ ''/auth/verify-signature'',
             headers = with_api_key (API_KEY this) json_headers,
             body = Some (JObj [(''payload'', payload), (''nonce'', nonce)])\<rparr>]"
  by (rule method_one_request[OF verifyWalletSignature_def AuthService_getHeaders_False],
      rule runs_weaken, (rule rq_rules | simp add: sum_eval request_phase_def)+)

lemma verifyWorldIdProof_request:
  assumes "storage_throws w (GetItem SESSION_TOKEN_KEY) = None"
  shows "requests_of (verifyWorldIdProof this idkit_proof) w =
     [Fetch \<lparr>req_method = POST, url = API_BASE this @ ''/verify-worldid'',
             headers = auth_headers (API_KEY this) (stored_token w),
             body = Some idkit_proof\<rparr>]"
  by (rule method_one_request[OF verifyWorldIdProof_def AuthService_getHeaders_True[OF assms]],
      rule runs_weaken, (rule rq_rules | simp add: sum_eval request_phase_def)+)

lemma createCampaign_request:
  assumes "reads_allowed w"
  shows "requests_of (createCampaign this payload) w =
     [Fetch \<lparr>req_method = POST, url = API_BASE this @ ''/campaigns'',
             headers = campaign_headers (API_KEY this) (stored_token w),
             body = Some payload\<rparr>]"
  by (rule method_one_request[OF createCampaign_def CampaignService_getHeaders_eval[OF assms]],
      rule runs_weaken, (rule rq_rules | simp add: sum_eval request_phase_def)+)

lemma fetchAllCampaigns_request:
  assumes "reads_allowed w"
  shows "requests_of (fetchAllCampaigns this) w =
     [Fetch \<lparr>req_method = GET, url = API_BASE this @ ''/campaigns'',
             headers = campaign_headers (API_KEY this) (stored_token w),
             body = None\<rparr>]"
  by (rule method_one_request[OF fetchAllCampaigns_def CampaignService_getHeaders_eval[OF assms]],
      rule runs_weaken, (rule rq_rules runs_throw_status | simp add: sum_eval request_phase_def)+)

lemma fetchCampaign_request:
  assumes "reads_allowed w"
  shows "requests_of (fetchCampaign this cid) w =
     [Fetch \<lparr>req_method = GET, url = API_BASE this @ ''/campaigns/'' @ cid,
             headers = campaign_headers (API_KEY this) (stored_token w),
             body = None\<rparr>]"
  by (rule method_one_request[OF fetchCampaign_def CampaignService_getHeaders_eval[OF assms]],
      rule runs_weaken, (rule rq_rules runs_throw_status | simp add: sum_eval request_phase_def)+)

lemma updateCampaign_request:
  assumes "reads_allowed w"
  shows "requests_of (updateCampaign this cid payload) w =
     [Fetch \<lparr>req_method = PUT, url = API_BASE this @ ''/campaigns/'' @ cid,
             headers = campaign_headers (API_KEY this) (stored_token w),
             body = Some payload\<rparr>]"
  by (rule method_one_request[OF updateCampaign_def CampaignService_getHeaders_eval[OF assms]],
      rule runs_weaken, (rule rq_rules | simp add: sum_eval request_phase_def)+)

lemma deleteCampaign_request:
  assumes "reads_allowed w"
  shows "requests_of (deleteCampaign this cid) w =
     [Fetch \<lparr>req_method = DELETE, url = API_BASE this @ ''/campaigns/'' @ cid,
             headers = campaign_headers (API_KEY this) (stored_token w),
             body = None\<rparr>]"
  by (rule method_one_request[OF deleteCampaign_def CampaignService_getHeaders_eval[OF assms]],
      rule runs_weaken, (rule rq_rules | simp add: sum_eval request_phase_def)+)

lemma recordDonation_request:
  assumes "reads_allowed w"
  shows "requests_of (recordDonation this cid amount txHash) w =
     [Fetch \<lparr>req_method = POST, url = API_BASE this @ ''/campaigns/'' @ cid @ ''/donate'',
             headers = campaign_headers (API_KEY this) (stored_token w),
             body = Some (JObj [(''amount'', amount), (''txHash'', txHash)])\<rparr>]"
  by (rule method_one_request[OF recordDonation_def CampaignService_getHeaders_eval[OF assms]],
      rule runs_weaken, (rule rq_rules | simp add: sum_eval request_phase_def)+)

lemma fetchUserCampaigns_request:
  assumes "reads_allowed w"
  shows "requests_of (fetchUserCampaigns this address) w =
     [Fetch \<lparr>req_method = GET, url = API_BASE this @ ''/users/'' @ address @ ''/campaigns'',
             headers = campaign_headers (API_KEY this) (stored_token w),
             body = None\<rparr>]"
  by (rule method_one_request[OF fetchUserCampaigns_def CampaignService_getHeaders_eval[OF assms]],
      rule runs_weaken, (rule rq_rules runs_throw_status | simp add: sum_eval request_phase_def)+)

lemma getApiBase_eval:
  "getApiBase e w =
     (if env_truthy (VITE_AMPLIFY_API e)
      then (Inr (case VITE_AMPLIFY_API e of Some b \<Rightarrow> b | None \<Rightarrow> []), w)
      else (Inl (JsError ''Backend API URL is not configured''), w))"
  by (simp add: getApiBase_def io_return_def io_throw_def split: option.splits)

lemma donateWLD_request:
  assumes "reads_allowed w" "VITE_AMPLIFY_API e = Some apiBase" "apiBase \<noteq> []"
  shows "requests_of (donateWLD e cid amount txHash) w =
     [Fetch \<lparr>req_method = POST, url = apiBase @ ''/campaigns/'' @ cid @ ''/donate'',
             headers = campaign_headers (VITE_WORLD_APP_API e) (stored_token w),
             body = Some (JObj [(''amount'', amount), (''txHash'', txHash)])\<rparr>]"
proof -
  have b: "getApiBase e w = (Inr apiBase, w)"
    using assms(2,3) by (simp add: getApiBase_eval)
  have "requests_of (donateWLD e cid amount txHash) w = requests_of
     (io_try
        (io_bind (WLD_getHeaders e) (\<lambda>hs.
        io_bind (fetch \<lparr>req_method = POST,
                        url = apiBase @ ''/campaigns/'' @ cid @ ''/donate'',
                        headers = hs,
                        body = Some (JObj [(''amount'', amount), (''txHash'', txHash)])\<rparr>) (\<lambda>response.
          if \<not> ok response then
            io_bind (io_catch_value (res_json response)
                       (JObj [(''message'', JStr ''Failed to record donation'')])) (\<lambda>errorData.
            io_bind (io_lift (get_prop errorData ''message'')) (\<lambda>m.
              throw_new_Error (js_or m (JStr ''Failed to record donation''))))
          else
            io_bind (res_json response) (\<lambda>data.
              io_return (JObj [(''success'', JBool True)])))))
        (caught ''Failed to donate WLD'')) w"
    unfolding donateWLD_def
    by (rule requests_cong) (rule try_bind_known[where m = "getApiBase e" and w = w, OF b])
  also have "\<dots> = [Fetch \<lparr>req_method = POST, url = apiBase @ ''/campaigns/'' @ cid @ ''/donate'',
             headers = campaign_headers (VITE_WORLD_APP_API e) (stored_token w),
             body = Some (JObj [(''amount'', amount), (''txHash'', txHash)])\<rparr>]"
    by (rule method_one_request[where pre = "WLD_getHeaders e" and w = w,
          OF refl WLD_getHeaders_eval[OF assms(1)]],
      rule runs_weaken, (rule rq_rules | simp add: sum_eval request_phase_def)+)
  finally show ?thesis .
qed

lemma donateWLD_unconfigured:
  assumes "\<not> env_truthy (VITE_AMPLIFY_API e)"
  shows "requests_of (donateWLD e cid amount txHash) w = []"
  using assms
  by (simp add: requests_of_def new_events_def donateWLD_def getApiBase_eval io_try_def io_bind_def
      caught_def io_return_def)

text \<open>What a configured value attaches: nothing when it is absent or empty.\<close>

lemma header_attachment:
  "map_of (campaign_headers key token) ''Content-Type'' = Some ''application/json''"
  "map_of (campaign_headers key token) ''x-api-key'' = (if env_truthy key then key else None)"
  "map_of (campaign_headers key token) ''Authorization''
     = (if env_truthy token then map_option ((@) ''Bearer '') token else None)"
  "map_of (auth_headers key token) ''Content-Type'' = Some ''application/json''"
  "map_of (auth_headers key token) ''x-api-key'' = (if env_truthy key then key else None)"
  "map_of (auth_headers key token) ''Authorization''
     = (if env_truthy token then map_option ((@) ''Bearer '') token else None)"
  "map_of (with_api_key key json_headers) ''Content-Type'' = Some ''application/json''"
  "map_of (with_api_key key json_headers) ''x-api-key'' = (if env_truthy key then key else None)"
  "map_of (with_api_key key json_headers) ''Authorization'' = None"
  by (cases key; cases token;
      simp add: campaign_headers_def auth_headers_def with_api_key_def with_bearer_def
        json_headers_def)+

text \<open>
  C3, as amended. Each service method issues exactly one request (\<open>donateWLD\<close> none when
  \<open>VITE_AMPLIFY_API\<close> is not configured), to its endpoint under the API base:
  \<open>/auth/nonce\<close>, \<open>/auth/verify-signature\<close>, \<open>/verify-worldid\<close>, \<open>/campaigns\<close>,
  \<open>/campaigns/{id}\<close>, \<open>/campaigns/{id}/donate\<close>, \<open>/users/{address}/campaigns\<close>. Every
  request carries \<open>Content-Type: application/json\<close>, and \<open>x-api-key\<close> exactly when the
  service's API key is configured and not empty. The requests to \<open>/auth/nonce\<close> and
  \<open>/auth/verify-signature\<close> never carry \<open>Authorization\<close>; every other request carries
  \<open>Authorization: Bearer <token>\<close> exactly when a non-empty session token is stored, the
  storage being readable.
\<close>

theorem service_requests:
  "requests_of (getNonce this) w =
     [Fetch \<lparr>req_method = GET, url = API_BASE this @ ''/auth/nonce'',
             headers = with_api_key (API_KEY this) json_headers, body = None\<rparr>]
   \<and> requests_of (verifyWalletSignature this payload nonce) w =
     [Fetch \<lparr>req_method = POST, url = API_BASE this @ ''/auth/verify-signature'',
             headers = with_api_key (API_KEY this) json_headers,
             body = Some (JObj [(''payload'', payload), (''nonce'', nonce)])\<rparr>]
   \<and> (storage_throws w (GetItem SESSION_TOKEN_KEY) = None \<longrightarrow>
        requests_of (verifyWorldIdProof this idkit_proof) w =
          [Fetch \<lparr>req_method = POST, url = API_BASE this @ ''/verify-worldid'',
                  headers = auth_headers (API_KEY this) (stored_token w),
                  body = Some idkit_proof\<rparr>])
   \<and> (reads_allowed w \<longrightarrow>
        requests_of (createCampaign this payload) w =
          [Fetch \<lparr>req_method = POST, url = API_BASE this @ ''/campaigns'',
                  headers = campaign_headers (API_KEY this) (stored_token w),
                  body = Some payload\<rparr>]
        \<and> requests_of (fetchAllCampaigns this) w =
          [Fetch \<lparr>req_method = GET, url = API_BASE this @ ''/campaigns'',
                  headers = campaign_headers (API_KEY this) (stored_token w),
                  body = None\<rparr>]
        \<and> requests_of (fetchCampaign this cid) w =
          [Fetch \<lparr>req_method = GET, url = API_BASE this @ ''/campaigns/'' @ cid,
                  headers = campaign_headers (API_KEY this) (stored_token w),
                  body = None\<rparr>]
        \<and> requests_of (updateCampaign this cid payload) w =
          [Fetch \<lparr>req_method = PUT, url = API_BASE this @ ''/campaigns/'' @ cid,
                  headers = campaign_headers (API_KEY this) (stored_token w),
                  body = Some payload\<rparr>]
        \<and> requests_of (deleteCampaign this cid) w =
          [Fetch \<lparr>req_method = DELETE, url = API_BASE this @ ''/campaigns/'' @ cid,
                  headers = campaign_headers (API_KEY this) (stored_token w),
                  body = None\<rparr>]
        \<and> requests_of (recordDonation this cid amount txHash) w =
          [Fetch \<lparr>req_method = POST, url = API_BASE this @ ''/campaigns/'' @ cid @ ''/donate'',
                  headers = campaign_headers (API_KEY this) (stored_token w),
                  body = Some (JObj [(''amount'', amount), (''txHash'', txHash)])\<rparr>]
        \<and> requests_of (fetchUserCampaigns this address) w =
          [Fetch \<lparr>req_method = GET, url = API_BASE this @ ''/users/'' @ address @ ''/campaigns'',
                  headers = campaign_headers (API_KEY this) (stored_token w),
                  body = None\<rparr>]
        \<and> (VITE_AMPLIFY_API e = Some apiBase \<and> apiBase \<noteq> [] \<longrightarrow>
             requests_of (donateWLD e cid amount txHash) w =
               [Fetch \<lparr>req_method = POST, url = apiBase @ ''/campaigns/'' @ cid @ ''/donate'',
                       headers = campaign_headers (VITE_WORLD_APP_API e) (stored_token w),
                       body = Some (JObj [(''amount'', amount), (''txHash'', txHash)])\<rparr>]))
   \<and> (\<not> env_truthy (VITE_AMPLIFY_API e) \<longrightarrow> requests_of (donateWLD e cid amount txHash) w = [])
   \<and> map_of (with_api_key key json_headers) ''Content-Type'' = Some ''application/json''
   \<and> map_of (with_api_key key json_headers) ''x-api-key'' = (if env_truthy key then key else None)
   \<and> map_of (with_api_key key json_headers) ''Authorization'' = None
   \<and> map_of (auth_headers key token) ''Content-Type'' = Some ''application/json''
   \<and> map_of (auth_headers key token) ''x-api-key'' = (if env_truthy key then key else None)
   \<and> map_of (auth_headers key token) ''Authorization''
        = (if env_truthy token then map_option ((@) ''Bearer '') token else None)
   \<and> map_of (campaign_headers key token) ''Content-Type'' = Some ''application/json''
   \<and> map_of (campaign_headers key token) ''x-api-key'' = (if env_truthy key then key else None)
   \<and> map_of (campaign_headers key token) ''Authorization''
        = (if env_truthy token then map_option ((@) ''Bearer '') token else None)"
  by (simp add: getNonce_request verifyWalletSignature_request verifyWorldIdProof_request
      createCampaign_request fetchAllCampaigns_request fetchCampaign_request
      updateCampaign_request deleteCampaign_request recordDonation_request
      fetchUserCampaigns_request donateWLD_request donateWLD_unconfigured header_attachment)

text \<open>With a session stored, a campaign request carries the bearer token.\<close>

theorem service_requests_witness:
  "requests_of (fetchCampaign sample_service ''42'') session_world =
     [Fetch \<lparr>req_method = GET, url = ''https://api.example/campaigns/42'',
             headers = [(''Content-Type'', ''application/json''),
                        (''Authorization'', ''Bearer tok'')],
             body = None\<rparr>]"
proof -
  have r: "reads_allowed session_world"
    by (simp add: reads_allowed_def session_world_def offline_world_def)
  have h: "campaign_headers (API_KEY sample_service) (stored_token session_world)
       = [(''Content-Type'', ''application/json''), (''Authorization'', ''Bearer tok'')]"
    using keys_distinct
    by (simp add: campaign_headers_def with_api_key_def with_bearer_def json_headers_def
        stored_token_def session_world_def offline_world_def sample_service_def)
  show ?thesis
    using service_requests[where w = session_world and this = sample_service and cid = "''42''"]
      r h
    by (simp add: sample_service_def)
qed

text \<open>
  The claim as stated fails: with a session token stored, the request of \<open>getNonce\<close>
  carries no \<open>Authorization\<close> header.
\<close>

theorem nonce_request_unauthenticated_counterexample:
  "storage session_world SESSION_TOKEN_KEY = Some ''tok''
   \<and> requests_of (getNonce sample_service) session_world =
       [Fetch \<lparr>req_method = GET, url = ''https://api.example/auth/nonce'',
               headers = [(''Content-Type'', ''application/json'')], body = None\<rparr>]"
  using keys_distinct
  by (simp add: requests_of_def new_events_def getNonce_def AuthService_getHeaders_def eval_defs
      session_world_def offline_world_def sample_service_def)

section \<open>C5: requests in flight\<close>

lemma guard_phase_simps:
  "guard_phase flag (Fetch r) = Some 1"
  "guard_phase flag (SetState name v) =
     (if name = flag then Some (if truthy v then 2 else 0) else None)"
  "guard_phase flag (StorageSet k x) = None"
  "guard_phase flag (StorageRemove k) = None"
  "guard_phase flag (MiniKitInstall a) = None"
  "guard_phase flag (WalletAuth j) = None"
  "guard_phase flag (Navigate p) = None"
  "guard_phase flag (Alert j) = None"
  by (simp_all add: guard_phase_def)

lemma guarded_by_phases:
  "in_flight_guarded flag b evs = guarded_phases b (phases (guard_phase flag) evs)"
proof (induction evs arbitrary: b)
  case Nil
  then show ?case by (simp add: phases_Nil)
next
  case (Cons ev evs)
  show ?case
    by (cases ev) (simp_all add: phases_Cons guard_phase_simps Cons.IH)
qed

lemma runs_guards:
  assumes "runs (guard_phase flag) N E handler"
    and "list_all (guarded_phases True) (N @ E)" "list_all (guarded_phases False) (N @ E)"
  shows "guards_requests flag handler w"
proof -
  from runsD[OF assms(1), where w = w] obtain evs where
    1: "trace (snd (handler w)) = trace w @ evs"
    and 2: "\<And>x. fst (handler w) = Inr x \<Longrightarrow> phases (guard_phase flag) evs \<in> set N"
    and 3: "\<And>x. fst (handler w) = Inl x \<Longrightarrow> phases (guard_phase flag) evs \<in> set E"
    by blast
  have "phases (guard_phase flag) evs \<in> set (N @ E)"
    using 2 3 by (cases "fst (handler w)") auto
  then have "guarded_phases b (phases (guard_phase flag) evs)" for b
    using assms(2,3) by (cases b) (auto simp: list_all_iff)
  then show ?thesis
    using 1 by (simp add: guards_requests_def new_events_def guarded_by_phases)
qed

lemmas gp_simps = sum_eval guard_phase_simps

lemma gp_checkAuthStatus: "runs (guard_phase flag) [[]] [[]] checkAuthStatus"
  unfolding checkAuthStatus_def
  by (rule runs_weaken, (rule rq_rules | simp add: gp_simps)+)

lemma gp_with_token: "runs (guard_phase flag) [[]] [] (with_token t hs)"
  unfolding with_token_def
  by (rule runs_weaken, (rule rq_rules | simp add: gp_simps)+)

lemma gp_CampaignService_getHeaders:
  "runs (guard_phase flag) [[]] [[]] (CampaignService_getHeaders this)"
  unfolding CampaignService_getHeaders_def
  by (rule runs_weaken, (rule rq_rules gp_checkAuthStatus gp_with_token | simp add: gp_simps)+)

lemma gp_WLD_getHeaders: "runs (guard_phase flag) [[]] [[]] (WLD_getHeaders e)"
  unfolding WLD_getHeaders_def
  by (rule runs_weaken, (rule rq_rules gp_checkAuthStatus gp_with_token | simp add: gp_simps)+)

lemma gp_getApiBase: "runs (guard_phase flag) [[]] [[]] (getApiBase e)"
  unfolding getApiBase_def
  by (auto split: option.splits intro: runs_weaken[OF runs_return] runs_weaken[OF runs_throw])

lemmas gp_service = rq_rules runs_throw_status gp_CampaignService_getHeaders gp_WLD_getHeaders
  gp_getApiBase runs_AuthService_getHeaders_False

lemma gp_donateWLD: "runs (guard_phase flag) [[], [1]] [] (donateWLD e c a t)"
  unfolding donateWLD_def
  by (rule runs_weaken, (rule gp_service | simp add: gp_simps)+)

lemma gp_createCampaign: "runs (guard_phase flag) [[], [1]] [] (createCampaign this p)"
  unfolding createCampaign_def
  by (rule runs_weaken, (rule gp_service | simp add: gp_simps)+)

lemma gp_updateCampaign: "runs (guard_phase flag) [[], [1]] [] (updateCampaign this c p)"
  unfolding updateCampaign_def
  by (rule runs_weaken, (rule gp_service | simp add: gp_simps)+)

lemma gp_recordDonation: "runs (guard_phase flag) [[], [1]] [] (recordDonation this c a t)"
  unfolding recordDonation_def
  by (rule runs_weaken, (rule gp_service | simp add: gp_simps)+)

lemma gp_fetchCampaign: "runs (guard_phase flag) [[], [1]] [] (fetchCampaign this c)"
  unfolding fetchCampaign_def
  by (rule runs_weaken, (rule gp_service | simp add: gp_simps)+)

lemma gp_getNonce: "runs (guard_phase flag) [[1]] [] (getNonce this)"
  unfolding getNonce_def
  by (rule runs_weaken, (rule gp_service | simp add: gp_simps)+)

lemma gp_verifyWalletSignature:
  "runs (guard_phase flag) [[1]] [] (verifyWalletSignature this p n)"
  unfolding verifyWalletSignature_def
  by (rule runs_weaken, (rule gp_service | simp add: gp_simps)+)

lemmas state_names = WLD_amount_def WLD_txHash_def WLD_loading_def WLD_success_def WLD_error_def
  WLD_instructions_def Create_form_def Create_loading_def Create_error_def Edit_formData_def
  Edit_submitting_def Edit_error_def Detail_donationAmount_def Detail_donationTxHash_def
  Detail_donating_def Detail_donationSuccess_def Detail_campaign_def isConnectingWallet_def
  pageError_def isAttemptingAuthViaWindow_def

lemma runs_start_async:
  assumes "runs ph N E start"
  shows "runs ph (alt N E) [] (start_async start rest)"
proof (rule runsI)
  fix w
  from runsD[OF assms, where w = w] obtain evs where
    1: "trace (snd (start w)) = trace w @ evs"
    and 2: "\<And>x. fst (start w) = Inr x \<Longrightarrow> phases ph evs \<in> set N"
    and 3: "\<And>x. fst (start w) = Inl x \<Longrightarrow> phases ph evs \<in> set E"
    by blast
  have "phases ph evs \<in> set (alt N E)"
    using 2 3 by (cases "fst (start w)") (auto simp: in_alt)
  then show "\<exists>evs. trace (snd (start_async start rest w)) = trace w @ evs \<and>
      (case fst (start_async start rest w) of
         Inr x \<Rightarrow> phases ph evs \<in> set (alt N E) | Inl e \<Rightarrow> phases ph evs \<in> set [])"
    using 1 by (auto simp: start_async_def split: prod.splits)
qed

lemma gp_handleDonationSuccess:
  "runs (guard_phase flag) [[]] [] (handleDonationSuccess this c)"
  unfolding handleDonationSuccess_def
  by (rule runs_weaken, (rule runs_start_async gp_checkAuthStatus | simp add: gp_simps)+)

lemma gp_WLDDonationForm:
  assumes "\<And>callback. onDonationSuccess = Some callback
             \<Longrightarrow> runs (guard_phase WLD_loading) [[]] [[]] callback"
  shows "runs (guard_phase WLD_loading) [[], [2, 0], [2, 1, 0]] []
     (WLDDonationForm_handleSubmit e c onDonationSuccess)"
proof (cases onDonationSuccess)
  case None
  show ?thesis
    unfolding WLDDonationForm_handleSubmit_def nothing_pending_def None option.case
    by (rule runs_weaken,
      (rule gp_service gp_donateWLD | simp add: gp_simps state_names)+)
next
  case (Some callback)
  show ?thesis
    unfolding WLDDonationForm_handleSubmit_def nothing_pending_def Some option.case
    by (rule runs_weaken,
      (rule gp_service gp_donateWLD assms[OF Some] | simp add: gp_simps state_names)+)
qed

lemma gp_CreateCampaignForm:
  "runs (guard_phase Create_loading) [[2, 0], [2, 1, 0]] [] (CreateCampaignForm_onSubmit this)"
  unfolding CreateCampaignForm_onSubmit_def
  by (rule runs_weaken,
      (rule gp_service gp_createCampaign | simp add: gp_simps state_names)+)

lemma gp_EditCampaignForm:
  "runs (guard_phase Edit_submitting) [[2, 0], [2, 1, 0]] []
     (EditCampaignForm_handleSubmit this c)"
  unfolding EditCampaignForm_handleSubmit_def
  by (rule runs_weaken,
      (rule gp_service gp_updateCampaign | simp add: gp_simps state_names)+)

lemma gp_CampaignDetail:
  "runs (guard_phase Detail_donating) [[], [2, 0], [2, 1, 0], [2, 1, 1, 0]] []
     (CampaignDetail_handleDonate this c)"
  unfolding CampaignDetail_handleDonate_def
  by (rule runs_weaken,
      (rule gp_service gp_recordDonation gp_fetchCampaign | simp add: gp_simps state_names)+)

lemma gp_getNonceForMiniKit: "runs (guard_phase flag) [[1]] [[1]] (getNonceForMiniKit this)"
  unfolding getNonceForMiniKit_def
  by (rule runs_weaken, (rule gp_service gp_getNonce | simp add: gp_simps)+)

lemma gp_triggerMiniKitWalletAuth:
  "runs (guard_phase flag) [[]] [[]] (triggerMiniKitWalletAuth e n)"
  unfolding triggerMiniKitWalletAuth_def
  by (rule runs_weaken, (rule gp_service | simp add: gp_simps)+)

lemma gp_storeSessionData: "runs (guard_phase flag) [[]] [] (storeSessionData t a)"
  unfolding storeSessionData_def
  by (rule runs_weaken, (rule gp_service | simp add: gp_simps)+)

lemma gp_login: "runs (guard_phase flag) [[]] [] (login t a b)"
  unfolding login_def
  by (rule runs_weaken, (rule gp_service gp_storeSessionData | simp add: gp_simps)+)

lemma gp_loginWithWallet:
  "runs (guard_phase flag) [[1]] [[], [1]] (loginWithWallet this a)"
  unfolding loginWithWallet_def
  by (rule runs_weaken,
      (rule gp_service gp_verifyWalletSignature gp_login runs_message_object
       | simp add: gp_simps)+)

lemmas gp_wallet = gp_service gp_getNonceForMiniKit gp_triggerMiniKitWalletAuth gp_loginWithWallet

lemma gp_window_trigger:
  "runs (guard_phase isAttemptingAuthViaWindow) [[], [2, 1, 0], [2, 1, 1, 0]] []
     (window_trigger e this attempting)"
  unfolding window_trigger_def
  by (rule runs_weaken, (rule gp_wallet | simp add: gp_simps state_names)+)

lemma gp_window_trigger_inner:
  "runs (guard_phase isConnectingWallet) [[], [1], [1, 1]] [[]] (call_window_trigger e this)"
  unfolding call_window_trigger_def window_trigger_def
  by (rule runs_weaken, (rule gp_wallet | simp add: gp_simps state_names)+)

lemma gp_handleConnectWallet:
  "runs (guard_phase isConnectingWallet) [[], [2, 0], [2, 1, 0], [2, 1, 1, 0]] []
     (handleConnectWallet e this)"
  unfolding handleConnectWallet_def
  by (rule runs_weaken,
      (rule gp_wallet gp_window_trigger_inner | simp add: gp_simps state_names)+)

lemma window_trigger_refuses:
  "truthy attempting \<Longrightarrow> window_trigger e this attempting w = (Inr False, w)"
  by (simp add: window_trigger_def io_return_def)

lemma handleConnectWallet_busy:
  "submit_disabled isConnectingWallet w \<or> isLoading (authState w)
   \<Longrightarrow> handleConnectWallet e this w = (Inr (), w)"
  by (auto simp: submit_disabled_def handleConnectWallet_def io_bind_def get_state_def
      io_return_def getAuthState_def)

text \<open>
  What does hold. A function installed by a render in which an attempt was under way
  refuses; \<open>handleConnectWallet\<close> returns without acting while a connection attempt or
  the loading of the authentication state is under way; and each of the two, and each
  submit handler, issues the requests it awaits between setting its flag and clearing it.
\<close>

lemma handlers_keep_requests_under_flag:
  "guards_requests isAttemptingAuthViaWindow (window_trigger e this attempting) w"
  "guards_requests isConnectingWallet (handleConnectWallet e this) w"
  "guards_requests WLD_loading (WLDDonationForm_handleSubmit e c None) w"
  "guards_requests WLD_loading
     (WLDDonationForm_handleSubmit e c (Some (handleDonationSuccess this c))) w"
  "guards_requests Create_loading (CreateCampaignForm_onSubmit this) w"
  "guards_requests Edit_submitting (EditCampaignForm_handleSubmit this c) w"
  "guards_requests Detail_donating (CampaignDetail_handleDonate this c) w"
proof -
  show "guards_requests isAttemptingAuthViaWindow (window_trigger e this attempting) w"
    by (rule runs_guards[OF gp_window_trigger]) simp_all
  show "guards_requests isConnectingWallet (handleConnectWallet e this) w"
    by (rule runs_guards[OF gp_handleConnectWallet]) simp_all
  show "guards_requests WLD_loading (WLDDonationForm_handleSubmit e c None) w"
    by (rule runs_guards[OF gp_WLDDonationForm]) simp_all
  show "guards_requests WLD_loading
     (WLDDonationForm_handleSubmit e c (Some (handleDonationSuccess this c))) w"
    by (rule runs_guards[OF gp_WLDDonationForm])
       (auto intro: runs_weaken[OF gp_handleDonationSuccess])
  show "guards_requests Create_loading (CreateCampaignForm_onSubmit this) w"
    by (rule runs_guards[OF gp_CreateCampaignForm]) simp_all
  show "guards_requests Edit_submitting (EditCampaignForm_handleSubmit this c) w"
    by (rule runs_guards[OF gp_EditCampaignForm]) simp_all
  show "guards_requests Detail_donating (CampaignDetail_handleDonate this c) w"
    by (rule runs_guards[OF gp_CampaignDetail]) simp_all
qed

lemma CampaignService_getHeaders_resumes:
  "CampaignService_getHeaders this w =
     (case checkAuthStatus w of (r, w') \<Rightarrow> CampaignService_getHeaders_resumed this r w')"
  by (simp add: CampaignService_getHeaders_def CampaignService_getHeaders_resumed_def
      io_bind_def io_lift_def split: prod.splits sum.splits)

lemma fetchCampaign_resumes:
  "fetchCampaign this cid w =
     (case checkAuthStatus w of (r, w') \<Rightarrow> fetchCampaign_resumed this cid r w')"
  unfolding fetchCampaign_def fetchCampaign_resumed_def
  by (simp add: io_try_def io_bind_def[of "CampaignService_getHeaders this"]
      io_bind_def[of "CampaignService_getHeaders_resumed this _"]
      CampaignService_getHeaders_resumes split: prod.splits sum.splits)

lemma try_bind_cong: "m w = m' w' \<Longrightarrow> io_try (io_bind m f) h w = io_try (io_bind m' f) h w'"
  by (simp add: io_try_def io_bind_def)

lemma handleDonationSuccess_awaited:
  "io_bind (handleDonationSuccess this cid) (\<lambda>rest. rest) w =
     io_try
       (io_bind (fetchCampaign this cid) (\<lambda>result.
        io_bind (io_lift (get_prop result ''success'')) (\<lambda>success.
        io_bind (io_lift (get_prop result ''campaign'')) (\<lambda>campaign.
          if truthy success \<and> truthy campaign then set_state Detail_campaign campaign
          else io_return ()))))
       (\<lambda>err. io_return ()) w"
proof -
  obtain r w' where c: "checkAuthStatus w = (r, w')" by (cases "checkAuthStatus w")
  have L: "io_bind (handleDonationSuccess this cid) (\<lambda>rest. rest) w =
      handleDonationSuccess_resumed this cid r w'"
    by (simp add: handleDonationSuccess_def start_async_def io_bind_def c)
  have F: "fetchCampaign this cid w = fetchCampaign_resumed this cid r w'"
    by (simp add: fetchCampaign_resumes c)
  have R: "io_try
       (io_bind (fetchCampaign this cid) (\<lambda>result.
        io_bind (io_lift (get_prop result ''success'')) (\<lambda>success.
        io_bind (io_lift (get_prop result ''campaign'')) (\<lambda>campaign.
          if truthy success \<and> truthy campaign then set_state Detail_campaign campaign
          else io_return ()))))
       (\<lambda>err. io_return ()) w = handleDonationSuccess_resumed this cid r w'"
    unfolding handleDonationSuccess_resumed_def by (rule try_bind_cong
          [where m = "fetchCampaign this cid" and w = w
             and m' = "fetchCampaign_resumed this cid r" and w' = w', OF F])
  show ?thesis by (rule trans[OF L R[symmetric]])
qed

lemma minAmount_is_binary64: "to_double (1 / 100) = Fin minAmount_0_01"
  by code_simp


text \<open>
  C5. While a wallet-authentication attempt is in progress \<open>window.__triggerWalletAuth\<close>
  is to return \<open>false\<close> at once instead of starting a second attempt. It does not when
  it is called again before React has rendered: the function tests the constant of the
  render that installed it, not the state. In the world that a first call leaves when it
  has set \<open>isAttemptingAuthViaWindow\<close>, the function still installed is that of the first
  render, and a call of it passes the test, goes through the whole handshake (both
  requests, the \<open>walletAuth\<close> command, the session writes) and returns \<open>true\<close>. Only the
  function of the next render, once the effect has installed it, refuses.
\<close>

theorem second_attempt_not_refused:
  "ui attempt_started isAttemptingAuthViaWindow = JBool True
   \<and> window_triggerWalletAuth attempt_started = Some (JBool False)
   \<and> fst (call_window_trigger sample_env sample_service attempt_started) = Inr True
   \<and> new_events attempt_started
        (snd (call_window_trigger sample_env sample_service attempt_started)) =
      [SetState isAttemptingAuthViaWindow (JBool True),
       Fetch \<lparr>req_method = GET, url = ''https://api.example/auth/nonce'',
              headers = [(''Content-Type'', ''application/json'')], body = None\<rparr>,
       WalletAuth (JStr ''nonce-12345''),
       Fetch \<lparr>req_method = POST, url = ''https://api.example/auth/verify-signature'',
              headers = [(''Content-Type'', ''application/json'')],
              body = Some (JObj [(''payload'', JObj [(''status'', JStr ''success''),
                           (''message'', JObj [(''nonce'', JStr ''nonce-12345'')])]),
                     (''nonce'', JStr ''nonce-12345'')])\<rparr>,
       StorageSet SESSION_TOKEN_KEY ''tok'', StorageSet WALLET_ADDRESS_KEY ''0xabc'',
       StorageSet SESSION_TOKEN_KEY ''tok'', StorageSet WALLET_ADDRESS_KEY ''0xabc'',
       Navigate ''/dashboard'', SetState isAttemptingAuthViaWindow (JBool False)]
   \<and> call_window_trigger sample_env sample_service
        (attempt_started\<lparr>window_triggerWalletAuth := Some (JBool True)\<rparr>) =
      (Inr False, attempt_started\<lparr>window_triggerWalletAuth := Some (JBool True)\<rparr>)"
proof -
  have 1: "ui attempt_started isAttemptingAuthViaWindow = JBool True"
    "window_triggerWalletAuth attempt_started = Some (JBool False)"
    by (simp_all add: attempt_started_def mounted_world_def set_state_def)
  have 2: "call_window_trigger sample_env sample_service
        (attempt_started\<lparr>window_triggerWalletAuth := Some (JBool True)\<rparr>) =
      (Inr False, attempt_started\<lparr>window_triggerWalletAuth := Some (JBool True)\<rparr>)"
    by (simp add: call_window_trigger_def get_window_trigger_def io_bind_def
        window_trigger_refuses)
  have 3: "call_window_trigger sample_env sample_service attempt_started =
      window_trigger sample_env sample_service (JBool False) attempt_started"
    by (simp add: call_window_trigger_def get_window_trigger_def io_bind_def 1)
  have 4: "fst (window_trigger sample_env sample_service (JBool False) attempt_started) = Inr True"
    by (simp add: window_trigger_def getNonceForMiniKit_def getNonce_def
      triggerMiniKitWalletAuth_def loginWithWallet_def verifyWalletSignature_def login_def
      storeSessionData_def eval_defs sample_env_def sample_service_def attempt_started_def
      mounted_world_def happy_world_def offline_world_def isAttemptingAuthViaWindow_def)
  have 5: "new_events attempt_started
        (snd (window_trigger sample_env sample_service (JBool False) attempt_started)) =
      [SetState isAttemptingAuthViaWindow (JBool True),
       Fetch \<lparr>req_method = GET, url = ''https://api.example/auth/nonce'',
              headers = [(''Content-Type'', ''application/json'')], body = None\<rparr>,
       WalletAuth (JStr ''nonce-12345''),
       Fetch \<lparr>req_method = POST, url = ''https://api.example/auth/verify-signature'',
              headers = [(''Content-Type'', ''application/json'')],
              body = Some (JObj [(''payload'', JObj [(''status'', JStr ''success''),
                           (''message'', JObj [(''nonce'', JStr ''nonce-12345'')])]),
                     (''nonce'', JStr ''nonce-12345'')])\<rparr>,
       StorageSet SESSION_TOKEN_KEY ''tok'', StorageSet WALLET_ADDRESS_KEY ''0xabc'',
       StorageSet SESSION_TOKEN_KEY ''tok'', StorageSet WALLET_ADDRESS_KEY ''0xabc'',
       Navigate ''/dashboard'', SetState isAttemptingAuthViaWindow (JBool False)]"
    by (simp add: new_events_def window_trigger_def getNonceForMiniKit_def getNonce_def
      triggerMiniKitWalletAuth_def loginWithWallet_def verifyWalletSignature_def login_def
      storeSessionData_def eval_defs sample_env_def sample_service_def attempt_started_def
      mounted_world_def happy_world_def offline_world_def isAttemptingAuthViaWindow_def)
  show ?thesis using 1 2 4 5 unfolding 3 by blast
qed

text \<open>
  The refresh that CampaignDetail starts through \<open>onDonationSuccess\<close> is not awaited: its
  request goes out after the donation form has cleared \<open>loading\<close>.
\<close>

lemma refresh_request_after_loading_reset:
  "new_events donor_world
     (snd (settled (WLDDonationForm_handleSubmit donor_env ''42''
                      (Some (handleDonationSuccess sample_service ''42''))) donor_world)) =
   [SetState WLD_loading (JBool True), SetState WLD_error JNull,
    Fetch \<lparr>req_method = POST, url = ''https://api.example/campaigns/42/donate'',
           headers = [(''Content-Type'', ''application/json''), (''Authorization'', ''Bearer tok'')],
           body = Some (JObj [(''amount'', JNum 5), (''txHash'', JStr ''0xfeed'')])\<rparr>,
    SetState WLD_success (JBool True), SetState WLD_amount (JStr []),
    SetState WLD_txHash (JStr []), SetState WLD_loading (JBool False),
    Fetch \<lparr>req_method = GET, url = ''https://api.example/campaigns/42'',
           headers = [(''Content-Type'', ''application/json''), (''Authorization'', ''Bearer tok'')],
           body = None\<rparr>,
    SetState Detail_campaign (JObj [(''id'', JStr ''42'')])]"
  by (simp add: new_events_def settled_def WLDDonationForm_handleSubmit_def nothing_pending_def
      handleDonationSuccess_def handleDonationSuccess_resumed_def start_async_def
      fetchCampaign_resumed_def CampaignService_getHeaders_resumed_def donateWLD_def
      WLD_getHeaders_def getApiBase_def checkAuthStatus_def with_token_def
      js_parseFloat_def js_Number_def throw_status_def
      eval_defs donor_world_def donor_env_def session_world_def sample_env_def
      sample_service_def offline_world_def loaded_instructions_def getDonationInstructions_def
      state_names SESSION_TOKEN_KEY_def WALLET_ADDRESS_KEY_def minAmount_0_01_def)

lemma refresh_request_not_under_flag:
  "\<not> guards_requests WLD_loading
       (settled (WLDDonationForm_handleSubmit donor_env ''42''
                   (Some (handleDonationSuccess sample_service ''42'')))) donor_world"
  unfolding guards_requests_def refresh_request_after_loading_reset
  by (simp add: submit_disabled_def donor_world_def state_names)

section \<open>C8: the progress percentage\<close>

lemma bitlen_powi:
  assumes "0 < a"
  shows "(2::rat) powi (bitlen a - 1) \<le> of_int a" "of_int a < (2::rat) powi bitlen a"
proof -
  from bitlen_bounds[OF assms] have 1: "2 ^ nat (bitlen a - 1) \<le> a" "a < 2 ^ nat (bitlen a)"
    by auto
  have 2: "1 \<le> bitlen a"
    using assms bitlen_eq_zero_iff[of a] bitlen_nonneg[of a] by linarith
  have "(2::rat) powi (bitlen a - 1) = of_int (2 ^ nat (bitlen a - 1))"
    using 2 by (simp add: power_int_def)
  also have "\<dots> \<le> of_int a" using 1(1) by (simp only: of_int_le_iff)
  finally show "(2::rat) powi (bitlen a - 1) \<le> of_int a" .
  have "(of_int a :: rat) < of_int (2 ^ nat (bitlen a))" using 1(2) by (simp only: of_int_less_iff)
  also have "\<dots> = 2 powi bitlen a" using 2 by (simp add: power_int_def)
  finally show "of_int a < (2::rat) powi bitlen a" .
qed

lemma ilog2_bounds:
  assumes "0 < q"
  shows "2 powi ilog2 q \<le> q" "q < 2 powi (ilog2 q + 1)"
proof -
  obtain a b where ab: "quotient_of q = (a, b)" by (cases "quotient_of q")
  have b: "0 < b" using ab by (rule quotient_of_denom_pos)
  have q: "q = of_int a / of_int b" using ab by (rule quotient_of_div)
  have a: "0 < a" using assms b unfolding q by (simp add: zero_less_divide_iff)
  define d where "d = bitlen a - bitlen b"
  have B: "(0::rat) < of_int b" using b by simp
  have lo: "2 powi (d - 1) < q"
  proof -
    have "(2::rat) powi (d - 1) * of_int b < 2 powi (d - 1) * 2 powi bitlen b"
      using bitlen_powi(2)[OF b] by (simp add: zero_less_power_int)
    also have "\<dots> = 2 powi (bitlen a - 1)"
      by (simp add: d_def power_int_add[symmetric])
    also have "\<dots> \<le> of_int a" using bitlen_powi(1)[OF a] .
    finally show ?thesis unfolding q using B by (simp add: pos_less_divide_eq)
  qed
  have hi: "q < 2 powi (d + 1)"
  proof -
    have "of_int a < (2::rat) powi bitlen a" using bitlen_powi(2)[OF a] .
    also have "\<dots> = 2 powi (d + 1) * 2 powi (bitlen b - 1)"
      by (simp add: d_def power_int_add[symmetric])
    also have "\<dots> \<le> 2 powi (d + 1) * of_int b"
      using bitlen_powi(1)[OF b] by (simp add: zero_less_power_int)
    finally show ?thesis unfolding q using B by (simp add: pos_divide_less_eq)
  qed
  have i: "ilog2 q = (if 2 powi d \<le> q then d else d - 1)"
    by (simp add: ilog2_def ab d_def Let_def)
  show "2 powi ilog2 q \<le> q" using lo by (simp add: i)
  show "q < 2 powi (ilog2 q + 1)" using hi by (auto simp: i not_le)
qed

lemma ilog2_mono:
  assumes "0 < a" "a \<le> b"
  shows "ilog2 a \<le> ilog2 b"
proof (rule ccontr)
  assume "\<not> ilog2 a \<le> ilog2 b"
  then have "ilog2 b + 1 \<le> ilog2 a" by simp
  then have "(2::rat) powi (ilog2 b + 1) \<le> 2 powi ilog2 a"
    by (intro power_int_increasing) simp_all
  also have "\<dots> \<le> a" using ilog2_bounds(1)[OF assms(1)] .
  also have "\<dots> \<le> b" by fact
  finally show False using ilog2_bounds(2)[of b] assms by simp
qed

lemma round_even_cases:
  "round_even x = \<lfloor>x\<rfloor> \<or> round_even x = \<lfloor>x\<rfloor> + 1"
  by (simp add: round_even_def Let_def)

lemma round_even_int: "round_even (of_int n) = n"
  by (simp add: round_even_def Let_def)

lemma round_even_mono:
  assumes "x \<le> y"
  shows "round_even x \<le> round_even y"
proof (cases "\<lfloor>x\<rfloor> = \<lfloor>y\<rfloor>")
  case True
  then show ?thesis using assms by (auto simp: round_even_def Let_def)
next
  case False
  then have "\<lfloor>x\<rfloor> + 1 \<le> \<lfloor>y\<rfloor>" using floor_mono[OF assms] by simp
  then show ?thesis using round_even_cases[of x] round_even_cases[of y] by linarith
qed

lemma pow_shift: "53 + (e - 52) = e + (1::int)" "52 + (e - 52) = (e::int)"
  by simp_all

lemma to_double_pos:
  "0 < a \<Longrightarrow> to_double a = (if 2 powi 1024 \<le> nearest a then PosInf else Fin (nearest a))"
  by (simp add: to_double_def nearest_def Let_def)

lemma nearest_upper:
  assumes "0 < a"
  shows "nearest a \<le> 2 powi (max (ilog2 a) (- 1022) + 1)"
proof -
  define e where "e = max (ilog2 a) (- 1022)"
  have u: "(0::rat) < 2 powi (e - 52)" by (simp add: zero_less_power_int)
  have "a < 2 powi (ilog2 a + 1)" using ilog2_bounds(2)[OF assms] .
  also have "\<dots> \<le> 2 powi (e + 1)" by (intro power_int_increasing) (simp_all add: e_def)
  finally have "a / 2 powi (e - 52) \<le> 2 powi (e + 1) / 2 powi (e - 52)"
    using u by (simp add: divide_right_mono)
  also have "\<dots> = 2 powi 53" by (simp add: power_int_diff[symmetric])
  also have "\<dots> = of_int (2 ^ 53)" by (simp add: power_int_def)
  finally have "round_even (a / 2 powi (e - 52)) \<le> 2 ^ 53"
    using round_even_mono[of "a / 2 powi (e - 52)" "of_int (2 ^ 53)"]
    by (simp only: round_even_int)
  then have "(of_int (round_even (a / 2 powi (e - 52))) :: rat) \<le> of_int (2 ^ 53)"
    by (simp only: of_int_le_iff)
  then have "nearest a \<le> of_int (2 ^ 53) * 2 powi (e - 52)"
    unfolding nearest_def e_def[symmetric] using u by (simp only: mult_right_mono less_imp_le)
  also have "of_int (2 ^ 53) * 2 powi (e - 52) = (2::rat) powi 53 * 2 powi (e - 52)"
    by (simp add: power_int_def)
  also have "\<dots> = 2 powi (e + 1)"
  proof -
    have "(2::rat) powi (53 + (e - 52)) = 2 powi 53 * 2 powi (e - 52)"
      by (rule power_int_add) simp
    then show ?thesis by (simp only: pow_shift)
  qed
  finally show ?thesis unfolding e_def .
qed

lemma nearest_lower:
  assumes "0 < a" "- 1022 \<le> ilog2 a"
  shows "2 powi ilog2 a \<le> nearest a"
proof -
  define e where "e = ilog2 a"
  have m: "max (ilog2 a) (- 1022) = e" using assms(2) by (simp add: e_def)
  have u: "(0::rat) < 2 powi (e - 52)" by (simp add: zero_less_power_int)
  have "(of_int (2 ^ 52) :: rat) = 2 powi 52" by (simp add: power_int_def)
  also have "\<dots> = 2 powi e / 2 powi (e - 52)" by (simp add: power_int_diff[symmetric])
  also have "\<dots> \<le> a / 2 powi (e - 52)"
    using ilog2_bounds(1)[OF assms(1)] u by (simp add: divide_right_mono e_def)
  finally have "2 ^ 52 \<le> round_even (a / 2 powi (e - 52))"
    using round_even_mono[of "of_int (2 ^ 52)" "a / 2 powi (e - 52)"]
    by (simp only: round_even_int)
  then have "(of_int (2 ^ 52) :: rat) \<le> of_int (round_even (a / 2 powi (e - 52)))"
    by (simp only: of_int_le_iff)
  then have "of_int (2 ^ 52) * 2 powi (e - 52) \<le> nearest a"
    unfolding nearest_def m using u by (simp only: mult_right_mono less_imp_le)
  moreover have "of_int (2 ^ 52) * 2 powi (e - 52) = (2::rat) powi 52 * 2 powi (e - 52)"
    by (simp add: power_int_def)
  moreover have "(2::rat) powi 52 * 2 powi (e - 52) = 2 powi e"
  proof -
    have "(2::rat) powi (52 + (e - 52)) = 2 powi 52 * 2 powi (e - 52)"
      by (rule power_int_add) simp
    then show ?thesis by (simp only: pow_shift)
  qed
  ultimately show ?thesis unfolding e_def by simp
qed

lemma round_even_nonneg: "0 \<le> x \<Longrightarrow> 0 \<le> round_even x"
  using round_even_mono[of 0 x] round_even_int[of 0] by simp

lemma nearest_nonneg: "0 < a \<Longrightarrow> 0 \<le> nearest a"
  unfolding nearest_def
  by (intro mult_nonneg_nonneg) (simp_all add: round_even_nonneg zero_less_power_int less_imp_le)

lemma nearest_mono:
  assumes "0 < a" "a \<le> b"
  shows "nearest a \<le> nearest b"
proof -
  define ea where "ea = max (ilog2 a) (- 1022)"
  define eb where "eb = max (ilog2 b) (- 1022)"
  have b: "0 < b" using assms by simp
  have le: "ea \<le> eb" using ilog2_mono[OF assms] by (simp add: ea_def eb_def)
  show ?thesis
  proof (cases "ea = eb")
    case True
    have u: "(0::rat) < 2 powi (eb - 52)" by (simp add: zero_less_power_int)
    have "a / 2 powi (eb - 52) \<le> b / 2 powi (eb - 52)"
      using assms(2) u by (simp add: divide_right_mono)
    then have "(of_int (round_even (a / 2 powi (eb - 52))) :: rat)
        \<le> of_int (round_even (b / 2 powi (eb - 52)))"
      using round_even_mono by (simp only: of_int_le_iff)
    then show ?thesis
      unfolding nearest_def ea_def[symmetric] eb_def[symmetric] True
      using u by (simp only: mult_right_mono less_imp_le)
  next
    case False
    then have lt: "ea + 1 \<le> eb" using le by simp
    then have ib: "eb = ilog2 b" "- 1022 \<le> ilog2 b" by (simp_all add: ea_def eb_def)
    have "nearest a \<le> 2 powi (ea + 1)" using nearest_upper[OF assms(1)] by (simp add: ea_def)
    also have "\<dots> \<le> 2 powi eb" using lt by (intro power_int_increasing) simp_all
    also have "\<dots> \<le> nearest b" using nearest_lower[OF b ib(2)] by (simp add: ib(1))
    finally show ?thesis .
  qed
qed

lemma to_double_mono:
  assumes "0 \<le> a" "a \<le> b"
  shows "num_le (to_double a) (to_double b)"
proof (cases "a = 0")
  case True
  show ?thesis
  proof (cases "b = 0")
    case True
    then show ?thesis using \<open>a = 0\<close> by (simp add: to_double_def)
  next
    case False
    then have "0 < b" using assms True by simp
    then show ?thesis using \<open>a = 0\<close> nearest_nonneg[of b] by (simp add: to_double_pos) (simp add: to_double_def)
  qed
next
  case False
  then have a: "0 < a" using assms by simp
  then have b: "0 < b" using assms by simp
  show ?thesis using nearest_mono[OF a assms(2)] by (simp add: to_double_pos a b)
qed

lemma to_double_nonneg: "0 \<le> a \<Longrightarrow> num_le (Fin 0) (to_double a)"
  using to_double_mono[of 0 a] by (simp add: to_double_def)

lemma nonneg_cases:
  assumes "num_le (Fin 0) x"
  obtains a where "x = Fin a" "0 \<le> a" | "x = PosInf"
  using assms by (cases x) auto

lemma num_div_pos: "0 < g \<Longrightarrow> num_div (Fin r) (Fin g) = to_double (r / g)"
  by simp

lemma times_100_nonneg:
  assumes "num_le (Fin 0) x"
  shows "num_le (Fin 0) (num_mul x (Fin 100))"
  using assms by (cases rule: nonneg_cases) (simp_all add: to_double_nonneg signed_inf_def)

lemma times_100_mono:
  assumes "num_le (Fin 0) x" "num_le x y"
  shows "num_le (num_mul x (Fin 100)) (num_mul y (Fin 100))"
proof -
  have y: "num_le (Fin 0) y" using assms by (cases x; cases y) auto
  show ?thesis
  proof (cases rule: nonneg_cases[OF assms(1)])
    case (1 a)
    show ?thesis
    proof (cases rule: nonneg_cases[OF y])
      case (1 b)
      then show ?thesis using \<open>x = Fin a\<close> \<open>0 \<le> a\<close> assms(2) by (simp add: to_double_mono)
    next
      case 2
      have "num_le (Fin 0) (to_double (a * 100))" using \<open>0 \<le> a\<close> by (simp add: to_double_nonneg)
      then have "num_le (to_double (a * 100)) PosInf" by (cases "to_double (a * 100)") auto
      then show ?thesis using 2 \<open>x = Fin a\<close> by (simp add: signed_inf_def)
    qed
  next
    case 2
    then show ?thesis using assms(2) by (cases y) (simp_all add: signed_inf_def)
  qed
qed

lemma min_100: "Math_min (Fin (of_int n)) (Fin 100) = Fin (of_int (min n 100))"
  by (simp add: min_def)

lemma percentage_of_nonneg:
  assumes "num_le (Fin 0) x"
  shows "\<exists>p. Math_min (Math_round x) (Fin 100) = Fin (of_int p) \<and> 0 \<le> p \<and> p \<le> 100"
proof (cases rule: nonneg_cases[OF assms])
  case (1 a)
  have "0 \<le> \<lfloor>a + 1 / 2\<rfloor>" using \<open>0 \<le> a\<close> by simp
  then show ?thesis
    using 1 by (cases "100 < \<lfloor>a + 1 / 2\<rfloor>") (auto intro: exI[of _ 100] simp: not_less)
next
  case 2
  then show ?thesis by (auto intro: exI[of _ 100])
qed

lemma percentage_mono:
  assumes "num_le (Fin 0) x" "num_le x y"
  shows "num_le (Math_min (Math_round x) (Fin 100)) (Math_min (Math_round y) (Fin 100))"
proof -
  have y: "num_le (Fin 0) y" using assms by (cases x; cases y) auto
  show ?thesis
  proof (cases rule: nonneg_cases[OF assms(1)])
    case (1 a)
    show ?thesis
    proof (cases rule: nonneg_cases[OF y])
      case (1 b)
      have "\<lfloor>a + 1 / 2\<rfloor> \<le> \<lfloor>b + 1 / 2\<rfloor>"
        using assms(2) \<open>x = Fin a\<close> 1 by (intro floor_mono) simp
      then have "min \<lfloor>a + 1 / 2\<rfloor> 100 \<le> min \<lfloor>b + 1 / 2\<rfloor> 100" by simp
      then show ?thesis
        unfolding 1 \<open>x = Fin a\<close> Math_round.simps min_100 by (simp only: num_le.simps of_int_le_iff)
    next
      case 2
      then show ?thesis using \<open>x = Fin a\<close> by auto
    qed
  next
    case 2
    then show ?thesis using assms(2) by (cases y) simp_all
  qed
qed

lemma progress_nonneg:
  assumes "0 \<le> raised" "0 < goal"
  shows "num_le (Fin 0) (num_mul (num_div (Fin raised) (Fin goal)) (Fin 100))"
  using assms by (intro times_100_nonneg) (simp add: to_double_nonneg)

lemma progress_bounded:
  assumes "0 \<le> raised" "0 < goal"
  shows "\<exists>p. progressPercentage (Fin raised) (Fin goal) = Fin (of_int p) \<and> 0 \<le> p \<and> p \<le> 100"
  unfolding progressPercentage_def using assms by (intro percentage_of_nonneg progress_nonneg)

lemma progress_mono:
  assumes "0 \<le> raised" "0 < goal" "raised \<le> raised'"
  shows "num_le (progressPercentage (Fin raised) (Fin goal))
           (progressPercentage (Fin raised') (Fin goal))"
proof -
  have "raised / goal \<le> raised' / goal" using assms by (simp add: divide_right_mono)
  then have "num_le (num_div (Fin raised) (Fin goal)) (num_div (Fin raised') (Fin goal))"
    using assms by (simp add: to_double_mono)
  then show ?thesis
    unfolding progressPercentage_def using assms
    by (intro percentage_mono times_100_mono progress_nonneg) (simp_all add: to_double_nonneg)
qed

lemma round_even_err: "\<bar>of_int (round_even t) - t\<bar> \<le> 1 / 2"
proof -
  have "of_int \<lfloor>t\<rfloor> \<le> t" "t < of_int \<lfloor>t\<rfloor> + 1" by linarith+
  then show ?thesis by (auto simp: round_even_def Let_def abs_le_iff)
qed

lemma nearest_err:
  assumes "0 < a"
  shows "\<bar>nearest a - a\<bar> \<le> 2 powi (max (ilog2 a) (- 1022) - 52) / 2"
proof -
  define u :: rat where "u = 2 powi (max (ilog2 a) (- 1022) - 52)"
  have u: "0 < u" by (simp add: u_def zero_less_power_int)
  have "nearest a - a = (of_int (round_even (a / u)) - a / u) * u"
    using u by (simp add: nearest_def u_def[symmetric] algebra_simps)
  then have "\<bar>nearest a - a\<bar> = \<bar>of_int (round_even (a / u)) - a / u\<bar> * u"
    using u by (simp add: abs_mult)
  also have "\<dots> \<le> 1 / 2 * u"
    using round_even_err[of "a / u"] u by (intro mult_right_mono) simp_all
  finally show ?thesis by (simp add: u_def)
qed

lemma ilog2_less:
  assumes "0 < a" "a < 2 powi k"
  shows "ilog2 a < k"
proof (rule ccontr)
  assume "\<not> ilog2 a < k"
  then have "(2::rat) powi k \<le> 2 powi ilog2 a" by (intro power_int_increasing) simp_all
  then show False using ilog2_bounds(1)[OF assms(1)] assms(2) by simp
qed

lemma to_double_near:
  assumes "0 \<le> a" "a < 2 powi k" "- 1021 \<le> k" "k \<le> 1023"
  shows "\<exists>f. to_double a = Fin f \<and> 0 \<le> f \<and> \<bar>f - a\<bar> \<le> 2 powi (k - 53) / 2"
proof (cases "a = 0")
  case True
  then show ?thesis by (simp add: to_double_def zero_le_power_int)
next
  case False
  then have a: "0 < a" using assms by simp
  define e where "e = max (ilog2 a) (- 1022)"
  have e: "e + 1 \<le> k" using ilog2_less[OF a assms(2)] assms(3) by (simp add: e_def)
  have "nearest a \<le> 2 powi (e + 1)" using nearest_upper[OF a] by (simp add: e_def)
  also have "\<dots> \<le> 2 powi k" using e by (intro power_int_increasing) simp_all
  also have "\<dots> < 2 powi 1024" using assms(4) by (intro power_int_strict_increasing) simp_all
  finally have fin: "to_double a = Fin (nearest a)" using a by (simp add: to_double_pos)
  have "\<bar>nearest a - a\<bar> \<le> 2 powi (e - 52) / 2" using nearest_err[OF a] by (simp add: e_def)
  also have "(2::rat) powi (e - 52) \<le> 2 powi (k - 53)"
    using e by (intro power_int_increasing) simp_all
  finally have "\<bar>nearest a - a\<bar> \<le> 2 powi (k - 53) / 2" by simp
  then show ?thesis using fin nearest_nonneg[OF a] by simp
qed

lemma to_double_1: "to_double 1 = Fin 1"
  by code_simp

lemma to_double_100: "to_double 100 = Fin 100"
  by code_simp

lemma progress_full:
  assumes "0 < goal" "goal \<le> raised"
  shows "progressPercentage (Fin raised) (Fin goal) = Fin 100"
    and "spec_percentage raised goal = 100"
proof -
  have "\<lfloor>(100::rat) + 1 / 2\<rfloor> = 100" by (rule floor_unique) simp_all
  then have "progressPercentage (Fin goal) (Fin goal) = Fin 100"
    using assms(1) by (simp add: progressPercentage_def to_double_1 to_double_100)
  then have 1: "num_le (Fin 100) (progressPercentage (Fin raised) (Fin goal))"
    using progress_mono[of goal goal raised] assms by simp
  obtain p where p: "progressPercentage (Fin raised) (Fin goal) = Fin (of_int p)" "p \<le> 100"
    using progress_bounded[of raised goal] assms by auto
  have "100 \<le> p" using 1 unfolding p(1) by simp
  then show "progressPercentage (Fin raised) (Fin goal) = Fin 100" using p by simp
  have "100 \<le> 100 * raised / goal" using assms by (simp add: pos_le_divide_eq)
  then have "round (100::rat) \<le> round (100 * raised / goal)" by (rule round_mono)
  then show "spec_percentage raised goal = 100" by (simp add: spec_percentage_def)
qed

lemma progress_close:
  assumes "0 \<le> raised" "raised < goal"
  shows "\<exists>y. num_mul (num_div (Fin raised) (Fin goal)) (Fin 100) = Fin y
             \<and> \<bar>y - 100 * raised / goal\<bar> \<le> 1 / 2 ^ 46"
proof -
  define q where "q = raised / goal"
  have g: "0 < goal" using assms by simp
  have q: "0 \<le> q" "q < 2 powi 0" "q \<le> 1" using assms g by (simp_all add: q_def)
  from to_double_near[OF q(1,2)] obtain f where
    f: "to_double q = Fin f" "0 \<le> f" "\<bar>f - q\<bar> \<le> 2 powi (0 - 53) / 2"
    by auto
  have "num_le (to_double q) (to_double 1)" using q by (intro to_double_mono)
  then have f1: "f \<le> 1" by (simp add: f(1) to_double_1)
  have "0 \<le> f * 100" "f * 100 < 2 powi 7" using f(2) f1 by simp_all
  from to_double_near[OF this] obtain y where
    y: "to_double (f * 100) = Fin y" "\<bar>y - f * 100\<bar> \<le> 2 powi (7 - 53) / 2"
    by auto
  have e1: "\<bar>f - q\<bar> \<le> 1 / 2 ^ 54" using f(3) by (simp add: power_int_minus)
  have e2: "\<bar>y - f * 100\<bar> \<le> 1 / 2 ^ 47" using y(2) by (simp add: power_int_minus)
  have "\<bar>y - 100 * q\<bar> \<le> 1 / 2 ^ 47 + 100 * (1 / 2 ^ 54)"
    using e1 e2 unfolding abs_le_iff by linarith
  also have "\<dots> \<le> 1 / 2 ^ 46" by simp
  finally have "\<bar>y - 100 * raised / goal\<bar> \<le> 1 / 2 ^ 46" by (simp add: q_def)
  moreover have "num_mul (num_div (Fin raised) (Fin goal)) (Fin 100) = Fin y"
    using g by (simp add: q_def[symmetric] f(1) y(1))
  ultimately show ?thesis by blast
qed

lemma floor_near:
  fixes x y d :: rat
  assumes "\<bar>y - x\<bar> \<le> d" "d \<le> 1"
  shows "\<bar>\<lfloor>y + 1 / 2\<rfloor> - round x\<bar> \<le> 1"
    and "\<lfloor>x + 1 / 2 - d\<rfloor> = \<lfloor>x + 1 / 2 + d\<rfloor> \<Longrightarrow> \<lfloor>y + 1 / 2\<rfloor> = round x"
proof -
  have 1: "\<lfloor>x + 1 / 2 - d\<rfloor> \<le> \<lfloor>y + 1 / 2\<rfloor>" "\<lfloor>y + 1 / 2\<rfloor> \<le> \<lfloor>x + 1 / 2 + d\<rfloor>"
    using assms(1) by (intro floor_mono; linarith)+
  have 2: "\<lfloor>x + 1 / 2 - d\<rfloor> \<le> round x" "round x \<le> \<lfloor>x + 1 / 2 + d\<rfloor>"
    unfolding round_def using assms(1) by (intro floor_mono; linarith)+
  show "\<lfloor>x + 1 / 2 - d\<rfloor> = \<lfloor>x + 1 / 2 + d\<rfloor> \<Longrightarrow> \<lfloor>y + 1 / 2\<rfloor> = round x"
    using 1 2 by linarith
  have "\<lfloor>y + 1 / 2\<rfloor> \<le> \<lfloor>x + 1 / 2 + 1\<rfloor>" "\<lfloor>x + 1 / 2 - 1\<rfloor> \<le> \<lfloor>y + 1 / 2\<rfloor>"
    using assms by (intro floor_mono; linarith)+
  then show "\<bar>\<lfloor>y + 1 / 2\<rfloor> - round x\<bar> \<le> 1"
    unfolding round_def by (simp add: abs_le_iff) linarith
qed

lemma progress_agrees:
  assumes "0 \<le> raised" "0 < goal"
    and p: "progressPercentage (Fin raised) (Fin goal) = Fin (of_int p)"
  shows "\<bar>p - spec_percentage raised goal\<bar> \<le> 1"
    and "\<lfloor>100 * raised / goal + 1 / 2 - 1 / 2 ^ 46\<rfloor> = \<lfloor>100 * raised / goal + 1 / 2 + 1 / 2 ^ 46\<rfloor>
         \<Longrightarrow> p = spec_percentage raised goal"
proof -
  have "\<bar>p - spec_percentage raised goal\<bar> \<le> 1
     \<and> (\<lfloor>100 * raised / goal + 1 / 2 - 1 / 2 ^ 46\<rfloor> = \<lfloor>100 * raised / goal + 1 / 2 + 1 / 2 ^ 46\<rfloor>
         \<longrightarrow> p = spec_percentage raised goal)"
  proof (cases "goal \<le> raised")
    case True
    then show ?thesis using progress_full[OF assms(2) True] p by simp
  next
    case False
    then have "raised < goal" by simp
    from progress_close[OF assms(1) this] obtain y where
      y: "num_mul (num_div (Fin raised) (Fin goal)) (Fin 100) = Fin y"
         "\<bar>y - 100 * raised / goal\<bar> \<le> 1 / 2 ^ 46"
      by auto
    have "Fin (of_int p) = Fin (of_int (min \<lfloor>y + 1 / 2\<rfloor> 100))"
      using p by (simp only: progressPercentage_def y(1) Math_round.simps min_100)
    then have p': "p = min \<lfloor>y + 1 / 2\<rfloor> 100" by simp
    have d: "(1::rat) / 2 ^ 46 \<le> 1" by simp
    show ?thesis
      using floor_near[OF y(2) d] unfolding p' spec_percentage_def by auto
  qed
  then show "\<bar>p - spec_percentage raised goal\<bar> \<le> 1"
    and "\<lfloor>100 * raised / goal + 1 / 2 - 1 / 2 ^ 46\<rfloor> = \<lfloor>100 * raised / goal + 1 / 2 + 1 / 2 ^ 46\<rfloor>
         \<Longrightarrow> p = spec_percentage raised goal"
    by simp_all
qed

text \<open>
  C8. For a goal above zero and a non-negative amount raised, the percentage shown by
  CampaignCard, CampaignDetail and CampaignTracker is a whole number between 0 and 100
  and does not decrease when the amount raised grows. It is computed in binary64, the
  quotient rounded before the multiplication by 100 and the product before
  \<open>Math.round\<close>: it is within one of \<open>min(round(100 * raised / goal), 100)\<close> and equal to it
  whenever \<open>100 * raised / goal\<close> is farther than \<open>2^-46\<close> from every half-integer.
\<close>

theorem progress_percentage:
  assumes "0 \<le> raised" "0 < goal"
  shows "\<exists>p. progressPercentage (Fin raised) (Fin goal) = Fin (of_int p)
           \<and> 0 \<le> p \<and> p \<le> 100
           \<and> \<bar>p - spec_percentage raised goal\<bar> \<le> 1
           \<and> (\<lfloor>100 * raised / goal + 1 / 2 - 1 / 2 ^ 46\<rfloor>
                = \<lfloor>100 * raised / goal + 1 / 2 + 1 / 2 ^ 46\<rfloor>
                \<longrightarrow> p = spec_percentage raised goal)
           \<and> (\<forall>raised'. raised \<le> raised' \<longrightarrow>
                 num_le (Fin (of_int p)) (progressPercentage (Fin raised') (Fin goal)))"
proof -
  from progress_bounded[OF assms] obtain p where
    p: "progressPercentage (Fin raised) (Fin goal) = Fin (of_int p)" "0 \<le> p" "p \<le> 100"
    by blast
  have "num_le (Fin (of_int p)) (progressPercentage (Fin raised') (Fin goal))"
    if "raised \<le> raised'" for raised'
    using progress_mono[OF assms that] by (simp only: p(1))
  then show ?thesis
    using p progress_agrees[OF assms p(1)] by blast
qed

theorem progress_percentage_witness:
  "(0::rat) \<le> 1 \<and> (0::rat) < 4 \<and> (1::rat) \<le> 3
   \<and> \<lfloor>100 * 1 / 4 + 1 / 2 - 1 / 2 ^ 46 :: rat\<rfloor> = \<lfloor>100 * 1 / 4 + 1 / 2 + 1 / 2 ^ 46 :: rat\<rfloor>
   \<and> progressPercentage (Fin 1) (Fin 4) = Fin (of_int (spec_percentage 1 4))
   \<and> spec_percentage 1 4 = 25
   \<and> num_le (progressPercentage (Fin 1) (Fin 4)) (progressPercentage (Fin 3) (Fin 4))"
proof -
  have h: "\<lfloor>100 * 1 / 4 + 1 / 2 - 1 / 2 ^ 46 :: rat\<rfloor> = \<lfloor>100 * 1 / 4 + 1 / 2 + 1 / 2 ^ 46 :: rat\<rfloor>"
    by code_simp
  have s: "spec_percentage 1 4 = 25" by code_simp
  from progress_percentage[of 1 4] obtain p where
    p: "progressPercentage (Fin 1) (Fin 4) = Fin (of_int p)"
       "\<lfloor>100 * 1 / 4 + 1 / 2 - 1 / 2 ^ 46 :: rat\<rfloor> = \<lfloor>100 * 1 / 4 + 1 / 2 + 1 / 2 ^ 46 :: rat\<rfloor>
        \<longrightarrow> p = spec_percentage 1 4"
       "\<forall>raised'. 1 \<le> raised' \<longrightarrow>
          num_le (Fin (of_int p)) (progressPercentage (Fin raised') (Fin 4))"
    by auto
  have "p = spec_percentage 1 4" using p(2) h by blast
  moreover have "num_le (Fin (of_int p)) (progressPercentage (Fin 3) (Fin 4))"
    using p(3) by simp
  ultimately show ?thesis using p(1) h s by simp
qed

lemma doubles_29_200: "is_double 29" "is_double 200"
  by code_simp+

lemma shown_29_200: "progressPercentage (Fin 29) (Fin 200) = Fin 14"
  by code_simp

lemma exact_29_200: "spec_percentage 29 200 = 15"
  by code_simp

lemma doubles_large: "is_double 2196874001667222" "is_double 5424380251030178"
  by code_simp+

lemma shown_large:
  "progressPercentage (Fin 2196874001667222) (Fin 5424380251030178) = Fin 41"
  by code_simp

lemma exact_large: "spec_percentage 2196874001667222 5424380251030178 = 40"
  by code_simp

text \<open>
  29 of 200 is shown as 14 percent where the exact formula gives 15: the quotient
  \<open>0.145\<close> is not a binary64 value and its product with 100 falls just below \<open>14.5\<close>. In
  the other direction, an exact value below \<open>40.5\<close> is shown as 41.
\<close>

theorem progress_percentage_counterexample:
  "is_double 29 \<and> is_double 200
   \<and> progressPercentage (Fin 29) (Fin 200) = Fin 14
   \<and> spec_percentage 29 200 = 15
   \<and> is_double 2196874001667222 \<and> is_double 5424380251030178
   \<and> progressPercentage (Fin 2196874001667222) (Fin 5424380251030178) = Fin 41
   \<and> spec_percentage 2196874001667222 5424380251030178 = 40
   \<and> 100 * 2196874001667222 / 5424380251030178 < (40 + 1 / 2 :: rat)"
proof -
  have "100 * 2196874001667222 / 5424380251030178 < (40 + 1 / 2 :: rat)" by simp
  then show ?thesis
    using doubles_29_200 shown_29_200 exact_29_200 doubles_large shown_large exact_large
    by blast
qed

end
